(* ===== verification/Kernel_Prelude.thy ===== *)
theory Kernel_Prelude
  imports Main "HOL-Library.Word" "HOL-Library.Signed_Division"
begin

text \<open>
  Shared vocabulary of the development: the fixed-width integer types of \<open>types.h\<close>, the
  result type of operations that may go wrong at run time, counted loops, and the generic
  lemmas on lists, functions and words that the component theories use.
\<close>

unbundle bit_operations_syntax

named_theorems frame_simps \<open>fields of the kernel state that an operation leaves alone\<close>
named_theorems const_defs \<open>the \<open>#define\<close> constants of the headers\<close>

subsection \<open>Integer types\<close>

type_synonym u8 = "8 word"
type_synonym u16 = "16 word"
type_synonym u32 = "32 word"

subsection \<open>Run-time faults\<close>

text \<open>
  The kernel reports its own errors by returning \<open>-1\<close>; those are ordinary values of the
  model. What the C code does not control is a value of \<open>fault\<close>: an access outside an array
  object, an access to an unmapped page, a call through a null function pointer, a division
  by zero, a busy-wait that no interrupt ends, a loop that cannot end.
\<close>

datatype fault = OutOfBounds | PageFault | NullCall | DivideError | Waiting | Diverges

type_synonym 'a res = "fault + 'a"

abbreviation Ok :: "'a \<Rightarrow> 'a res" where "Ok \<equiv> Inr"
abbreviation Err :: "fault \<Rightarrow> 'a res" where "Err \<equiv> Inl"

definition bindE :: "'a res \<Rightarrow> ('a \<Rightarrow> 'b res) \<Rightarrow> 'b res" where
  "bindE r f = (case r of Inl e \<Rightarrow> Inl e | Inr x \<Rightarrow> f x)"

lemma bindE_simps [simp]:
  "bindE (Err e) f = Err e"
  "bindE (Ok x) f = f x"
  by (simp_all add: bindE_def)

lemma bindE_eq_Ok: "bindE r f = Ok y \<longleftrightarrow> (\<exists>x. r = Ok x \<and> f x = Ok y)"
  by (cases r) simp_all

lemma bindE_eq_Err: "bindE r f = Err e \<longleftrightarrow> r = Err e \<or> (\<exists>x. r = Ok x \<and> f x = Err e)"
  by (cases r) auto

lemma bindE_assoc: "bindE (bindE r f) g = bindE r (\<lambda>x. bindE (f x) g)"
  by (cases r) simp_all

subsection \<open>Counted loops\<close>

text \<open>\<open>for (i = a; i < b; i++) body\<close> without and with a body that may fault.\<close>

definition for_loop :: "nat \<Rightarrow> nat \<Rightarrow> (nat \<Rightarrow> 's \<Rightarrow> 's) \<Rightarrow> 's \<Rightarrow> 's" where
  "for_loop a b f s = fold f [a..<b] s"

fun foldE :: "('i \<Rightarrow> 's \<Rightarrow> 's res) \<Rightarrow> 'i list \<Rightarrow> 's \<Rightarrow> 's res" where
  "foldE f [] s = Ok s"
| "foldE f (x # xs) s = bindE (f x s) (foldE f xs)"

definition for_loopE :: "nat \<Rightarrow> nat \<Rightarrow> (nat \<Rightarrow> 's \<Rightarrow> 's res) \<Rightarrow> 's \<Rightarrow> 's res" where
  "for_loopE a b f s = foldE f [a..<b] s"

lemma for_loop_0 [simp]: "b \<le> a \<Longrightarrow> for_loop a b f s = s"
  by (simp add: for_loop_def)

lemma for_loop_Suc: "a \<le> b \<Longrightarrow> for_loop a (Suc b) f s = f b (for_loop a b f s)"
  by (simp add: for_loop_def)

lemma for_loop_unroll: "a < b \<Longrightarrow> for_loop a b f s = for_loop (Suc a) b f (f a s)"
  by (simp add: for_loop_def upt_conv_Cons)

lemma for_loop_induct:
  assumes "P a s" and "a \<le> b"
    and "\<And>i t. a \<le> i \<Longrightarrow> i < b \<Longrightarrow> P i t \<Longrightarrow> P (Suc i) (f i t)"
  shows "P b (for_loop a b f s)"
  using assms(2,3)
proof (induction b rule: dec_induct)
  case base
  then show ?case using assms(1) by simp
next
  case (step n)
  then show ?case by (auto simp: for_loop_Suc)
qed

lemma for_loop_preserves:
  assumes "P s" and "\<And>i t. P t \<Longrightarrow> P (f i t)"
  shows "P (for_loop a b f s)"
proof (cases "a \<le> b")
  case True
  then show ?thesis
    using assms by (intro for_loop_induct [where P = "\<lambda>_. P"]) auto
qed (simp add: assms)

lemma foldE_append: "foldE f (xs @ ys) s = bindE (foldE f xs s) (foldE f ys)"
proof (induction xs arbitrary: s)
  case (Cons x xs)
  then show ?case by (cases "f x s") simp_all
qed simp

lemma for_loopE_0 [simp]: "b \<le> a \<Longrightarrow> for_loopE a b f s = Ok s"
  by (simp add: for_loopE_def)

lemma for_loopE_Suc: "a \<le> b \<Longrightarrow> for_loopE a (Suc b) f s = bindE (for_loopE a b f s) (f b)"
  by (cases "foldE f [a..<b] s") (simp_all add: for_loopE_def foldE_append bindE_def split: sum.split)

lemma for_loopE_unroll: "a < b \<Longrightarrow> for_loopE a b f s = bindE (f a s) (for_loopE (Suc a) b f)"
  by (simp add: for_loopE_def upt_conv_Cons fun_eq_iff bindE_def split: sum.split)

lemma for_loopE_induct:
  assumes "P a s" and "a \<le> b"
    and "\<And>i t. a \<le> i \<Longrightarrow> i < b \<Longrightarrow> P i t \<Longrightarrow> \<exists>t'. f i t = Ok t' \<and> P (Suc i) t'"
  shows "\<exists>t. for_loopE a b f s = Ok t \<and> P b t"
  using assms(2,3)
proof (induction b rule: dec_induct)
  case base
  then show ?case using assms(1) by simp
next
  case (step n)
  then obtain t where "for_loopE a n f s = Ok t" "P n t" by (meson less_SucI)
  moreover obtain t' where "f n t = Ok t'" "P (Suc n) t'"
    using step calculation by blast
  ultimately show ?case using step.hyps by (simp add: for_loopE_Suc)
qed

text \<open>A loop whose body never faults is the plain loop.\<close>

lemma foldE_Ok: "(\<And>i t. i \<in> set xs \<Longrightarrow> f i t = Ok (g i t)) \<Longrightarrow> foldE f xs s = Ok (fold g xs s)"
  by (induction xs arbitrary: s) simp_all

lemma for_loopE_Ok:
  "(\<And>i t. a \<le> i \<Longrightarrow> i < b \<Longrightarrow> f i t = Ok (g i t)) \<Longrightarrow> for_loopE a b f s = Ok (for_loop a b g s)"
  unfolding for_loopE_def for_loop_def by (rule foldE_Ok) simp

subsection \<open>Words\<close>

lemma of_nat_u32_inject:
  "m < 2 ^ 32 \<Longrightarrow> n < 2 ^ 32 \<Longrightarrow> (of_nat m :: u32) = of_nat n \<longleftrightarrow> m = n"
  by (simp add: word_of_nat_eq_iff take_bit_nat_eq_self)

lemma add_of_nat_u32_inject:
  "m < 2 ^ 32 \<Longrightarrow> n < 2 ^ 32 \<Longrightarrow> (a :: u32) + of_nat m = a + of_nat n \<longleftrightarrow> m = n"
  by (simp add: of_nat_u32_inject)

lemma unat_of_nat_u32: "k < 2 ^ 32 \<Longrightarrow> unat (of_nat k :: u32) = k"
  by (simp add: unat_of_nat)

lemma sint_of_nat_u32: "k < 2 ^ 31 \<Longrightarrow> sint (of_nat k :: u32) = int k"
  by (simp add: signed_of_nat signed_take_bit_int_eq_self)

lemma unat_u32_less: "unat (n :: u32) < 2 ^ 32"
  using unsigned_less [of n, where ?'a = nat] by simp

lemma unat_Suc_pred: "n \<noteq> 0 \<Longrightarrow> unat (n :: 'a::len word) = Suc (unat (n - 1))"
  using unat_minus_one [of n] unat_gt_0 [of n] by linarith

lemma u32_le_2_cases: "(w :: u32) \<le> 2 \<longleftrightarrow> w = 0 \<or> w = 1 \<or> w = 2"
proof -
  have "w \<le> 2 \<longleftrightarrow> unat w = 0 \<or> unat w = 1 \<or> unat w = 2"
    by (auto simp: word_le_nat_alt)
  then show ?thesis by (simp add: word_unat_eq_iff)
qed

lemma word_eq_bits: "(\<And>n. n < LENGTH('a) \<Longrightarrow> bit a n = bit b n) \<Longrightarrow> a = (b :: 'a::len word)"
  by (metis bit_word_eqI)

end
