(* ===== verification/Descriptors.thy ===== *)
theory Descriptors
  imports Kernel_Prelude
begin

text \<open>
  The descriptors of \<open>x86_desc.h\<close>: segment descriptors and gates as the structures with
  bit-fields that the code assigns, the macros that set their parameters, and the two words each
  is in memory, from which the processor reads base, limit, gate type and entry point.
\<close>

abbreviation KERNEL_CS :: u16 where "KERNEL_CS \<equiv> 0x0010"
abbreviation USER_CS :: u16 where "USER_CS \<equiv> 0x0023"
abbreviation USER_DS :: u16 where "USER_DS \<equiv> 0x002B"
abbreviation KERNEL_TSS :: u16 where "KERNEL_TSS \<equiv> 0x0030"
abbreviation KERNEL_LDT :: u16 where "KERNEL_LDT \<equiv> 0x0038"
abbreviation TSS_SIZE :: u32 where "TSS_SIZE \<equiv> 104"
abbreviation NUM_VEC :: nat where "NUM_VEC \<equiv> 256"
abbreviation USERPRV :: "2 word" where "USERPRV \<equiv> 3"

subsection \<open>Segment descriptors\<close>

text \<open>A bit-field of width \<open>w\<close> is a word of that width: assignment truncates.\<close>

record seg_desc =
  seg_lim_15_00 :: u16
  base_15_00 :: u16
  base_23_16 :: u8
  seg_type :: "4 word"
  seg_sys :: "1 word"
  seg_dpl :: "2 word"
  seg_present :: "1 word"
  seg_lim_19_16 :: "4 word"
  avail :: "1 word"
  seg_reserved :: "1 word"
  opsize :: "1 word"
  granularity :: "1 word"
  base_31_24 :: u8

definition SET_LDT_PARAMS :: "seg_desc \<Rightarrow> u32 \<Rightarrow> u32 \<Rightarrow> seg_desc" where
  "SET_LDT_PARAMS str addr lim = str\<lparr>
     base_31_24 := ucast (drop_bit 24 (addr AND 0xFF000000)),
     base_23_16 := ucast (drop_bit 16 (addr AND 0x00FF0000)),
     base_15_00 := ucast (addr AND 0x0000FFFF),
     seg_lim_19_16 := ucast (drop_bit 16 (lim AND 0x000F0000)),
     seg_lim_15_00 := ucast (lim AND 0x0000FFFF)\<rparr>"

definition SET_TSS_PARAMS :: "seg_desc \<Rightarrow> u32 \<Rightarrow> u32 \<Rightarrow> seg_desc" where
  "SET_TSS_PARAMS str addr lim = str\<lparr>
     base_31_24 := ucast (drop_bit 24 (addr AND 0xFF000000)),
     base_23_16 := ucast (drop_bit 16 (addr AND 0x00FF0000)),
     base_15_00 := ucast (addr AND 0x0000FFFF),
     seg_lim_19_16 := ucast (drop_bit 16 (lim AND 0x000F0000)),
     seg_lim_15_00 := ucast (lim AND 0x0000FFFF)\<rparr>"

text \<open>The two words of a packed segment descriptor, the lower address first.\<close>

definition seg_low :: "seg_desc \<Rightarrow> u32" where
  "seg_low d = ucast (seg_lim_15_00 d) OR push_bit 16 (ucast (base_15_00 d))"

definition seg_high :: "seg_desc \<Rightarrow> u32" where
  "seg_high d = ucast (base_23_16 d) OR push_bit 8 (ucast (seg_type d)) OR push_bit 12 (ucast (seg_sys d)) OR
     push_bit 13 (ucast (seg_dpl d)) OR push_bit 15 (ucast (seg_present d)) OR
     push_bit 16 (ucast (seg_lim_19_16 d)) OR push_bit 20 (ucast (avail d)) OR
     push_bit 21 (ucast (seg_reserved d)) OR push_bit 22 (ucast (opsize d)) OR
     push_bit 23 (ucast (granularity d)) OR push_bit 24 (ucast (base_31_24 d))"

text \<open>What the processor reads from them.\<close>

definition cpu_base :: "u32 \<Rightarrow> u32 \<Rightarrow> u32" where
  "cpu_base lo hi = drop_bit 16 lo OR push_bit 16 (hi AND 0xFF) OR (hi AND 0xFF000000)"

definition cpu_limit :: "u32 \<Rightarrow> u32 \<Rightarrow> u32" where
  "cpu_limit lo hi = (lo AND 0xFFFF) OR (hi AND 0x000F0000)"

definition cpu_type :: "u32 \<Rightarrow> u32" where
  "cpu_type hi = drop_bit 8 hi AND 0x1F"

definition cpu_dpl :: "u32 \<Rightarrow> u32" where
  "cpu_dpl hi = drop_bit 13 hi AND 3"

definition cpu_present :: "u32 \<Rightarrow> bool" where
  "cpu_present hi \<longleftrightarrow> bit hi 15"

definition cpu_granular :: "u32 \<Rightarrow> bool" where
  "cpu_granular hi \<longleftrightarrow> bit hi 23"

subsection \<open>Gates\<close>

record idt_desc =
  offset_15_00 :: u16
  seg_selector :: u16
  reserved4 :: u8
  reserved3 :: "1 word"
  reserved2 :: "1 word"
  reserved1 :: "1 word"
  gate_size :: "1 word"
  reserved0 :: "1 word"
  gate_dpl :: "2 word"
  gate_present :: "1 word"
  offset_31_16 :: u16

definition SET_IDT_ENTRY :: "idt_desc \<Rightarrow> u32 \<Rightarrow> idt_desc" where
  "SET_IDT_ENTRY str handler = str\<lparr>
     offset_31_16 := ucast (drop_bit 16 (handler AND 0xFFFF0000)),
     offset_15_00 := ucast (handler AND 0xFFFF)\<rparr>"

definition gate_low :: "idt_desc \<Rightarrow> u32" where
  "gate_low g = ucast (offset_15_00 g) OR push_bit 16 (ucast (seg_selector g))"

definition gate_high :: "idt_desc \<Rightarrow> u32" where
  "gate_high g = ucast (reserved4 g) OR push_bit 8 (ucast (reserved3 g)) OR push_bit 9 (ucast (reserved2 g)) OR
     push_bit 10 (ucast (reserved1 g)) OR push_bit 11 (ucast (gate_size g)) OR
     push_bit 12 (ucast (reserved0 g)) OR push_bit 13 (ucast (gate_dpl g)) OR
     push_bit 15 (ucast (gate_present g)) OR push_bit 16 (ucast (offset_31_16 g))"

definition cpu_offset :: "u32 \<Rightarrow> u32 \<Rightarrow> u32" where
  "cpu_offset lo hi = (lo AND 0xFFFF) OR (hi AND 0xFFFF0000)"

definition cpu_selector :: "u32 \<Rightarrow> u32" where
  "cpu_selector lo = drop_bit 16 lo"

abbreviation INTERRUPT_GATE :: u32 where "INTERRUPT_GATE \<equiv> 0xE"
abbreviation TRAP_GATE :: u32 where "TRAP_GATE \<equiv> 0xF"

subsection \<open>Bits of the two words\<close>

lemma mask_bits:
  "bit (w AND 0x3 :: u32) n \<longleftrightarrow> bit w n \<and> n < 2"
  "bit (w AND 0xF :: u32) n \<longleftrightarrow> bit w n \<and> n < 4"
  "bit (w AND 0x1F :: u32) n \<longleftrightarrow> bit w n \<and> n < 5"
  "bit (w AND 0xFF :: u32) n \<longleftrightarrow> bit w n \<and> n < 8"
  "bit (w AND 0xFFFF :: u32) n \<longleftrightarrow> bit w n \<and> n < 16"
  "bit (w AND 0xFFFFF :: u32) n \<longleftrightarrow> bit w n \<and> n < 20"
  "bit (w AND 0xFFFF0000 :: u32) n \<longleftrightarrow> bit w n \<and> 16 \<le> n"
  "bit (w AND 0xFF0000 :: u32) n \<longleftrightarrow> bit w n \<and> 16 \<le> n \<and> n < 24"
  "bit (w AND 0xFF000000 :: u32) n \<longleftrightarrow> bit w n \<and> 24 \<le> n"
  "bit (w AND 0xF0000 :: u32) n \<longleftrightarrow> bit w n \<and> 16 \<le> n \<and> n < 20"
proof -
  have m: "(0x3 :: u32) = mask 2" "(0xF :: u32) = mask 4" "(0x1F :: u32) = mask 5" "(0xFF :: u32) = mask 8" "(0xFFFF :: u32) = mask 16"
    "(0xFFFFF :: u32) = mask 20" "(0xFFFF0000 :: u32) = push_bit 16 (mask 16)"
    "(0xFF0000 :: u32) = push_bit 16 (mask 8)" "(0xFF000000 :: u32) = push_bit 24 (mask 8)"
    "(0xF0000 :: u32) = push_bit 16 (mask 4)"
    by (simp_all add: mask_eq_exp_minus_1)
  have len: "n < 32" if "bit w n" using that bit_imp_le_length [of w n] by simp
  show "bit (w AND 0x3 :: u32) n \<longleftrightarrow> bit w n \<and> n < 2"
    "bit (w AND 0xF :: u32) n \<longleftrightarrow> bit w n \<and> n < 4"
    "bit (w AND 0x1F :: u32) n \<longleftrightarrow> bit w n \<and> n < 5"
    "bit (w AND 0xFF :: u32) n \<longleftrightarrow> bit w n \<and> n < 8"
    "bit (w AND 0xFFFF :: u32) n \<longleftrightarrow> bit w n \<and> n < 16"
    "bit (w AND 0xFFFFF :: u32) n \<longleftrightarrow> bit w n \<and> n < 20"
    "bit (w AND 0xFFFF0000 :: u32) n \<longleftrightarrow> bit w n \<and> 16 \<le> n"
    "bit (w AND 0xFF0000 :: u32) n \<longleftrightarrow> bit w n \<and> 16 \<le> n \<and> n < 24"
    "bit (w AND 0xFF000000 :: u32) n \<longleftrightarrow> bit w n \<and> 24 \<le> n"
    "bit (w AND 0xF0000 :: u32) n \<longleftrightarrow> bit w n \<and> 16 \<le> n \<and> n < 20"
    unfolding m using len by (auto simp: bit_simps)
qed

lemma small_bits:
  fixes a :: u8 and b :: u16 and c :: "4 word" and d :: "2 word" and e :: "1 word"
  shows "8 \<le> n \<Longrightarrow> \<not> bit a n" "16 \<le> n \<Longrightarrow> \<not> bit b n" "4 \<le> n \<Longrightarrow> \<not> bit c n" "2 \<le> n \<Longrightarrow> \<not> bit d n"
    "1 \<le> n \<Longrightarrow> \<not> bit e n"
  using bit_imp_le_length [of a n] bit_imp_le_length [of b n] bit_imp_le_length [of c n]
    bit_imp_le_length [of d n] bit_imp_le_length [of e n] by (auto simp: not_less)

lemma field_bit:
  fixes x :: "'b::len word"
  assumes "k + LENGTH('b) \<le> 32"
  shows "bit (push_bit k (ucast x) :: u32) n \<longleftrightarrow> k \<le> n \<and> bit x (n - k)"
  using assms bit_imp_le_length [of x "n - k"] by (auto simp: bit_simps)

lemma field_bit_0: "LENGTH('b) \<le> 32 \<Longrightarrow> bit (ucast (x :: 'b::len word) :: u32) n \<longleftrightarrow> bit x n"
  using bit_imp_le_length [of x n] by (auto simp: bit_simps)

lemma seg_low_bit:
  "bit (seg_low d) n \<longleftrightarrow> (if n < 16 then bit (seg_lim_15_00 d) n else bit (base_15_00 d) (n - 16))"
  by (simp add: seg_low_def bit_or_iff field_bit field_bit_0 small_bits not_less)

lemma seg_high_bit:
  shows "n < 8 \<Longrightarrow> bit (seg_high d) n \<longleftrightarrow> bit (base_23_16 d) n"
    and "16 \<le> n \<Longrightarrow> n < 20 \<Longrightarrow> bit (seg_high d) n \<longleftrightarrow> bit (seg_lim_19_16 d) (n - 16)"
    and "24 \<le> n \<Longrightarrow> bit (seg_high d) n \<longleftrightarrow> bit (base_31_24 d) (n - 24)"
    and "8 \<le> n \<Longrightarrow> n < 12 \<Longrightarrow> bit (seg_high d) n \<longleftrightarrow> bit (seg_type d) (n - 8)"
    and "bit (seg_high d) 12 \<longleftrightarrow> bit (seg_sys d) 0"
    and "13 \<le> n \<Longrightarrow> n < 15 \<Longrightarrow> bit (seg_high d) n \<longleftrightarrow> bit (seg_dpl d) (n - 13)"
    and "bit (seg_high d) 15 \<longleftrightarrow> bit (seg_present d) 0"
    and "bit (seg_high d) 23 \<longleftrightarrow> bit (granularity d) 0"
  by (simp_all add: seg_high_def bit_or_iff field_bit field_bit_0 small_bits)

lemma gate_low_bit:
  "bit (gate_low g) n \<longleftrightarrow> (if n < 16 then bit (offset_15_00 g) n else bit (seg_selector g) (n - 16))"
  by (simp add: gate_low_def bit_or_iff field_bit field_bit_0 small_bits not_less)

lemma gate_high_bit:
  shows "16 \<le> n \<Longrightarrow> bit (gate_high g) n \<longleftrightarrow> bit (offset_31_16 g) (n - 16)"
    and "bit (gate_high g) 8 \<longleftrightarrow> bit (reserved3 g) 0"
    and "bit (gate_high g) 9 \<longleftrightarrow> bit (reserved2 g) 0"
    and "bit (gate_high g) 10 \<longleftrightarrow> bit (reserved1 g) 0"
    and "bit (gate_high g) 11 \<longleftrightarrow> bit (gate_size g) 0"
    and "bit (gate_high g) 12 \<longleftrightarrow> bit (reserved0 g) 0"
    and "13 \<le> n \<Longrightarrow> n < 15 \<Longrightarrow> bit (gate_high g) n \<longleftrightarrow> bit (gate_dpl g) (n - 13)"
    and "bit (gate_high g) 15 \<longleftrightarrow> bit (gate_present g) 0"
  by (simp_all add: gate_high_def bit_or_iff field_bit field_bit_0 small_bits)

subsection \<open>What the macros mean to the processor\<close>

lemma ldt_field_bits:
  "bit (base_31_24 (SET_LDT_PARAMS x addr lim)) n \<longleftrightarrow> n < 8 \<and> bit addr (24 + n)"
  "bit (base_23_16 (SET_LDT_PARAMS x addr lim)) n \<longleftrightarrow> n < 8 \<and> bit addr (16 + n)"
  "bit (base_15_00 (SET_LDT_PARAMS x addr lim)) n \<longleftrightarrow> n < 16 \<and> bit addr n"
  "bit (seg_lim_19_16 (SET_LDT_PARAMS x addr lim)) n \<longleftrightarrow> n < 4 \<and> bit lim (16 + n)"
  "bit (seg_lim_15_00 (SET_LDT_PARAMS x addr lim)) n \<longleftrightarrow> n < 16 \<and> bit lim n"
  by (auto simp: SET_LDT_PARAMS_def bit_ucast_iff mask_bits bit_drop_bit_eq)

lemma ldt_params_base: "cpu_base (seg_low (SET_LDT_PARAMS x addr lim)) (seg_high (SET_LDT_PARAMS x addr lim)) = addr"
proof (rule word_eq_bits)
  fix n
  assume "n < LENGTH(32)"
  then have "n < 16 \<or> 16 \<le> n \<and> n < 24 \<or> 24 \<le> n" "n < 32" by (linarith, simp)
  then show "bit (cpu_base (seg_low (SET_LDT_PARAMS x addr lim)) (seg_high (SET_LDT_PARAMS x addr lim))) n = bit addr n"
    by (auto simp: cpu_base_def bit_or_iff mask_bits bit_drop_bit_eq bit_push_bit_iff
        seg_low_bit seg_high_bit ldt_field_bits)
qed

lemma ldt_params_limit:
  "cpu_limit (seg_low (SET_LDT_PARAMS x addr lim)) (seg_high (SET_LDT_PARAMS x addr lim)) = lim AND 0x000FFFFF"
proof (rule word_eq_bits)
  fix n :: nat
  have "n < 16 \<or> 16 \<le> n \<and> n < 20 \<or> 20 \<le> n" by linarith
  then show "bit (cpu_limit (seg_low (SET_LDT_PARAMS x addr lim)) (seg_high (SET_LDT_PARAMS x addr lim))) n =
      bit (lim AND 0x000FFFFF) n"
    by (auto simp: cpu_limit_def bit_or_iff mask_bits seg_low_bit seg_high_bit ldt_field_bits)
qed

text \<open>The TSS macro is the same macro.\<close>

lemma tss_params: "SET_TSS_PARAMS = SET_LDT_PARAMS"
  by (simp add: fun_eq_iff SET_TSS_PARAMS_def SET_LDT_PARAMS_def)

lemma idt_field_bits:
  "bit (offset_31_16 (SET_IDT_ENTRY g handler)) n \<longleftrightarrow> n < 16 \<and> bit handler (16 + n)"
  "bit (offset_15_00 (SET_IDT_ENTRY g handler)) n \<longleftrightarrow> n < 16 \<and> bit handler n"
  by (auto simp: SET_IDT_ENTRY_def bit_ucast_iff mask_bits bit_drop_bit_eq)

lemma idt_entry_decode:
  "cpu_offset (gate_low (SET_IDT_ENTRY g handler)) (gate_high (SET_IDT_ENTRY g handler)) = handler"
proof (rule word_eq_bits)
  fix n
  assume "n < LENGTH(32)"
  then show "bit (cpu_offset (gate_low (SET_IDT_ENTRY g handler)) (gate_high (SET_IDT_ENTRY g handler))) n = bit handler n"
    by (cases "n < 16") (auto simp: cpu_offset_def bit_or_iff mask_bits gate_low_bit gate_high_bit idt_field_bits)
qed

lemma gate_selector: "cpu_selector (gate_low g) = ucast (seg_selector g)"
proof (rule word_eq_bits)
  fix n
  assume "n < LENGTH(32)"
  then show "bit (cpu_selector (gate_low g)) n = bit (ucast (seg_selector g) :: u32) n"
    by (cases "n < 16") (auto simp: cpu_selector_def bit_drop_bit_eq gate_low_bit bit_ucast_iff simp: small_bits)
qed

text \<open>The five bits that the code calls reserved and size are the type of the gate.\<close>

lemma gate_type_bits:
  assumes "t AND 0x1F = t" and "bit (reserved3 g) 0 = bit t 0" and "bit (reserved2 g) 0 = bit t 1"
    and "bit (reserved1 g) 0 = bit t 2" and "bit (gate_size g) 0 = bit t 3" and "bit (reserved0 g) 0 = bit t 4"
  shows "cpu_type (gate_high g) = t"
proof (rule word_eq_bits)
  fix n :: nat
  have "n = 0 \<or> n = 1 \<or> n = 2 \<or> n = 3 \<or> n = 4 \<or> 5 \<le> n" by linarith
  moreover have "5 \<le> n \<Longrightarrow> \<not> bit t n" using mask_bits(3) [of t n] assms(1) by auto
  ultimately show "bit (cpu_type (gate_high g)) n = bit t n"
    using assms(2-6) by (auto simp: cpu_type_def mask_bits bit_drop_bit_eq gate_high_bit)
qed

lemma gate_types:
  assumes "reserved0 g = 0" and "reserved1 g = 1" and "reserved2 g = 1" and "gate_size g = 1"
  shows "reserved3 g = 0 \<Longrightarrow> cpu_type (gate_high g) = INTERRUPT_GATE"
    and "reserved3 g = 1 \<Longrightarrow> cpu_type (gate_high g) = TRAP_GATE"
  using assms by (intro gate_type_bits; simp)+

lemma gate_dpl_present: "cpu_dpl (gate_high g) = ucast (gate_dpl g)" "cpu_present (gate_high g) \<longleftrightarrow> bit (gate_present g) 0"
proof -
  show "cpu_present (gate_high g) \<longleftrightarrow> bit (gate_present g) 0"
    by (simp add: cpu_present_def gate_high_bit)
  show "cpu_dpl (gate_high g) = ucast (gate_dpl g)"
  proof (rule word_eq_bits)
    fix n
    assume "n < LENGTH(32)"
    then show "bit (cpu_dpl (gate_high g)) n = bit (ucast (gate_dpl g) :: u32) n"
      by (cases "n < 2") (auto simp: cpu_dpl_def mask_bits bit_drop_bit_eq gate_high_bit bit_ucast_iff simp: small_bits)
  qed
qed

lemma seg_types:
  assumes "seg_sys d = 0"
  shows "cpu_type (seg_high d) = ucast (seg_type d)"
proof (rule word_eq_bits)
  fix n :: nat
  assume "n < LENGTH(32)"
  moreover have "n < 4 \<or> n = 4 \<or> 5 \<le> n" by linarith
  ultimately show "bit (cpu_type (seg_high d)) n = bit (ucast (seg_type d) :: u32) n"
    using assms by (auto simp: cpu_type_def mask_bits bit_drop_bit_eq seg_high_bit bit_ucast_iff small_bits)
qed

lemma seg_dpl_present: "cpu_dpl (seg_high d) = ucast (seg_dpl d)" "cpu_present (seg_high d) \<longleftrightarrow> bit (seg_present d) 0"
proof -
  show "cpu_present (seg_high d) \<longleftrightarrow> bit (seg_present d) 0"
    by (simp add: cpu_present_def seg_high_bit)
  show "cpu_dpl (seg_high d) = ucast (seg_dpl d)"
  proof (rule word_eq_bits)
    fix n
    assume "n < LENGTH(32)"
    then show "bit (cpu_dpl (seg_high d)) n = bit (ucast (seg_dpl d) :: u32) n"
      by (cases "n < 2") (auto simp: cpu_dpl_def mask_bits bit_drop_bit_eq seg_high_bit bit_ucast_iff small_bits)
  qed
qed

end
