(* ===== verification/Machine.thy ===== *)
theory Machine
  imports Kernel_Prelude
begin

text \<open>
  The machine under the kernel: byte memory, the paging structures and control registers, the
  stack registers the context switch saves, the flags, and port input/output
  (\<open>lib.h\<close>: \<open>inb\<close> \dots \<open>outl\<close>, \<open>cli\<close>, \<open>sti\<close>,
  \<open>cli_and_save\<close>, \<open>restore_flags\<close>).

  The devices behind the ports are not part of the program. They are the field \<open>dev\<close>, which
  no operation changes: what a read of a port answers, as a function of everything that was
  written and read before. What a driver relies on is stated about \<open>dev\<close> where it is used.
\<close>

subsection \<open>State\<close>

text \<open>One port access: width in bits, port, and the value written or read.\<close>

datatype io_event = In nat u16 u32 | Out nat u16 u32

text \<open>
  \<open>mem\<close> is physical memory. \<open>tabs\<close> holds the page directories and page tables, each
  an array of 32-bit entries at its 4KB-aligned base address.
\<close>

record machine =
  mem :: "u32 \<Rightarrow> u8"
  tabs :: "u32 \<Rightarrow> nat \<Rightarrow> u32"
  cr0 :: u32
  cr3 :: u32
  cr4 :: u32
  esp :: u32
  ebp :: u32
  eflags :: u32
  dev :: "io_event list \<Rightarrow> nat \<Rightarrow> u16 \<Rightarrow> u32"
  io_log :: "io_event list"

subsection \<open>Port input and output\<close>

definition port_in :: "nat \<Rightarrow> u16 \<Rightarrow> 'a machine_scheme \<Rightarrow> u32 \<times> 'a machine_scheme" where
  "port_in w p s =
     (let v = take_bit w (dev s (io_log s) w p)
      in (v, s\<lparr>io_log := io_log s @ [In w p v]\<rparr>))"

definition port_out :: "nat \<Rightarrow> u32 \<Rightarrow> u16 \<Rightarrow> 'a machine_scheme \<Rightarrow> 'a machine_scheme" where
  "port_out w v p s = s\<lparr>io_log := io_log s @ [Out w p (take_bit w v)]\<rparr>"

text \<open>\<open>inb\<close> zero-extends the byte it reads; \<open>outb\<close> sends the low byte of its data.\<close>

definition inb :: "u16 \<Rightarrow> 'a machine_scheme \<Rightarrow> u32 \<times> 'a machine_scheme" where
  "inb p s = port_in 8 p s"

definition inw :: "u16 \<Rightarrow> 'a machine_scheme \<Rightarrow> u32 \<times> 'a machine_scheme" where
  "inw p s = port_in 16 p s"

definition inl :: "u16 \<Rightarrow> 'a machine_scheme \<Rightarrow> u32 \<times> 'a machine_scheme" where
  "inl p s = port_in 32 p s"

definition outb :: "u32 \<Rightarrow> u16 \<Rightarrow> 'a machine_scheme \<Rightarrow> 'a machine_scheme" where
  "outb v p s = port_out 8 v p s"

definition outw :: "u32 \<Rightarrow> u16 \<Rightarrow> 'a machine_scheme \<Rightarrow> 'a machine_scheme" where
  "outw v p s = port_out 16 v p s"

definition outl :: "u32 \<Rightarrow> u16 \<Rightarrow> 'a machine_scheme \<Rightarrow> 'a machine_scheme" where
  "outl v p s = port_out 32 v p s"

subsection \<open>Interrupt flag\<close>

definition IF_MASK :: u32 where [const_defs]: "IF_MASK = 0x200"
definition DF_MASK :: u32 where [const_defs]: "DF_MASK = 0x400"

definition cli :: "'a machine_scheme \<Rightarrow> 'a machine_scheme" where
  "cli s = s\<lparr>eflags := eflags s AND NOT IF_MASK\<rparr>"

definition sti :: "'a machine_scheme \<Rightarrow> 'a machine_scheme" where
  "sti s = s\<lparr>eflags := eflags s OR IF_MASK\<rparr>"

definition cli_and_save :: "'a machine_scheme \<Rightarrow> u32 \<times> 'a machine_scheme" where
  "cli_and_save s = (eflags s, cli s)"

definition restore_flags :: "u32 \<Rightarrow> 'a machine_scheme \<Rightarrow> 'a machine_scheme" where
  "restore_flags f s = s\<lparr>eflags := f\<rparr>"

lemma restore_cli_and_save: "cli_and_save s = (f, t) \<Longrightarrow> restore_flags f t = s"
  by (auto simp: cli_and_save_def restore_flags_def cli_def)

subsection \<open>What port access leaves alone\<close>

lemma port_frame [frame_simps]:
  "mem (outb v p s) = mem s" "dev (outb v p s) = dev s"
  "mem (snd (inb p s)) = mem s" "dev (snd (inb p s)) = dev s"
  "machine.more (outb v p s) = machine.more s"
  "machine.more (snd (inb p s)) = machine.more s"
  by (simp_all add: outb_def inb_def port_out_def port_in_def Let_def)

lemma io_log_outb [simp]: "io_log (outb v p s) = io_log s @ [Out 8 p (take_bit 8 v)]"
  by (simp add: outb_def port_out_def)

lemma io_log_inb [simp]: "io_log (snd (inb p s)) = io_log s @ [In 8 p (fst (inb p s))]"
  by (simp add: inb_def port_in_def Let_def)

lemma fst_inb: "fst (inb p s) = take_bit 8 (dev s (io_log s) 8 p)"
  by (simp add: inb_def port_in_def Let_def)

end
