(* ===== verification/I8259.thy ===== *)
theory I8259
  imports Machine
begin

text \<open>
  The driver of the two cascaded 8259 interrupt controllers (\<open>i8259.c\<close>). The interface the
  rest of the kernel uses is the locale \<open>irq_controller\<close>: a set of unmasked lines that
  enabling and disabling change one line at a time. It is interpreted on the driver running
  against a device that answers reads of its data ports with its interrupt mask register.
\<close>

abbreviation MASTER_COMMAND :: u16 where "MASTER_COMMAND \<equiv> 0x20"
abbreviation MASTER_DATA :: u16 where "MASTER_DATA \<equiv> 0x21"
abbreviation SLAVE_COMMAND :: u16 where "SLAVE_COMMAND \<equiv> 0xA0"
abbreviation SLAVE_DATA :: u16 where "SLAVE_DATA \<equiv> 0xA1"
abbreviation ICW1 :: u32 where "ICW1 \<equiv> 0x11"
abbreviation ICW2_MASTER :: u32 where "ICW2_MASTER \<equiv> 0x20"
abbreviation ICW2_SLAVE :: u32 where "ICW2_SLAVE \<equiv> 0x28"
abbreviation ICW3_MASTER :: u32 where "ICW3_MASTER \<equiv> 0x04"
abbreviation ICW3_SLAVE :: u32 where "ICW3_SLAVE \<equiv> 0x02"
abbreviation ICW4 :: u32 where "ICW4 \<equiv> 0x01"
abbreviation MASK_ALL :: u32 where "MASK_ALL \<equiv> 0xff"
abbreviation IRQ_MAX :: u32 where "IRQ_MAX \<equiv> 0x08"
abbreviation BIT_MASK :: u32 where "BIT_MASK \<equiv> 0x01"
abbreviation SLAVE_IRQ :: u32 where "SLAVE_IRQ \<equiv> 0x02"
abbreviation EOI :: u32 where "EOI \<equiv> 0x60"

subsection \<open>State and operations\<close>

record pic = machine +
  master_mask :: u8
  slave_mask :: u8

definition i8259_init :: "'a machine_scheme \<Rightarrow> 'a machine_scheme" where
  "i8259_init s =
     (let s = outb MASK_ALL MASTER_DATA s;
          s = outb MASK_ALL SLAVE_DATA s;
          s = outb ICW1 MASTER_COMMAND s;
          s = outb ICW1 SLAVE_COMMAND s;
          s = outb ICW2_MASTER MASTER_DATA s;
          s = outb ICW2_SLAVE SLAVE_DATA s;
          s = outb ICW3_MASTER MASTER_DATA s;
          s = outb ICW3_SLAVE SLAVE_DATA s;
          s = outb ICW4 MASTER_DATA s;
          s = outb ICW4 SLAVE_DATA s;
          s = outb MASK_ALL MASTER_DATA s
      in outb MASK_ALL SLAVE_DATA s)"

text \<open>
  \<open>irq_num\<close> is a \<open>uint32_t\<close>. The shift of \<open>BIT_MASK\<close> is only defined in C below 32;
  every call in the kernel passes a line number below 16.
\<close>

definition enable_irq :: "u32 \<Rightarrow> 'a pic_scheme \<Rightarrow> 'a pic_scheme" where
  "enable_irq irq_num s =
     (if irq_num < IRQ_MAX then
        let (v, s) = inb MASTER_DATA s;
            s = s\<lparr>master_mask := ucast (v AND NOT (push_bit (unat irq_num) BIT_MASK))\<rparr>
        in outb (ucast (master_mask s)) MASTER_DATA s
      else
        let irq_num = irq_num - IRQ_MAX;
            (v, s) = inb SLAVE_DATA s;
            s = s\<lparr>slave_mask := ucast (v AND NOT (push_bit (unat irq_num) BIT_MASK))\<rparr>
        in outb (ucast (slave_mask s)) SLAVE_DATA s)"

definition disable_irq :: "u32 \<Rightarrow> 'a pic_scheme \<Rightarrow> 'a pic_scheme" where
  "disable_irq irq_num s =
     (if irq_num < IRQ_MAX then
        let (v, s) = inb MASTER_DATA s;
            s = s\<lparr>master_mask := ucast (v OR push_bit (unat irq_num) BIT_MASK)\<rparr>
        in outb (ucast (master_mask s)) MASTER_DATA s
      else
        let irq_num = irq_num - IRQ_MAX;
            (v, s) = inb SLAVE_DATA s;
            s = s\<lparr>slave_mask := ucast (v OR push_bit (unat irq_num) BIT_MASK)\<rparr>
        in outb (ucast (slave_mask s)) SLAVE_DATA s)"

definition send_eoi :: "u32 \<Rightarrow> 'a machine_scheme \<Rightarrow> 'a machine_scheme" where
  "send_eoi irq_num s =
     (if IRQ_MAX \<le> irq_num then
        let irq_num = irq_num - IRQ_MAX;
            s = outb (EOI OR irq_num) SLAVE_COMMAND s
        in outb (EOI OR SLAVE_IRQ) MASTER_COMMAND s
      else outb (EOI OR irq_num) MASTER_COMMAND s)"

subsection \<open>The device\<close>

text \<open>
  The documented behaviour of one 8259A seen from its two ports: an initialisation command
  word (bit 4 set, on the command port) clears the mask register and makes the next three
  bytes on the data port the remaining initialisation words; any other byte on the data port
  is written to the mask register, and reading the data port returns that register.
\<close>

fun pic_cell :: "u16 \<Rightarrow> u16 \<Rightarrow> nat \<times> u32 \<Rightarrow> io_event \<Rightarrow> nat \<times> u32" where
  "pic_cell cmd data (n, m) (Out w p v) =
     (if w = 8 \<and> p = cmd \<and> bit v 4 then (3, 0)
      else if w = 8 \<and> p = data then (if 0 < n then (n - 1, m) else (0, v))
      else (n, m))"
| "pic_cell cmd data nm (In w p v) = nm"

definition pic_state :: "u16 \<Rightarrow> u16 \<Rightarrow> io_event list \<Rightarrow> nat \<times> u32" where
  "pic_state cmd data log = foldl (pic_cell cmd data) (0, 0) log"

abbreviation "master_pic \<equiv> pic_state MASTER_COMMAND MASTER_DATA"
abbreviation "slave_pic \<equiv> pic_state SLAVE_COMMAND SLAVE_DATA"

definition pic_device :: "(io_event list \<Rightarrow> nat \<Rightarrow> u16 \<Rightarrow> u32) \<Rightarrow> bool" where
  "pic_device d \<longleftrightarrow>
     (\<forall>log. (fst (master_pic log) = 0 \<longrightarrow> d log 8 MASTER_DATA = snd (master_pic log)) \<and>
            (fst (slave_pic log) = 0 \<longrightarrow> d log 8 SLAVE_DATA = snd (slave_pic log)))"

definition pic_ready :: "'a machine_scheme \<Rightarrow> bool" where
  "pic_ready s \<longleftrightarrow> pic_device (dev s) \<and>
     fst (master_pic (io_log s)) = 0 \<and> fst (slave_pic (io_log s)) = 0"

text \<open>The lines that reach the processor, numbered 0 to 15 over both controllers.\<close>

definition unmasked :: "'a machine_scheme \<Rightarrow> nat set" where
  "unmasked s = {n. n < 16 \<and>
     \<not> (if n < 8 then bit (snd (master_pic (io_log s))) n
        else bit (snd (slave_pic (io_log s))) (n - 8))}"

lemma pic_state_append [simp]:
  "pic_state cmd data (log @ es) = foldl (pic_cell cmd data) (pic_state cmd data log) es"
  by (simp add: pic_state_def)

lemma pic_cell_In [simp]: "pic_cell cmd data nm (In w p v) = nm"
  by simp

lemma pic_cell_other [simp]:
  "p \<noteq> cmd \<Longrightarrow> p \<noteq> data \<Longrightarrow> pic_cell cmd data nm (Out w p v) = nm"
  by (cases nm) simp

lemma pic_cell_ready [simp]:
  "data \<noteq> cmd \<Longrightarrow> fst nm = 0 \<Longrightarrow> pic_cell cmd data nm (Out 8 data v) = (0, v)"
  by (cases nm) simp

subsection \<open>Effect of the operations on the log\<close>

definition irq_port :: "u32 \<Rightarrow> u16" where
  "irq_port n = (if n < IRQ_MAX then MASTER_DATA else SLAVE_DATA)"

definition irq_bit :: "u32 \<Rightarrow> u32" where
  "irq_bit n = push_bit (unat (if n < IRQ_MAX then n else n - IRQ_MAX)) BIT_MASK"

lemma enable_irq_log:
  "io_log (enable_irq n s) =
     io_log s @ [In 8 (irq_port n) (fst (inb (irq_port n) s)),
                 Out 8 (irq_port n) (take_bit 8 (fst (inb (irq_port n) s) AND NOT (irq_bit n)))]"
  by (simp add: enable_irq_def irq_port_def irq_bit_def inb_def port_in_def Let_def
      unsigned_ucast_eq take_bit_word_eq_self split: prod.split)

lemma disable_irq_log:
  "io_log (disable_irq n s) =
     io_log s @ [In 8 (irq_port n) (fst (inb (irq_port n) s)),
                 Out 8 (irq_port n) (take_bit 8 (fst (inb (irq_port n) s) OR irq_bit n))]"
  by (simp add: disable_irq_def irq_port_def irq_bit_def inb_def port_in_def Let_def
      unsigned_ucast_eq take_bit_word_eq_self split: prod.split)

lemma irq_frame [frame_simps]:
  "mem (enable_irq n s) = mem s" "dev (enable_irq n s) = dev s"
  "mem (disable_irq n s) = mem s" "dev (disable_irq n s) = dev s"
  "mem (send_eoi n s) = mem s" "dev (send_eoi n s) = dev s"
  "mem (i8259_init s) = mem s" "dev (i8259_init s) = dev s"
  by (simp_all add: enable_irq_def disable_irq_def send_eoi_def i8259_init_def inb_def
      port_in_def outb_def port_out_def Let_def split: prod.split)

lemma pic_read:
  assumes "pic_ready s"
  shows "fst (inb MASTER_DATA s) = take_bit 8 (snd (master_pic (io_log s)))"
    and "fst (inb SLAVE_DATA s) = take_bit 8 (snd (slave_pic (io_log s)))"
  using assms by (simp_all add: fst_inb pic_ready_def pic_device_def)

lemma bit_one_shift: "bit ((2 :: u32) ^ k) n \<longleftrightarrow> n = k \<and> n < 32"
  by (auto simp: bit_exp_iff)

lemma irq_of_nat:
  assumes "n < 16"
  shows "irq_port (of_nat n) = (if n < 8 then MASTER_DATA else SLAVE_DATA)"
    and "irq_bit (of_nat n) = push_bit (if n < 8 then n else n - 8) 1"
proof -
  have u: "unat (of_nat n :: u32) = n"
    using assms by (simp add: unat_of_nat take_bit_nat_eq_self)
  have l: "(of_nat n :: u32) < 8 \<longleftrightarrow> n < 8"
    by (simp add: word_less_nat_alt u)
  then show "irq_port (of_nat n) = (if n < 8 then MASTER_DATA else SLAVE_DATA)"
    by (simp add: irq_port_def)
  have "unat ((of_nat n :: u32) - 8) = n - 8" if "\<not> n < 8"
    using that by (simp add: unat_sub u word_le_nat_alt)
  with l show "irq_bit (of_nat n) = push_bit (if n < 8 then n else n - 8) 1"
    by (simp add: irq_bit_def u)
qed

lemma enable_irq_lines:
  assumes "pic_ready s" and "n < 16"
  shows "unmasked (enable_irq (of_nat n) s) = insert n (unmasked s)"
  using assms
  by (auto simp: unmasked_def enable_irq_log irq_of_nat pic_read pic_ready_def bit_take_bit_iff
      bit_and_iff bit_not_iff bit_one_shift split: if_splits)

lemma disable_irq_lines:
  assumes "pic_ready s" and "n < 16"
  shows "unmasked (disable_irq (of_nat n) s) = unmasked s - {n}"
  using assms
  by (auto simp: unmasked_def disable_irq_log irq_of_nat pic_read pic_ready_def bit_take_bit_iff
      bit_or_iff bit_one_shift split: if_splits)

lemma irq_ready:
  assumes "pic_ready s" and "n < 16"
  shows "pic_ready (enable_irq (of_nat n) s)" and "pic_ready (disable_irq (of_nat n) s)"
  using assms by (auto simp: pic_ready_def enable_irq_log disable_irq_log irq_of_nat frame_simps)

subsection \<open>The interface\<close>

locale irq_controller =
  fixes ready :: "'s \<Rightarrow> bool"
    and lines :: "'s \<Rightarrow> nat set"
    and enable :: "nat \<Rightarrow> 's \<Rightarrow> 's"
    and disable :: "nat \<Rightarrow> 's \<Rightarrow> 's"
  assumes ready_enable: "ready s \<Longrightarrow> n < 16 \<Longrightarrow> ready (enable n s)"
    and ready_disable: "ready s \<Longrightarrow> n < 16 \<Longrightarrow> ready (disable n s)"
    and lines_enable: "ready s \<Longrightarrow> n < 16 \<Longrightarrow> lines (enable n s) = insert n (lines s)"
    and lines_disable: "ready s \<Longrightarrow> n < 16 \<Longrightarrow> lines (disable n s) = lines s - {n}"
begin

lemma ready_fold: "ready s \<Longrightarrow> \<forall>n \<in> set ns. n < 16 \<Longrightarrow> ready (fold enable ns s)"
  by (induction ns arbitrary: s) (simp_all add: ready_enable)

lemma lines_fold:
  "ready s \<Longrightarrow> \<forall>n \<in> set ns. n < 16 \<Longrightarrow> lines (fold enable ns s) = set ns \<union> lines s"
  by (induction ns arbitrary: s) (auto simp: ready_enable lines_enable)

lemma disable_enable:
  "ready s \<Longrightarrow> n < 16 \<Longrightarrow> n \<notin> lines s \<Longrightarrow> lines (disable n (enable n s)) = lines s"
  by (simp add: lines_disable ready_enable lines_enable)

lemma enable_commute:
  "ready s \<Longrightarrow> m < 16 \<Longrightarrow> n < 16 \<Longrightarrow>
   lines (enable m (enable n s)) = lines (enable n (enable m s))"
  by (auto simp: ready_enable lines_enable)

end

interpretation pic: irq_controller pic_ready unmasked
    "\<lambda>n. enable_irq (of_nat n)" "\<lambda>n. disable_irq (of_nat n)"
  by unfold_locales (simp_all add: irq_ready enable_irq_lines disable_irq_lines)

subsection \<open>Initialisation and end of interrupt\<close>

lemma i8259_init_log:
  "io_log (i8259_init s) = io_log s @
     [Out 8 MASTER_DATA 0xff, Out 8 SLAVE_DATA 0xff,
      Out 8 MASTER_COMMAND 0x11, Out 8 SLAVE_COMMAND 0x11,
      Out 8 MASTER_DATA 0x20, Out 8 SLAVE_DATA 0x28,
      Out 8 MASTER_DATA 4, Out 8 SLAVE_DATA 2,
      Out 8 MASTER_DATA 1, Out 8 SLAVE_DATA 1,
      Out 8 MASTER_DATA 0xff, Out 8 SLAVE_DATA 0xff]"
  by (simp add: i8259_init_def Let_def)

lemma i8259_init_state:
  "master_pic (io_log (i8259_init s)) = (0, 0xff)" "slave_pic (io_log (i8259_init s)) = (0, 0xff)"
  by (cases "master_pic (io_log s)"; cases "slave_pic (io_log s)"; simp add: i8259_init_log)+

lemma i8259_init_masks [simp]: "unmasked (i8259_init s) = {}"
proof -
  have "bit (0xFF :: u32) n" if "n < 8" for n
    using that bit_mask_iff [of 8 n, where ?'a = "32 word"] by (simp add: mask_eq_exp_minus_1)
  then show ?thesis by (auto simp: unmasked_def i8259_init_state)
qed

end
