(* ===== verification/Lib_Mem.thy ===== *)
theory Lib_Mem
  imports Kernel_Prelude
begin

text \<open>
  The memory block routines of \<open>lib.c\<close> (\<open>memset\<close>, \<open>memset_word\<close>,
  \<open>memset_dword\<close>, \<open>memcpy\<close>, \<open>memmove\<close>), which are inline assembly: byte
  stores up to the first aligned destination, a string instruction on 32-bit units, byte stores
  for the rest. Each is modelled register by register on a flat byte memory and compared with a
  one-line specification of its result.
\<close>

type_synonym memory = "u32 \<Rightarrow> u8"

subsection \<open>32-bit and 16-bit accesses, little-endian\<close>

definition byte_at :: "u32 \<Rightarrow> nat \<Rightarrow> u8" where
  "byte_at v k = ucast (drop_bit (8 * k) v)"

definition st32 :: "u32 \<Rightarrow> u32 \<Rightarrow> memory \<Rightarrow> memory" where
  "st32 a v m = m(a := byte_at v 0, a + 1 := byte_at v 1, a + 2 := byte_at v 2, a + 3 := byte_at v 3)"

definition st16 :: "u32 \<Rightarrow> u32 \<Rightarrow> memory \<Rightarrow> memory" where
  "st16 a v m = m(a := byte_at v 0, a + 1 := byte_at v 1)"

definition ld32 :: "memory \<Rightarrow> u32 \<Rightarrow> u32" where
  "ld32 m a = (ucast (m a) OR push_bit 8 (ucast (m (a + 1))) OR
     push_bit 16 (ucast (m (a + 2))) OR push_bit 24 (ucast (m (a + 3))))"

subsection \<open>String instructions\<close>

text \<open>\<open>rep stosl\<close>, \<open>rep stosw\<close> and \<open>rep movsl\<close> with the direction flag clear.\<close>

fun rep_stosl :: "u32 \<Rightarrow> nat \<Rightarrow> u32 \<Rightarrow> memory \<Rightarrow> u32 \<times> memory" where
  "rep_stosl eax 0 edi m = (edi, m)"
| "rep_stosl eax (Suc ecx) edi m = rep_stosl eax ecx (edi + 4) (st32 edi eax m)"

fun rep_stosw :: "u32 \<Rightarrow> nat \<Rightarrow> u32 \<Rightarrow> memory \<Rightarrow> u32 \<times> memory" where
  "rep_stosw eax 0 edi m = (edi, m)"
| "rep_stosw eax (Suc ecx) edi m = rep_stosw eax ecx (edi + 2) (st16 edi eax m)"

fun rep_movsl :: "nat \<Rightarrow> u32 \<Rightarrow> u32 \<Rightarrow> memory \<Rightarrow> u32 \<times> u32 \<times> memory" where
  "rep_movsl 0 edi esi m = (edi, esi, m)"
| "rep_movsl (Suc ecx) edi esi m = rep_movsl ecx (edi + 4) (esi + 4) (st32 edi (ld32 m esi) m)"

text \<open>\<open>rep movsb\<close>; \<open>step\<close> is 1 with the direction flag clear and \<open>-1\<close> with it set.\<close>

fun rep_movsb :: "u32 \<Rightarrow> nat \<Rightarrow> u32 \<Rightarrow> u32 \<Rightarrow> memory \<Rightarrow> memory" where
  "rep_movsb step 0 edi esi m = m"
| "rep_movsb step (Suc ecx) edi esi m = rep_movsb step ecx (edi + step) (esi + step) (m(edi := m esi))"

subsection \<open>\<open>memset\<close>\<close>

fun memset_bottom :: "u8 \<Rightarrow> nat \<Rightarrow> u32 \<Rightarrow> memory \<Rightarrow> memory" where
  "memset_bottom al 0 edi m = m"
| "memset_bottom al (Suc edx) edi m = memset_bottom al edx (edi + 1) (m(edi := al))"

definition memset_aligned :: "u32 \<Rightarrow> u32 \<Rightarrow> u32 \<Rightarrow> memory \<Rightarrow> memory" where
  "memset_aligned eax edi ecx m =
     (let edx = ecx AND 3;
          (edi, m) = rep_stosl eax (unat (drop_bit 2 ecx)) edi m
      in memset_bottom (ucast eax) (unat edx) edi m)"

function memset_top :: "u32 \<Rightarrow> u32 \<Rightarrow> u32 \<Rightarrow> memory \<Rightarrow> memory" where
  "memset_top eax edi ecx m =
     (if ecx = 0 then m
      else if edi AND 3 = 0 then memset_aligned eax edi ecx m
      else memset_top eax (edi + 1) (ecx - 1) (m(edi := ucast eax)))"
  by pat_completeness auto
termination
  by (relation "measure (\<lambda>(eax, edi, ecx, m). unat ecx)") (auto simp: unat_minus_one unat_gt_0)

declare memset_top.simps [simp del]

definition memset :: "u32 \<Rightarrow> u32 \<Rightarrow> u32 \<Rightarrow> memory \<Rightarrow> memory" where
  "memset s c n m =
     (let c = c AND 0xFF
      in memset_top (push_bit 24 c OR push_bit 16 c OR push_bit 8 c OR c) s n m)"

definition memset_word :: "u32 \<Rightarrow> u32 \<Rightarrow> u32 \<Rightarrow> memory \<Rightarrow> memory" where
  "memset_word s c n m = snd (rep_stosw c (unat n) s m)"

definition memset_dword :: "u32 \<Rightarrow> u32 \<Rightarrow> u32 \<Rightarrow> memory \<Rightarrow> memory" where
  "memset_dword s c n m = snd (rep_stosl c (unat n) s m)"

subsection \<open>\<open>memcpy\<close>\<close>

fun memcpy_bottom :: "nat \<Rightarrow> u32 \<Rightarrow> u32 \<Rightarrow> memory \<Rightarrow> memory" where
  "memcpy_bottom 0 edi esi m = m"
| "memcpy_bottom (Suc edx) edi esi m = memcpy_bottom edx (edi + 1) (esi + 1) (m(edi := m esi))"

definition memcpy_aligned :: "u32 \<Rightarrow> u32 \<Rightarrow> u32 \<Rightarrow> memory \<Rightarrow> memory" where
  "memcpy_aligned edi esi ecx m =
     (let edx = ecx AND 3;
          (edi, esi, m) = rep_movsl (unat (drop_bit 2 ecx)) edi esi m
      in memcpy_bottom (unat edx) edi esi m)"

function memcpy_top :: "u32 \<Rightarrow> u32 \<Rightarrow> u32 \<Rightarrow> memory \<Rightarrow> memory" where
  "memcpy_top edi esi ecx m =
     (if ecx = 0 then m
      else if edi AND 3 = 0 then memcpy_aligned edi esi ecx m
      else memcpy_top (edi + 1) (esi + 1) (ecx - 1) (m(edi := m esi)))"
  by pat_completeness auto
termination
  by (relation "measure (\<lambda>(edi, esi, ecx, m). unat ecx)") (auto simp: unat_minus_one unat_gt_0)

declare memcpy_top.simps [simp del]

definition memcpy :: "u32 \<Rightarrow> u32 \<Rightarrow> u32 \<Rightarrow> memory \<Rightarrow> memory" where
  "memcpy dest src n m = memcpy_top dest src n m"

subsection \<open>\<open>memmove\<close>\<close>

text \<open>
  The result is the memory and the direction flag the routine leaves behind: the backward branch
  sets it (\<open>std\<close>) and no instruction clears it again.
\<close>

definition memmove :: "u32 \<Rightarrow> u32 \<Rightarrow> u32 \<Rightarrow> memory \<Rightarrow> memory \<times> bool" where
  "memmove dest src n m =
     (if dest \<le> src then (rep_movsb 1 (unat n) dest src m, False)
      else (rep_movsb (-1) (unat n) (dest + n - 1) (src + n - 1) m, True))"

subsection \<open>Specifications\<close>

text \<open>
  The addresses \<open>d, d + 1, \<dots>, d + n - 1\<close>, taken modulo \<open>2 ^ 32\<close> as the address
  registers are, are those with \<open>unat (a - d) < n\<close>.
\<close>

definition fill :: "u8 \<Rightarrow> u32 \<Rightarrow> nat \<Rightarrow> memory \<Rightarrow> memory" where
  "fill v d n m = (\<lambda>a. if unat (a - d) < n then v else m a)"

definition copied :: "u32 \<Rightarrow> u32 \<Rightarrow> nat \<Rightarrow> memory \<Rightarrow> memory" where
  "copied d s n m = (\<lambda>a. if unat (a - d) < n then m (s + (a - d)) else m a)"

lemma unat_Suc_diff:
  assumes "a \<noteq> (d :: u32)"
  shows "unat (a - d) = Suc (unat (a - (d + 1)))"
proof -
  have "unat (a - d - 1) = unat (a - d) - 1"
    using assms by (subst unat_minus_one) auto
  moreover have "0 < unat (a - d)" using assms by (simp add: unat_gt_0)
  ultimately show ?thesis by (simp add: diff_diff_eq2 diff_diff_eq)
qed

lemma fill_0 [simp]: "fill v d 0 m = m"
  by (simp add: fill_def)

lemma fill_Suc: "n < 2 ^ 32 \<Longrightarrow> fill v (d + 1) n (m(d := v)) = fill v d (Suc n) m"
  by (rule ext) (auto simp: fill_def unat_Suc_diff)

lemma fill_add: "k + n \<le> 2 ^ 32 \<Longrightarrow> fill v (d + of_nat k) n (fill v d k m) = fill v d (k + n) m"
proof (induction k arbitrary: d m)
  case (Suc k)
  have "fill v d (Suc k) m = fill v (d + 1) k (m(d := v))"
    using Suc.prems by (simp add: fill_Suc)
  moreover have "d + of_nat (Suc k) = d + 1 + of_nat k" by simp
  ultimately have "fill v (d + of_nat (Suc k)) n (fill v d (Suc k) m) =
      fill v (d + 1) (k + n) (m(d := v))"
    using Suc by (simp only: add_Suc)
  then show ?case using Suc.prems by (simp add: fill_Suc)
qed simp

lemma memset_bottom_fill: "n \<le> 2 ^ 32 \<Longrightarrow> memset_bottom v n d m = fill v d n m"
  by (induction n arbitrary: d m) (simp_all add: fill_Suc)

lemma fill_4: "m(d := v, d + 1 := v, d + 2 := v, d + 3 := v) = fill v d 4 m"
proof -
  have "fill v d 4 m = memset_bottom v 4 d m" by (simp add: memset_bottom_fill)
  then show ?thesis by (simp add: numeral_eq_Suc fun_upd_def add.assoc)
qed

definition repeats :: "u8 \<Rightarrow> u32 \<Rightarrow> bool" where
  "repeats v w \<longleftrightarrow> byte_at w 0 = v \<and> byte_at w 1 = v \<and> byte_at w 2 = v \<and> byte_at w 3 = v"

lemma repeats_byte: "repeats v w \<Longrightarrow> ucast w = v"
  by (simp add: repeats_def byte_at_def)

lemma st32_fill: "repeats v w \<Longrightarrow> st32 d w m = fill v d 4 m"
  by (simp add: st32_def repeats_def fill_4)

lemma rep_stosl_fill:
  "repeats v w \<Longrightarrow> 4 * n \<le> 2 ^ 32 \<Longrightarrow>
   rep_stosl w n d m = (d + of_nat (4 * n), fill v d (4 * n) m)"
proof (induction n arbitrary: d m)
  case (Suc n)
  then show ?case
    using fill_add [of 4 "4 * n" v d m] by (simp add: st32_fill add.assoc)
qed simp

lemma unat_and_3: "unat (n AND 3 :: u32) = unat n mod 4"
proof -
  have "n AND 3 = take_bit 2 n" by (simp add: take_bit_eq_mask mask_eq_exp_minus_1)
  then show ?thesis by (simp add: take_bit_eq_mod unat_mod)
qed

lemma unat_drop_2: "unat (drop_bit 2 n :: u32) = unat n div 4"
  by (simp add: drop_bit_eq_div unat_div)

lemma memset_aligned_fill:
  assumes "repeats v w"
  shows "memset_aligned w d n m = fill v d (unat n) m"
proof -
  note lo = unat_and_3 [of n] and hi = unat_drop_2 [of n]
  have "unat n < 2 ^ 32" by (rule unat_u32_less)
  then have "4 * (unat n div 4) \<le> 2 ^ 32" by simp
  then show ?thesis
    using fill_add [of "4 * (unat n div 4)" "unat n mod 4" v d m] \<open>unat n < 2 ^ 32\<close>
    by (simp add: memset_aligned_def lo hi rep_stosl_fill [OF assms] memset_bottom_fill
        repeats_byte [OF assms])
qed

lemma memset_top_fill:
  "repeats v w \<Longrightarrow> memset_top w d n m = fill v d (unat n) m"
proof (induction w d n m rule: memset_top.induct)
  case (1 w d n m)
  show ?case
  proof (cases "n = 0 \<or> d AND 3 = 0")
    case True
    then show ?thesis
      by (subst memset_top.simps) (auto simp: memset_aligned_fill "1.prems")
  next
    case False
    then have n: "unat n = Suc (unat (n - 1))"
      by (intro unat_Suc_pred) simp
    have "unat (n - 1) < 2 ^ 32" by (rule unat_u32_less)
    moreover have "memset_top w d n m = memset_top w (d + 1) (n - 1) (m(d := v))"
      using False repeats_byte [OF "1.prems"] by (subst memset_top.simps) simp
    moreover have "\<dots> = fill v (d + 1) (unat (n - 1)) (m(d := v))"
      using False "1.IH" [OF _ _ "1.prems"] by (simp add: repeats_byte [OF "1.prems"] fun_upd_def)
    ultimately show ?thesis by (simp only: n fill_Suc)
  qed
qed

lemma and_FF: "c AND 0xFF = take_bit 8 (c :: u32)"
  by (simp add: take_bit_eq_mask mask_eq_exp_minus_1)

lemma repeats_replicated:
  "repeats (ucast c) (let c = c AND 0xFF in push_bit 24 c OR push_bit 16 c OR push_bit 8 c OR (c :: u32))"
  unfolding repeats_def byte_at_def Let_def and_FF
  by (intro conjI; rule bit_word_eqI; auto simp: bit_simps)

lemma memset_fill: "memset s c n m = fill (ucast c) s (unat n) m"
  unfolding memset_def using repeats_replicated [of c] by (simp add: Let_def memset_top_fill)

subsection \<open>\<open>memcpy\<close> and \<open>memmove\<close> copy the block\<close>

text \<open>
  \<open>memcpy\<close> reads the source while it writes the destination; the result is the block copy
  whenever the destination does not start inside the source, that is
  \<open>n \<le> unat (d - s)\<close>. The loop invariant is \<open>copied d s k m\<close> after \<open>k\<close> bytes.
\<close>

lemma copied_0 [simp]: "copied d s 0 m = m"
  by (simp add: copied_def)

lemma copied_source:
  assumes "n \<le> unat (d - s)" and "k \<le> j" and "j < n"
  shows "copied d s k m (s + of_nat j) = m (s + of_nat j)"
proof -
  have "\<not> unat (s + of_nat j - d) < k"
  proof
    assume lt: "unat (s + of_nat j - d) < k"
    define i where "i = unat (s + of_nat j - d)"
    have "of_nat i = s + of_nat j - d" by (simp add: i_def)
    then have "d - s = of_nat (j - i)"
      using lt assms(2) by (simp add: i_def [symmetric] of_nat_diff algebra_simps)
    moreover have "unat (of_nat (j - i) :: u32) \<le> j - i"
      by (simp add: unat_of_nat)
    ultimately show False using assms(1,3) by simp
  qed
  then show ?thesis by (simp add: copied_def)
qed

lemma copied_snoc:
  assumes "Suc k \<le> 2 ^ 32"
  shows "(copied d s k m)(d + of_nat k := m (s + of_nat k)) = copied d s (Suc k) m"
proof (rule ext)
  fix a
  show "((copied d s k m)(d + of_nat k := m (s + of_nat k))) a = copied d s (Suc k) m a"
  proof (cases "a = d + of_nat k")
    case True
    then show ?thesis using assms by (simp add: copied_def unat_of_nat_u32)
  next
    case False
    have "unat (a - d) \<noteq> k"
    proof
      assume "unat (a - d) = k"
      then have "of_nat k = a - d" by auto
      with False show False by simp
    qed
    then show ?thesis using False by (auto simp: copied_def)
  qed
qed

lemma copied_byte:
  assumes "n \<le> unat (d - s)" and "k < n"
  shows "(copied d s k m)(d + of_nat k := copied d s k m (s + of_nat k)) = copied d s (Suc k) m"
proof -
  have "Suc k \<le> 2 ^ 32"
    using assms unat_u32_less [of "d - s"] by linarith
  then show ?thesis
    using copied_source [OF assms(1) order_refl assms(2)] by (simp add: copied_snoc)
qed

lemma ld32_bytes:
  "byte_at (ld32 m a) 0 = m a" "byte_at (ld32 m a) 1 = m (a + 1)"
  "byte_at (ld32 m a) 2 = m (a + 2)" "byte_at (ld32 m a) 3 = m (a + 3)"
  unfolding byte_at_def ld32_def by (rule bit_word_eqI; auto simp: bit_simps dest: bit_imp_le_length)+

lemma copied_dword:
  assumes "n \<le> unat (d - s)" and "k + 4 \<le> n"
  shows "st32 (d + of_nat k) (ld32 (copied d s k m) (s + of_nat k)) (copied d s k m) =
    copied d s (k + 4) m"
proof -
  have "n \<le> 2 ^ 32" using assms unat_u32_less [of "d - s"] by linarith
  then have step: "(copied d s (k + i) m)(d + of_nat (k + i) := m (s + of_nat (k + i))) =
      copied d s (k + Suc i) m" if "i < 4" for i
    using that assms(2) copied_snoc [of "k + i" d s m] by simp
  have src: "copied d s k m (s + of_nat (k + i)) = m (s + of_nat (k + i))" if "i < 4" for i
    by (rule copied_source [OF assms(1)]) (use that assms(2) in linarith)+
  let ?C = "copied d s k m"
  have "st32 (d + of_nat k) (ld32 ?C (s + of_nat k)) ?C =
      ?C(d + of_nat (k + 0) := ?C (s + of_nat (k + 0)),
         d + of_nat (k + Suc 0) := ?C (s + of_nat (k + Suc 0)),
         d + of_nat (k + Suc (Suc 0)) := ?C (s + of_nat (k + Suc (Suc 0))),
         d + of_nat (k + Suc (Suc (Suc 0))) := ?C (s + of_nat (k + Suc (Suc (Suc 0)))))"
    by (simp only: st32_def ld32_bytes) (simp add: add.assoc add.commute add.left_commute)
  also have "\<dots> = ((((copied d s (k + 0) m)
         (d + of_nat (k + 0) := m (s + of_nat (k + 0))))
         (d + of_nat (k + Suc 0) := m (s + of_nat (k + Suc 0))))
         (d + of_nat (k + Suc (Suc 0)) := m (s + of_nat (k + Suc (Suc 0)))))
         (d + of_nat (k + Suc (Suc (Suc 0))) := m (s + of_nat (k + Suc (Suc (Suc 0)))))"
    using src [of 0] src [of "Suc 0"] src [of "Suc (Suc 0)"] src [of "Suc (Suc (Suc 0))"] by simp
  also have "\<dots> = copied d s (k + Suc (Suc (Suc (Suc 0)))) m"
    using step [of 0] step [of "Suc 0"] step [of "Suc (Suc 0)"] step [of "Suc (Suc (Suc 0))"]
    by (simp del: of_nat_add add_Suc_right)
  also have "k + Suc (Suc (Suc (Suc 0))) = k + 4" by simp
  finally show ?thesis .
qed

lemma rep_movsl_copied:
  assumes "n \<le> unat (d - s)" and "k + 4 * r \<le> n"
  shows "rep_movsl r (d + of_nat k) (s + of_nat k) (copied d s k m) =
    (d + of_nat (k + 4 * r), s + of_nat (k + 4 * r), copied d s (k + 4 * r) m)"
  using assms(2)
proof (induction r arbitrary: k)
  case (Suc r)
  have "d + of_nat k + 4 = d + of_nat (k + 4)" "s + of_nat k + 4 = s + of_nat (k + 4)"
    by simp_all
  moreover have "k + 4 + 4 * r \<le> n" using Suc.prems by simp
  ultimately have "rep_movsl (Suc r) (d + of_nat k) (s + of_nat k) (copied d s k m) =
      (d + of_nat (k + 4 + 4 * r), s + of_nat (k + 4 + 4 * r), copied d s (k + 4 + 4 * r) m)"
    using Suc.IH [of "k + 4"] Suc.prems by (simp only: rep_movsl.simps copied_dword [OF assms(1)])
  moreover have "k + 4 + 4 * r = k + 4 * Suc r" by simp
  ultimately show ?case by simp
qed simp

lemma memcpy_bottom_copied:
  assumes "n \<le> unat (d - s)" and "k + r \<le> n"
  shows "memcpy_bottom r (d + of_nat k) (s + of_nat k) (copied d s k m) = copied d s (k + r) m"
  using assms(2)
proof (induction r arbitrary: k)
  case (Suc r)
  have "d + of_nat k + 1 = d + of_nat (Suc k)" "s + of_nat k + 1 = s + of_nat (Suc k)"
    by simp_all
  then have "memcpy_bottom (Suc r) (d + of_nat k) (s + of_nat k) (copied d s k m) =
      memcpy_bottom r (d + of_nat (Suc k)) (s + of_nat (Suc k)) (copied d s (Suc k) m)"
    using Suc.prems copied_byte [OF assms(1), of k m] by (simp only: memcpy_bottom.simps)
  also have "\<dots> = copied d s (Suc k + r) m"
    using Suc.prems by (intro Suc.IH) simp
  finally show ?case by simp
qed simp

lemma memcpy_aligned_copied:
  assumes "n \<le> unat (d - s)" and "k + unat r \<le> n"
  shows "memcpy_aligned (d + of_nat k) (s + of_nat k) r (copied d s k m) = copied d s (k + unat r) m"
proof -
  let ?q = "4 * (unat r div 4)"
  have "k + ?q \<le> n" "k + ?q + unat r mod 4 \<le> n" using assms(2) by simp_all
  then show ?thesis
    using rep_movsl_copied [OF assms(1), of k "unat r div 4" m]
      memcpy_bottom_copied [OF assms(1), of "k + ?q" "unat r mod 4" m]
    by (simp add: memcpy_aligned_def unat_and_3 unat_drop_2 Let_def add.commute del: of_nat_add)
qed

lemma memcpy_top_copied:
  assumes "n \<le> unat (d - s)" and "k + unat r \<le> n"
  shows "memcpy_top (d + of_nat k) (s + of_nat k) r (copied d s k m) = copied d s (k + unat r) m"
  using assms(2)
proof (induction "unat r" arbitrary: r k)
  case 0
  then show ?case by (subst memcpy_top.simps) (simp add: unat_eq_0)
next
  case (Suc x)
  show ?case
  proof (cases "(d + of_nat k) AND 3 = 0")
    case True
    then show ?thesis
      using memcpy_aligned_copied [OF assms(1) Suc.prems] Suc.hyps(2)
      by (subst memcpy_top.simps) auto
  next
    case False
    have r: "r \<noteq> 0" using Suc.hyps(2) by auto
    then have x: "unat (r - 1) = x" using Suc.hyps(2) unat_Suc_pred [of r] by simp
    have next_addr: "d + of_nat k + 1 = d + of_nat (Suc k)" "s + of_nat k + 1 = s + of_nat (Suc k)"
      by simp_all
    have "k < n" using Suc.prems Suc.hyps(2) by linarith
    note byte = copied_byte [OF assms(1) this, of m]
    have "memcpy_top (d + of_nat k) (s + of_nat k) r (copied d s k m) =
        memcpy_top (d + of_nat (Suc k)) (s + of_nat (Suc k)) (r - 1) (copied d s (Suc k) m)"
      by (subst memcpy_top.simps)
        (simp only: if_not_P [OF r] if_not_P [OF False] next_addr byte)
    also have "\<dots> = copied d s (Suc k + unat (r - 1)) m"
      using x Suc.prems Suc.hyps(2) by (intro Suc.hyps(1)) simp_all
    also have "Suc k + unat (r - 1) = k + unat r" using x Suc.hyps(2) by simp
    finally show ?thesis .
  qed
qed

lemma memcpy_copied:
  "unat n \<le> unat (dest - src) \<Longrightarrow> memcpy dest src n m = copied dest src (unat n) m"
  using memcpy_top_copied [of "unat n" dest src 0 n m] by (simp add: memcpy_def)

text \<open>
  \<open>memmove\<close> chooses its direction by comparing the addresses, so overlap in either
  direction is harmless as long as neither block runs past the end of the address space.
\<close>

lemma rep_movsb_forward:
  assumes "n \<le> unat (d - s)" and "k + r \<le> n"
  shows "rep_movsb 1 r (d + of_nat k) (s + of_nat k) (copied d s k m) = copied d s (k + r) m"
  using assms(2)
proof (induction r arbitrary: k)
  case (Suc r)
  have "d + of_nat k + 1 = d + of_nat (Suc k)" "s + of_nat k + 1 = s + of_nat (Suc k)"
    by simp_all
  then have "rep_movsb 1 (Suc r) (d + of_nat k) (s + of_nat k) (copied d s k m) =
      rep_movsb 1 r (d + of_nat (Suc k)) (s + of_nat (Suc k)) (copied d s (Suc k) m)"
    using Suc.prems copied_byte [OF assms(1), of k m] by (simp only: rep_movsb.simps)
  also have "\<dots> = copied d s (Suc k + r) m"
    using Suc.prems by (intro Suc.IH) simp
  finally show ?case by simp
qed simp

lemma rep_movsb_same: "rep_movsb 1 n d d m = m"
  by (induction n arbitrary: d) simp_all

text \<open>The backward copy has the tail of the block in place after each byte.\<close>

definition copied_tail :: "u32 \<Rightarrow> u32 \<Rightarrow> nat \<Rightarrow> nat \<Rightarrow> memory \<Rightarrow> memory" where
  "copied_tail d s k n m =
     (\<lambda>a. if k \<le> unat (a - d) \<and> unat (a - d) < n then m (s + (a - d)) else m a)"

lemma copied_tail_step:
  assumes "n \<le> 2 ^ 32 - unat (d - s)" and "s \<le> d" and "Suc k \<le> n" and "n \<le> 2 ^ 32" and "d \<noteq> s"
  shows "(copied_tail d s (Suc k) n m)
      (d + of_nat k := copied_tail d s (Suc k) n m (s + of_nat k)) = copied_tail d s k n m"
proof -
  have k: "k < 2 ^ 32" using assms(3,4) by simp
  have src: "copied_tail d s (Suc k) n m (s + of_nat k) = m (s + of_nat k)"
  proof -
    have "\<not> (Suc k \<le> unat (s + of_nat k - d) \<and> unat (s + of_nat k - d) < n)"
    proof
      assume a: "Suc k \<le> unat (s + of_nat k - d) \<and> unat (s + of_nat k - d) < n"
      define i where "i = unat (s + of_nat k - d)"
      have "of_nat i = s + of_nat k - d" by (simp add: i_def)
      moreover have i: "Suc k \<le> i" "i < n" using a by (simp_all add: i_def)
      ultimately have "d - s + of_nat (i - k) = 0"
        by (simp add: of_nat_diff algebra_simps)
      then have "(of_nat (unat (d - s) + (i - k)) :: u32) = 0" by simp
      moreover have "unat (d - s) + (i - k) < 2 ^ 32"
        using i assms(1) unat_u32_less [of "d - s"] by arith
      ultimately have "unat (d - s) + (i - k) = 0"
        using of_nat_u32_inject [of "unat (d - s) + (i - k)" 0] by (simp del: of_nat_add)
      then show False using i by simp
    qed
    then show ?thesis by (auto simp: copied_tail_def)
  qed
  show ?thesis
  proof (rule ext)
    fix a
    show "((copied_tail d s (Suc k) n m)
        (d + of_nat k := copied_tail d s (Suc k) n m (s + of_nat k))) a = copied_tail d s k n m a"
    proof (cases "a = d + of_nat k")
      case True
      then show ?thesis
        using assms(3) k by (simp add: src) (simp add: copied_tail_def unat_of_nat_u32)
    next
      case False
      have "unat (a - d) \<noteq> k"
      proof
        assume "unat (a - d) = k"
        then have "of_nat k = a - d" by auto
        with False show False by simp
      qed
      then show ?thesis using False by (auto simp: copied_tail_def)
    qed
  qed
qed

lemma rep_movsb_backward:
  assumes "n \<le> 2 ^ 32 - unat (d - s)" and "s \<le> d" and "n \<le> 2 ^ 32" and "d \<noteq> s" and "k \<le> n"
  shows "rep_movsb (-1) k (d + of_nat k - 1) (s + of_nat k - 1) (copied_tail d s k n m) =
    copied d s n m"
  using assms(5)
proof (induction k)
  case 0
  then show ?case by (simp add: copied_tail_def copied_def)
next
  case (Suc k)
  have "d + of_nat (Suc k) - 1 = d + of_nat k" "s + of_nat (Suc k) - 1 = s + of_nat k"
    by simp_all
  moreover have "d + of_nat k + (-1) = d + of_nat k - 1" "s + of_nat k + (-1) = s + of_nat k - 1"
    by simp_all
  ultimately show ?case
    using Suc copied_tail_step [OF assms(1,2) _ assms(3,4), of k m]
    by (simp only: rep_movsb.simps)
qed

lemma memmove_copied:
  assumes "unat src + unat n \<le> 2 ^ 32" and "unat dest + unat n \<le> 2 ^ 32"
  shows "memmove dest src n m = (copied dest src (unat n) m, src < dest)"
proof (cases "dest \<le> src")
  case True
  show ?thesis
  proof (cases "dest = src")
    case True
    then show ?thesis
      by (auto simp: memmove_def rep_movsb_same copied_def)
  next
    case False
    with True have "\<not> unat src \<le> unat dest"
      by (auto simp: word_le_nat_alt word_unat_eq_iff)
    then have "unat (dest - src) = unat dest + 2 ^ 32 - unat src"
      by (simp add: unat_sub_if')
    then have "unat n \<le> unat (dest - src)"
      using assms True by (simp add: word_le_nat_alt)
    then show ?thesis
      using True rep_movsb_forward [of "unat n" dest src 0 "unat n" m]
      by (simp add: memmove_def not_less)
  qed
next
  case False
  then have "unat (dest - src) = unat dest - unat src"
    by (simp add: unat_sub word_le_nat_alt)
  then have "unat n \<le> 2 ^ 32 - unat (dest - src)" "src \<le> dest" "dest \<noteq> src"
    using assms False by (auto simp: word_le_nat_alt)
  moreover have "copied_tail dest src (unat n) (unat n) m = m"
    by (rule ext) (auto simp: copied_tail_def)
  ultimately show ?thesis
    using False rep_movsb_backward [of "unat n" dest src "unat n" m] unat_u32_less [of n]
    by (simp add: memmove_def not_le)
qed

subsection \<open>The byte loops they stand for\<close>

definition byte_set :: "u8 \<Rightarrow> u32 \<Rightarrow> nat \<Rightarrow> memory \<Rightarrow> memory" where
  "byte_set v d n m = for_loop 0 n (\<lambda>i m. m(d + of_nat i := v)) m"

definition byte_copy :: "u32 \<Rightarrow> u32 \<Rightarrow> nat \<Rightarrow> memory \<Rightarrow> memory" where
  "byte_copy d s n m = for_loop 0 n (\<lambda>i m. m(d + of_nat i := m (s + of_nat i))) m"

text \<open>A copy through a temporary buffer.\<close>

definition buffered_copy :: "u32 \<Rightarrow> u32 \<Rightarrow> nat \<Rightarrow> memory \<Rightarrow> memory" where
  "buffered_copy d s n m =
     (let buf = map (\<lambda>i. m (s + of_nat i)) [0..<n] in for_loop 0 n (\<lambda>i m. m(d + of_nat i := buf ! i)) m)"

lemma fill_snoc: "Suc n \<le> 2 ^ 32 \<Longrightarrow> (fill v d n m)(d + of_nat n := v) = fill v d (Suc n) m"
  using fill_add [of n 1 v d m] fill_Suc [of 0 v "d + of_nat n" "fill v d n m"] by simp

lemma byte_set_fill: "n \<le> 2 ^ 32 \<Longrightarrow> byte_set v d n m = fill v d n m"
  by (induction n) (simp_all add: byte_set_def for_loop_Suc fill_snoc)

lemma byte_copy_copied:
  assumes "n \<le> unat (d - s)" and "k \<le> n"
  shows "byte_copy d s k m = copied d s k m"
  using assms(2)
  by (induction k) (simp_all add: byte_copy_def for_loop_Suc copied_byte [OF assms(1)])

lemma buffered_copied:
  assumes "n \<le> 2 ^ 32"
  shows "buffered_copy d s n m = copied d s n m"
proof -
  have "for_loop 0 k (\<lambda>i m'. m'(d + of_nat i := map (\<lambda>i. m (s + of_nat i)) [0..<n] ! i)) m = copied d s k m"
    if "k \<le> n" for k
    using that by (induction k) (use assms in \<open>simp_all add: for_loop_Suc copied_snoc\<close>)
  then show ?thesis by (simp add: buffered_copy_def)
qed

end
