(* ===== verification/Console.thy ===== *)
theory Console
  imports I8259 Lib_Mem
begin

text \<open>
  The text screen (\<open>lib.c\<close>: \<open>clear\<close>, \<open>clearline\<close>, \<open>getxcoord\<close>,
  \<open>getycoord\<close>, \<open>setcoords\<close>, \<open>scroll\<close>, \<open>printk\<close>, \<open>term_putc\<close>,
  \<open>puts\<close>, \<open>putc\<close>, \<open>test_interrupts\<close>). Video memory is ordinary memory from
  \<open>0xB8000\<close>, which the kernel's page tables map to itself: two bytes per cell, the character
  and its attribute. Each of the three terminals has its own cursor; all write the same screen.
\<close>

abbreviation VIDEO :: u32 where "VIDEO \<equiv> 0xB8000"
abbreviation VIDEO_ROW1 :: u32 where "VIDEO_ROW1 \<equiv> 0xB80A0"
abbreviation NUM_COLS :: int where "NUM_COLS \<equiv> 80"
abbreviation NUM_ROWS :: int where "NUM_ROWS \<equiv> 25"
abbreviation ATTRIB :: u8 where "ATTRIB \<equiv> 7"
abbreviation CH_SPACE :: u8 where "CH_SPACE \<equiv> 0x20"
abbreviation CH_NEWLINE :: u8 where "CH_NEWLINE \<equiv> 0x0A"
abbreviation CH_RETURN :: u8 where "CH_RETURN \<equiv> 0x0D"

subsection \<open>State\<close>

text \<open>
  \<open>screen_x\<close> and \<open>screen_y\<close> are the \<open>int\<close> arrays indexed by terminal;
  \<open>current_terminal\<close> is the global of \<open>keyboard.c\<close>.
\<close>

record console = pic +
  screen_x :: "nat \<Rightarrow> int"
  screen_y :: "nat \<Rightarrow> int"
  current_terminal :: nat

definition poke :: "u32 \<Rightarrow> u8 \<Rightarrow> 'a machine_scheme \<Rightarrow> 'a machine_scheme" where
  "poke a v s = s\<lparr>mem := (mem s)(a := v)\<rparr>"

text \<open>\<open>video_mem + (i << 1)\<close>\<close>

definition cell :: "int \<Rightarrow> u32" where
  "cell i = VIDEO + word_of_int (2 * i)"

subsection \<open>Operations\<close>

definition clear :: "'a console_scheme \<Rightarrow> 'a console_scheme" where
  "clear s = for_loop 0 (25 * 80) (\<lambda>i s.
     let s = poke (cell (int i)) CH_SPACE s
     in poke (cell (int i) + 1) ATTRIB s) s"

text \<open>The character of cell \<open>(x + i, y)\<close> is blanked, the attribute of cell \<open>(i, 0)\<close> is set.\<close>

definition clearline :: "int \<Rightarrow> int \<Rightarrow> 'a console_scheme \<Rightarrow> 'a console_scheme" where
  "clearline x y s = for_loop 0 80 (\<lambda>i s.
     let s = poke (cell (NUM_COLS * y + x + int i)) CH_SPACE s
     in poke (cell (int i) + 1) ATTRIB s) s"

definition getxcoord :: "nat \<Rightarrow> 'a console_scheme \<Rightarrow> int" where
  "getxcoord terminal s = screen_x s terminal"

definition getycoord :: "nat \<Rightarrow> 'a console_scheme \<Rightarrow> int" where
  "getycoord terminal s = screen_y s terminal"

definition set_x :: "nat \<Rightarrow> int \<Rightarrow> 'a console_scheme \<Rightarrow> 'a console_scheme" where
  "set_x t x s = s\<lparr>screen_x := (screen_x s)(t := x)\<rparr>"

definition set_y :: "nat \<Rightarrow> int \<Rightarrow> 'a console_scheme \<Rightarrow> 'a console_scheme" where
  "set_y t y s = s\<lparr>screen_y := (screen_y s)(t := y)\<rparr>"

text \<open>\<open>copy_video_mem\<close> holds the same address as \<open>video_mem\<close>.\<close>

definition scroll :: "nat \<Rightarrow> 'a console_scheme \<Rightarrow> 'a console_scheme" where
  "scroll terminal s =
     (let s = for_loop 0 (80 * 25) (\<lambda>i s.
            let s = poke (cell (int i)) (mem s (cell (int i))) s
            in poke (cell (int i) + 1) (mem s (cell (int i) + 1)) s) s;
          s = for_loop 0 (80 * 25) (\<lambda>i s.
            let s = poke (cell (int i)) (mem s (cell (int i + NUM_COLS))) s
            in poke (cell (int i) + 1) (mem s (cell (int i + NUM_COLS) + 1)) s) s;
          s = set_x terminal 0 s
      in set_y terminal (NUM_ROWS - 1) s)"

definition setcoords :: "int \<Rightarrow> int \<Rightarrow> nat \<Rightarrow> 'a console_scheme \<Rightarrow> 'a console_scheme" where
  "setcoords x y terminal s =
     (let s = set_x terminal x s
      in if NUM_ROWS \<le> y then scroll terminal s else set_y terminal y s)"

text \<open>C's \<open>/\<close> and \<open>%\<close> truncate towards zero: \<open>sdiv\<close> and \<open>smod\<close>.\<close>

definition term_putc :: "u8 \<Rightarrow> 'a console_scheme \<Rightarrow> 'a console_scheme" where
  "term_putc c s =
     (let t = current_terminal s in
      if c = CH_NEWLINE \<or> c = CH_RETURN then setcoords 0 (getycoord t s + 1) t s
      else
        let s = poke (cell (NUM_COLS * screen_y s t + screen_x s t)) c s;
            s = poke (cell (NUM_COLS * screen_y s t + screen_x s t) + 1) ATTRIB s;
            s = set_x t (screen_x s t + 1) s;
            s = (if screen_x s t = NUM_COLS then setcoords 0 (getycoord t s + 1) t s else s);
            s = set_x t (screen_x s t smod NUM_COLS) s
        in set_y t ((screen_y s t + screen_x s t sdiv NUM_COLS) smod NUM_ROWS) s)"

definition putc :: "u8 \<Rightarrow> 'a console_scheme \<Rightarrow> 'a console_scheme" where
  "putc c s =
     (let t = current_terminal s in
      if c = CH_NEWLINE \<or> c = CH_RETURN then
        let s = set_y t (screen_y s t + 1) s in set_x t 0 s
      else
        let s = poke (cell (NUM_COLS * screen_y s t + screen_x s t)) c s;
            s = poke (cell (NUM_COLS * screen_y s t + screen_x s t) + 1) ATTRIB s;
            s = set_x t (screen_x s t + 1) s;
            s = set_x t (screen_x s t smod NUM_COLS) s
        in set_y t ((screen_y s t + screen_x s t sdiv NUM_COLS) smod NUM_ROWS) s)"

text \<open>
  The strings passed to \<open>printk\<close> are literals and those passed to \<open>puts\<close> local buffers;
  a string is the list of its bytes before the terminator. Both return the number of bytes.
\<close>

definition printk :: "u8 list \<Rightarrow> 'a console_scheme \<Rightarrow> nat \<times> 'a console_scheme" where
  "printk str s = (length str, fold term_putc str s)"

definition puts :: "u8 list \<Rightarrow> 'a console_scheme \<Rightarrow> nat \<times> 'a console_scheme" where
  "puts str s = (length str, fold putc str s)"

definition test_interrupts :: "'a console_scheme \<Rightarrow> 'a console_scheme" where
  "test_interrupts s = for_loop 0 (25 * 80) (\<lambda>i s. poke (cell (int i)) (mem s (cell (int i)) + 1) s) s"

text \<open>Text of a literal.\<close>

definition bytes_of :: "string \<Rightarrow> u8 list" where
  "bytes_of str = map of_char str"

subsection \<open>Memory effect of the loops\<close>

lemma poke_simps [simp]:
  "mem (poke a v s) = (mem s)(a := v)"
  "screen_x (poke a v s) = screen_x s" "screen_y (poke a v s) = screen_y s"
  "current_terminal (poke a v s) = current_terminal s"
  by (simp_all add: poke_def)

lemma set_coord_simps [simp]:
  "mem (set_x t x s) = mem s" "mem (set_y t y s) = mem s"
  "screen_x (set_x t x s) = (screen_x s)(t := x)" "screen_y (set_x t x s) = screen_y s"
  "screen_y (set_y t y s) = (screen_y s)(t := y)" "screen_x (set_y t y s) = screen_x s"
  "current_terminal (set_x t x s) = current_terminal s"
  "current_terminal (set_y t y s) = current_terminal s"
  by (simp_all add: set_x_def set_y_def)

lemma poke_same: "poke a (mem s a) s = s"
  by (simp add: poke_def)

lemma cell_nat: "cell (int i) = VIDEO + of_nat (2 * i)"
  by (simp add: cell_def)

lemma cell_nat_row: "cell (int i + NUM_COLS) = VIDEO_ROW1 + of_nat (2 * i)"
  by (simp add: cell_def)

text \<open>A loop that only pokes is a loop on memory.\<close>

definition with_mem :: "'a machine_scheme \<Rightarrow> memory \<Rightarrow> 'a machine_scheme" where
  "with_mem s m = s\<lparr>mem := m\<rparr>"

lemma with_mem_simps [simp]:
  "mem (with_mem s m) = m" "poke a v (with_mem s m) = with_mem s (m(a := v))"
  "with_mem s (mem s) = s" "with_mem (with_mem s m) m' = with_mem s m'"
  by (simp_all add: with_mem_def poke_def)

lemma with_mem_console [simp]:
  "screen_x (with_mem s m) = screen_x s" "screen_y (with_mem s m) = screen_y s"
  "current_terminal (with_mem s m) = current_terminal s"
  by (simp_all add: with_mem_def)

lemma for_loop_with_mem:
  assumes "\<And>i m. f i (with_mem s m) = with_mem s (g i m)"
  shows "for_loop a b f (with_mem s m) = with_mem s (for_loop a b g m)"
proof (cases "a \<le> b")
  case True
  then show ?thesis
    by (induction b rule: dec_induct) (simp_all add: for_loop_Suc assms)
qed simp

lemma for_loop_mem:
  assumes "\<And>i m. f i (with_mem s m) = with_mem s (g i m)"
  shows "for_loop a b f s = with_mem s (for_loop a b g (mem s))"
  using for_loop_with_mem [of f s g a b "mem s", OF assms] by simp

definition blanked :: "nat \<Rightarrow> memory \<Rightarrow> memory" where
  "blanked n m = (\<lambda>a. if unat (a - VIDEO) < n
     then (if even (unat (a - VIDEO)) then CH_SPACE else ATTRIB) else m a)"

lemma video_offset:
  "k < 2 ^ 32 \<Longrightarrow> unat (a - VIDEO) = k \<longleftrightarrow> a = VIDEO + of_nat k"
  by (metis add_diff_cancel_left' diff_add_cancel add.commute of_nat_unat ucast_id unat_of_nat_u32)

lemma blanked_step:
  assumes "2 * i + 2 \<le> 2 ^ 32"
  shows "(blanked (2 * i) m)(VIDEO + of_nat (2 * i) := CH_SPACE, VIDEO + of_nat (2 * i) + 1 := ATTRIB) =
    blanked (2 * Suc i) m"
proof (rule ext)
  fix a
  have even: "unat (a - VIDEO) = 2 * i \<longleftrightarrow> a = VIDEO + of_nat (2 * i)"
    and odd: "unat (a - VIDEO) = 2 * i + 1 \<longleftrightarrow> a = VIDEO + of_nat (2 * i) + 1"
    using video_offset [of "2 * i" a] video_offset [of "2 * i + 1" a] assms
    by (simp_all add: add.assoc add.commute)
  show "((blanked (2 * i) m)(VIDEO + of_nat (2 * i) := CH_SPACE,
      VIDEO + of_nat (2 * i) + 1 := ATTRIB)) a = blanked (2 * Suc i) m a"
    unfolding fun_upd_apply even [symmetric] odd [symmetric]
    by (auto simp: blanked_def less_Suc_eq)
qed

lemma clear_mem: "clear s = with_mem s (blanked 4000 (mem s))"
proof -
  define g :: "nat \<Rightarrow> memory \<Rightarrow> memory" where
    "g i m = m(VIDEO + of_nat (2 * i) := CH_SPACE, VIDEO + of_nat (2 * i) + 1 := ATTRIB)" for i m
  have step: "g n (blanked (2 * n) m) = blanked (2 * Suc n) m" if "n < 2000" for n m
    unfolding g_def by (rule blanked_step) (use that in simp)
  have "for_loop 0 n g m = blanked (2 * n) m" if "n \<le> 2000" for n m
    using that
  proof (induction n)
    case 0
    then show ?case by (simp add: blanked_def)
  next
    case (Suc n)
    then show ?case by (simp only: for_loop_Suc step)
  qed
  then have "for_loop 0 (25 * 80) g (mem s) = blanked 4000 (mem s)" by simp
  then show ?thesis
    unfolding clear_def by (subst for_loop_mem [where g = g]) (simp_all add: cell_nat Let_def g_def)
qed

lemma video_above: "(4000 :: nat) \<le> unat (VIDEO - VIDEO_ROW1)"
  by simp

lemma scroll_mem:
  "scroll t s = set_y t 24 (set_x t 0 (with_mem s (copied VIDEO VIDEO_ROW1 4000 (mem s))))"
proof -
  let ?f = "\<lambda>i s. let s = poke (cell (int i)) (mem s (cell (int i))) s
            in poke (cell (int i) + 1) (mem s (cell (int i) + 1)) s"
  define g :: "nat \<Rightarrow> memory \<Rightarrow> memory" where
    "g i m = (let m = m(VIDEO + of_nat (2 * i) := m (VIDEO_ROW1 + of_nat (2 * i)))
      in m(VIDEO + of_nat (2 * i) + 1 := m (VIDEO_ROW1 + of_nat (2 * i) + 1)))" for i m
  have self: "for_loop 0 (80 * 25) ?f s = s"
    by (rule for_loop_preserves [where P = "\<lambda>t. t = s"]) (simp_all add: Let_def poke_same)
  have step: "g n (copied VIDEO VIDEO_ROW1 (2 * n) m) = copied VIDEO VIDEO_ROW1 (2 * Suc n) m"
    if "n < 2000" for n m
  proof -
    have odd: "VIDEO + of_nat (2 * n) + 1 = VIDEO + of_nat (Suc (2 * n))"
      "VIDEO_ROW1 + of_nat (2 * n) + 1 = VIDEO_ROW1 + of_nat (Suc (2 * n))" by simp_all
    have "2 * n < 4000" "Suc (2 * n) < 4000" using that by simp_all
    then have "g n (copied VIDEO VIDEO_ROW1 (2 * n) m) =
        copied VIDEO VIDEO_ROW1 (Suc (Suc (2 * n))) m"
      by (simp only: g_def Let_def odd copied_byte [OF video_above])
    then show ?thesis by simp
  qed
  have "for_loop 0 n g m = copied VIDEO VIDEO_ROW1 (2 * n) m" if "n \<le> 2000" for n m
    using that
  proof (induction n)
    case 0
    then show ?case by (simp only: mult_0_right copied_0 for_loop_0 order_refl)
  next
    case (Suc n)
    then show ?case by (simp only: for_loop_Suc step)
  qed
  from this [of 2000] have "for_loop 0 (80 * 25) g (mem s) = copied VIDEO VIDEO_ROW1 4000 (mem s)"
    by simp
  then show ?thesis
    unfolding scroll_def self
    by (subst for_loop_mem [where g = g]) (simp_all add: cell_nat cell_nat_row Let_def g_def)
qed

subsection \<open>What printing leaves alone\<close>

text \<open>The state without video memory and the cursors: printing changes nothing else.\<close>

definition quiet :: "'a console_scheme \<Rightarrow> 'a console_scheme" where
  "quiet s = s\<lparr>mem := (\<lambda>_. 0), screen_x := (\<lambda>_. 0), screen_y := (\<lambda>_. 0)\<rparr>"

lemma quiet_poke [simp]: "quiet (poke a v s) = quiet s"
  by (simp add: quiet_def poke_def)

lemma quiet_set [simp]: "quiet (set_x t x s) = quiet s" "quiet (set_y t x s) = quiet s"
  by (simp_all add: quiet_def set_x_def set_y_def)

lemma quiet_with_mem [simp]: "quiet (with_mem s m) = quiet s"
  by (simp add: quiet_def with_mem_def)

lemma quiet_setcoords [simp]: "quiet (setcoords x y t s) = quiet s"
  by (simp add: setcoords_def scroll_mem Let_def)

lemma quiet_term_putc [simp]: "quiet (term_putc c s) = quiet s"
  by (simp add: term_putc_def Let_def)

lemma quiet_putc [simp]: "quiet (putc c s) = quiet s"
  by (simp add: putc_def Let_def)

lemma quiet_printk [simp]: "quiet (snd (printk str s)) = quiet s"
  unfolding printk_def by (induction str arbitrary: s) simp_all

lemma quiet_clear [simp]: "quiet (clear s) = quiet s"
  by (simp add: clear_mem)

text \<open>Equal states up to the screen agree on every other field.\<close>

lemma quiet_eqD:
  assumes "quiet s = quiet t"
  shows "tabs s = tabs t" "cr0 s = cr0 t" "cr3 s = cr3 t" "cr4 s = cr4 t" "esp s = esp t"
    "ebp s = ebp t" "eflags s = eflags t" "dev s = dev t" "io_log s = io_log t"
    "master_mask s = master_mask t" "slave_mask s = slave_mask t"
    "current_terminal s = current_terminal t" "console.more s = console.more t"
  using assms by (cases s; cases t; simp add: quiet_def)+

lemmas printk_frame [frame_simps] = quiet_eqD [OF quiet_printk]

subsection \<open>Cursor bounds\<close>

definition on_screen :: "nat \<Rightarrow> 'a console_scheme \<Rightarrow> bool" where
  "on_screen t s \<longleftrightarrow> 0 \<le> screen_x s t \<and> screen_x s t < NUM_COLS \<and>
     0 \<le> screen_y s t \<and> screen_y s t < NUM_ROWS"

definition cursor :: "nat \<Rightarrow> 'a console_scheme \<Rightarrow> int" where
  "cursor t s = NUM_COLS * screen_y s t + screen_x s t"

lemma smod_small [simp]: "0 \<le> (x :: int) \<Longrightarrow> x < n \<Longrightarrow> x smod n = x"
  by (simp add: signed_modulo_int_def signed_divide_int_def sgn_if)

lemma sdiv_small [simp]: "0 \<le> (x :: int) \<Longrightarrow> x < n \<Longrightarrow> x sdiv n = 0"
  by (simp add: signed_divide_int_def)

lemma scroll_simps [simp]:
  "screen_x (scroll t s) = (screen_x s)(t := 0)" "screen_y (scroll t s) = (screen_y s)(t := 24)"
  "mem (scroll t s) = copied VIDEO VIDEO_ROW1 4000 (mem s)"
  "current_terminal (scroll t s) = current_terminal s"
  by (simp_all add: scroll_mem)

lemma clear_simps [simp]:
  "screen_x (clear s) = screen_x s" "screen_y (clear s) = screen_y s"
  "mem (clear s) = blanked 4000 (mem s)" "current_terminal (clear s) = current_terminal s"
  by (simp_all add: clear_mem)

lemma setcoords_simps [simp]:
  "screen_x (setcoords x y t s) = (screen_x s)(t := if NUM_ROWS \<le> y then 0 else x)"
  "screen_y (setcoords x y t s) = (screen_y s)(t := if NUM_ROWS \<le> y then 24 else y)"
  "mem (setcoords x y t s) =
     (if NUM_ROWS \<le> y then copied VIDEO VIDEO_ROW1 4000 (mem s) else mem s)"
  "current_terminal (setcoords x y t s) = current_terminal s"
  by (simp_all add: setcoords_def Let_def)

lemma term_putc_newline:
  "c = CH_NEWLINE \<or> c = CH_RETURN \<Longrightarrow>
   term_putc c s = setcoords 0 (screen_y s (current_terminal s) + 1) (current_terminal s) s"
  by (simp add: term_putc_def getycoord_def Let_def)

text \<open>A printable character, for a cursor on the screen: draw it and advance, with a scroll at the end.\<close>

definition draw :: "u8 \<Rightarrow> 'a console_scheme \<Rightarrow> memory" where
  "draw c s = (mem s)(cell (cursor (current_terminal s) s) := c,
     cell (cursor (current_terminal s) s) + 1 := ATTRIB)"

lemma term_putc_print:
  assumes "on_screen (current_terminal s) s" and "c \<noteq> CH_NEWLINE" and "c \<noteq> CH_RETURN"
  defines "t \<equiv> current_terminal s"
  shows "current_terminal (term_putc c s) = t"
    and "screen_x (term_putc c s) = (screen_x s)(t := if screen_x s t = 79 then 0 else screen_x s t + 1)"
    and "screen_y (term_putc c s) = (screen_y s)
      (t := if screen_x s t = 79 \<and> screen_y s t \<noteq> 24 then screen_y s t + 1 else screen_y s t)"
    and "mem (term_putc c s) =
      (if screen_x s t = 79 \<and> screen_y s t = 24 then copied VIDEO VIDEO_ROW1 4000 (draw c s)
       else draw c s)"
  using assms
  by (auto simp: term_putc_def getycoord_def Let_def draw_def cursor_def on_screen_def t_def fun_eq_iff)

lemma term_putc_on_screen:
  assumes "on_screen (current_terminal s) s"
  shows "on_screen (current_terminal s) (term_putc c s)"
    and "current_terminal (term_putc c s) = current_terminal s"
  using assms
  by (cases "c = CH_NEWLINE \<or> c = CH_RETURN";
      simp add: term_putc_newline term_putc_print; auto simp: on_screen_def)+

text \<open>\<open>putc\<close> has no scrolling: a newline on the last row leaves the screen.\<close>

lemma putc_newline:
  "c = CH_NEWLINE \<or> c = CH_RETURN \<Longrightarrow>
   putc c s = set_x (current_terminal s) 0
     (set_y (current_terminal s) (screen_y s (current_terminal s) + 1) s)"
  by (simp add: putc_def Let_def)

text \<open>
  The column is reduced modulo the width before it is divided by the width, so a printable
  character never moves \<open>putc\<close> to another row.
\<close>

lemma smod_80: "0 \<le> (x :: int) \<Longrightarrow> x < 80 \<Longrightarrow> (x + 1) smod 80 = (if x = 79 then 0 else x + 1)"
  by (cases "x = 79") (simp_all add: signed_modulo_int_def signed_divide_int_def)

lemma putc_print:
  assumes "on_screen (current_terminal s) s" and "c \<noteq> CH_NEWLINE" and "c \<noteq> CH_RETURN"
  defines "t \<equiv> current_terminal s"
  shows "current_terminal (putc c s) = t"
    and "screen_x (putc c s) = (screen_x s)(t := if screen_x s t = 79 then 0 else screen_x s t + 1)"
    and "screen_y (putc c s) = screen_y s"
    and "mem (putc c s) = draw c s"
  using assms
  by (auto simp: putc_def Let_def draw_def cursor_def on_screen_def t_def fun_eq_iff smod_80)

subsection \<open>Character output as an interface\<close>

text \<open>The memory of the 25 visible rows.\<close>

definition screen_region :: "u32 set" where
  "screen_region = {a. unat (a - VIDEO) < 4000}"

definition same_outside :: "u32 set \<Rightarrow> 'a machine_scheme \<Rightarrow> 'a machine_scheme \<Rightarrow> bool" where
  "same_outside A s t \<longleftrightarrow> (\<forall>a. a \<notin> A \<longrightarrow> mem t a = mem s a)"

text \<open>
  A character sink keeps an invariant of its state and stays inside a memory region, for the
  characters \<open>ok\<close> says it handles; so does any string of them.
\<close>

locale char_output =
  fixes put :: "u8 \<Rightarrow> 'a machine_scheme \<Rightarrow> 'a machine_scheme"
    and inv :: "'a machine_scheme \<Rightarrow> bool"
    and ok :: "u8 \<Rightarrow> bool"
    and region :: "u32 set"
  assumes put_inv: "inv s \<Longrightarrow> ok c \<Longrightarrow> inv (put c s)"
    and put_frame: "inv s \<Longrightarrow> ok c \<Longrightarrow> same_outside region s (put c s)"
begin

lemma string_inv: "inv s \<Longrightarrow> \<forall>c \<in> set cs. ok c \<Longrightarrow> inv (fold put cs s)"
  by (induction cs arbitrary: s) (simp_all add: put_inv)

lemma string_frame: "inv s \<Longrightarrow> \<forall>c \<in> set cs. ok c \<Longrightarrow> same_outside region s (fold put cs s)"
proof (induction cs arbitrary: s)
  case (Cons c cs)
  then have "same_outside region s (put c s)" "same_outside region (put c s) (fold put cs (put c s))"
    using put_frame put_inv by auto
  then show ?case by (simp add: same_outside_def)
qed (simp add: same_outside_def)

end

lemma cell_offset: "0 \<le> i \<Longrightarrow> i < 2 ^ 30 \<Longrightarrow> unat (cell i - VIDEO) = nat (2 * i)"
  using unat_of_nat_u32 [of "nat (2 * i)"] by (simp add: cell_def)

lemma cell_offset_odd: "0 \<le> i \<Longrightarrow> i < 2 ^ 30 \<Longrightarrow> unat (cell i + 1 - VIDEO) = nat (2 * i + 1)"
  using unat_of_nat_u32 [of "nat (2 * i + 1)"] by (simp add: cell_def algebra_simps)

lemma cell_in_region:
  "0 \<le> i \<Longrightarrow> i < 2000 \<Longrightarrow> cell i \<in> screen_region \<and> cell i + 1 \<in> screen_region"
  using cell_offset [of i] cell_offset_odd [of i] by (simp add: screen_region_def) arith

lemma cursor_range: "on_screen t s \<Longrightarrow> 0 \<le> cursor t s \<and> cursor t s < 2000"
  by (auto simp: on_screen_def cursor_def)

lemma draw_outside:
  "on_screen (current_terminal s) s \<Longrightarrow> a \<notin> screen_region \<Longrightarrow> draw c s a = mem s a"
  using cell_in_region [of "cursor (current_terminal s) s"] cursor_range
  by (auto simp: draw_def)

lemma copied_outside: "a \<notin> screen_region \<Longrightarrow> copied VIDEO VIDEO_ROW1 4000 m a = m a"
  by (simp add: screen_region_def copied_def)

abbreviation "cursor_ok s \<equiv> on_screen (current_terminal s) s"
abbreviation "printable c \<equiv> c \<noteq> CH_NEWLINE \<and> c \<noteq> CH_RETURN"

interpretation term_out: char_output term_putc cursor_ok "\<lambda>_. True" screen_region
proof
  fix s :: "'a console_scheme" and c
  assume s: "cursor_ok s"
  then show "cursor_ok (term_putc c s)" using term_putc_on_screen [of s c] by simp
  show "same_outside screen_region s (term_putc c s)"
  proof (cases "printable c")
    case True
    then show ?thesis
      using s by (simp add: same_outside_def term_putc_print copied_outside draw_outside)
  next
    case False
    then show ?thesis by (simp add: same_outside_def term_putc_newline copied_outside)
  qed
qed

interpretation raw_out: char_output putc cursor_ok printable screen_region
proof
  fix s :: "'a console_scheme" and c
  assume s: "cursor_ok s" and c: "printable c"
  then show "cursor_ok (putc c s)"
    by (simp add: putc_print) (auto simp: on_screen_def putc_print)
  show "same_outside screen_region s (putc c s)"
    using s c by (simp add: same_outside_def putc_print draw_outside)
qed

subsection \<open>The screen as a teletype\<close>

text \<open>
  The abstract terminal: 26 rows of 80 cells, of which 25 are visible, and one linear position.
  A scroll brings in the row below the visible ones, whatever it holds.
\<close>

record tty =
  tty_text :: "nat \<Rightarrow> u8 \<times> u8"
  tty_pos :: nat

definition tty_scroll :: "tty \<Rightarrow> tty" where
  "tty_scroll T = \<lparr>tty_text = (\<lambda>i. if i < 2000 then tty_text T (i + 80) else tty_text T i),
     tty_pos = 1920\<rparr>"

definition tty_put :: "u8 \<Rightarrow> tty \<Rightarrow> tty" where
  "tty_put c T =
     (if c = CH_NEWLINE \<or> c = CH_RETURN then
        if tty_pos T div 80 = 24 then tty_scroll T else T\<lparr>tty_pos := 80 * (tty_pos T div 80 + 1)\<rparr>
      else
        let T = T\<lparr>tty_text := (tty_text T)(tty_pos T := (c, ATTRIB))\<rparr>
        in if tty_pos T = 1999 then tty_scroll T else T\<lparr>tty_pos := tty_pos T + 1\<rparr>)"

definition screen_cell :: "'a machine_scheme \<Rightarrow> nat \<Rightarrow> u8 \<times> u8" where
  "screen_cell s i = (mem s (cell (int i)), mem s (cell (int i) + 1))"

definition shows_tty :: "'a console_scheme \<Rightarrow> tty \<Rightarrow> bool" where
  "shows_tty s T \<longleftrightarrow> cursor_ok s \<and> int (tty_pos T) = cursor (current_terminal s) s \<and>
     (\<forall>i < 2080. tty_text T i = screen_cell s i)"

lemma copied_cell:
  assumes "i < 2080"
  shows "copied VIDEO VIDEO_ROW1 4000 m (cell (int i)) =
      (if i < 2000 then m (cell (int (i + 80))) else m (cell (int i)))"
    and "copied VIDEO VIDEO_ROW1 4000 m (cell (int i) + 1) =
      (if i < 2000 then m (cell (int (i + 80)) + 1) else m (cell (int i) + 1))"
proof -
  have "nat (2 * int i) < 4000 \<longleftrightarrow> i < 2000" "nat (2 * int i + 1) < 4000 \<longleftrightarrow> i < 2000" by arith+
  then show "copied VIDEO VIDEO_ROW1 4000 m (cell (int i)) =
      (if i < 2000 then m (cell (int (i + 80))) else m (cell (int i)))"
    "copied VIDEO VIDEO_ROW1 4000 m (cell (int i) + 1) =
      (if i < 2000 then m (cell (int (i + 80)) + 1) else m (cell (int i) + 1))"
    using assms cell_offset [of "int i"] cell_offset_odd [of "int i"]
    unfolding copied_def by (simp_all) (simp_all add: cell_def algebra_simps)
qed

lemma cell_eq:
  assumes "0 \<le> i" "i < 2 ^ 30" "0 \<le> j" "j < 2 ^ 30"
  shows "cell i = cell j \<longleftrightarrow> i = j" "cell i + 1 = cell j + 1 \<longleftrightarrow> i = j"
    "cell i \<noteq> cell j + 1" "cell i + 1 \<noteq> cell j"
proof -
  have "cell i = cell j \<Longrightarrow> i = j"
    using cell_offset [OF assms(1,2)] cell_offset [OF assms(3,4)] assms by simp
  then show "cell i = cell j \<longleftrightarrow> i = j" "cell i + 1 = cell j + 1 \<longleftrightarrow> i = j" by auto
  have "unat (cell i - VIDEO) \<noteq> unat (cell j + 1 - VIDEO)"
    "unat (cell i + 1 - VIDEO) \<noteq> unat (cell j - VIDEO)"
    unfolding cell_offset [OF assms(1,2)] cell_offset [OF assms(3,4)]
      cell_offset_odd [OF assms(1,2)] cell_offset_odd [OF assms(3,4)]
    using assms(1,3) by - (simp_all add: nat_add_distrib nat_mult_distrib, presburger+)
  then show "cell i \<noteq> cell j + 1" "cell i + 1 \<noteq> cell j" by metis+
qed

lemma shows_tty_scroll:
  assumes "int (tty_pos T) < 2000" and "\<forall>i < 2080. tty_text T i = screen_cell u i"
    and "mem s' = copied VIDEO VIDEO_ROW1 4000 (mem u)"
    and "screen_x s' (current_terminal s') = 0" "screen_y s' (current_terminal s') = 24"
  shows "shows_tty s' (tty_scroll T)"
  using assms unfolding shows_tty_def tty_scroll_def
  by (auto simp: on_screen_def cursor_def screen_cell_def copied_cell)

lemma shows_tty_draw:
  assumes "shows_tty s T"
  shows "\<forall>i < 2080. ((tty_text T)(tty_pos T := (c, ATTRIB))) i = screen_cell (with_mem s (draw c s)) i"
proof (intro allI impI)
  fix i :: nat
  assume i: "i < 2080"
  let ?p = "cursor (current_terminal s) s"
  have p: "0 \<le> ?p" "?p < 2000" "int (tty_pos T) = ?p"
    using assms cursor_range by (auto simp: shows_tty_def)
  have eq: "cell (int i) = cell ?p \<longleftrightarrow> int i = ?p" "cell (int i) + 1 = cell ?p + 1 \<longleftrightarrow> int i = ?p"
    "cell (int i) \<noteq> cell ?p + 1" "cell (int i) + 1 \<noteq> cell ?p"
    using cell_eq [of "int i" ?p] i p by simp_all
  have "i = tty_pos T \<longleftrightarrow> int i = ?p" using p(3) by auto
  then show "((tty_text T)(tty_pos T := (c, ATTRIB))) i = screen_cell (with_mem s (draw c s)) i"
    using assms i eq by (auto simp: shows_tty_def screen_cell_def draw_def)
qed

lemma term_putc_tty:
  assumes T: "shows_tty s T"
  shows "shows_tty (term_putc c s) (tty_put c T)"
proof -
  let ?t = "current_terminal s"
  have s: "cursor_ok s" and pos: "int (tty_pos T) = 80 * screen_y s ?t + screen_x s ?t"
    using T by (auto simp: shows_tty_def cursor_def)
  have row: "int (tty_pos T div 80) = screen_y s ?t"
    using pos s by (simp add: on_screen_def zdiv_int)
  have lt: "int (tty_pos T) < 2000" using T cursor_range by (auto simp: shows_tty_def)
  show ?thesis
  proof (cases "printable c")
    case False
    show ?thesis
    proof (cases "tty_pos T div 80 = 24")
      case True
      then have "shows_tty (term_putc c s) (tty_scroll T)"
        using False row T lt
        by (intro shows_tty_scroll [where u = s]) (auto simp: term_putc_newline shows_tty_def)
      then show ?thesis using False True by (simp add: tty_put_def)
    next
      case row24: False
      then have "shows_tty (term_putc c s) (T\<lparr>tty_pos := 80 * (tty_pos T div 80 + 1)\<rparr>)"
        using False row T s
        by (auto simp: term_putc_newline shows_tty_def on_screen_def cursor_def screen_cell_def)
      then show ?thesis using False row24 by (simp add: tty_put_def)
    qed
  next
    case True
    note pr = term_putc_print [OF s conjunct1 [OF True] conjunct2 [OF True]]
    let ?T = "T\<lparr>tty_text := (tty_text T)(tty_pos T := (c, ATTRIB))\<rparr>"
    have drawn: "\<forall>i < 2080. tty_text ?T i = screen_cell (with_mem s (draw c s)) i"
      using shows_tty_draw [OF T] by simp
    have last: "tty_pos T = 1999 \<longleftrightarrow> screen_x s ?t = 79 \<and> screen_y s ?t = 24"
      using pos s by (auto simp: on_screen_def)
    show ?thesis
    proof (cases "tty_pos T = 1999")
      case True
      then have "shows_tty (term_putc c s) (tty_scroll ?T)"
        using last lt drawn pr by (intro shows_tty_scroll [where u = "with_mem s (draw c s)"]) simp_all
      then show ?thesis using \<open>printable c\<close> True by (simp add: tty_put_def)
    next
      case False
      have "cursor_ok (term_putc c s)" using term_putc_on_screen [OF s, of c] by simp
      moreover have "int (tty_pos T + 1) = cursor (current_terminal (term_putc c s)) (term_putc c s)"
        using False last pr pos by (auto simp: cursor_def)
      moreover have "mem (term_putc c s) = draw c s" using False last pr by auto
      ultimately have "shows_tty (term_putc c s) (?T\<lparr>tty_pos := tty_pos T + 1\<rparr>)"
        using drawn by (simp add: shows_tty_def screen_cell_def)
      then show ?thesis using \<open>printable c\<close> False by (simp add: tty_put_def)
    qed
  qed
qed

lemma printk_tty: "shows_tty s T \<Longrightarrow> shows_tty (snd (printk str s)) (fold tty_put str T)"
proof (induction str arbitrary: s T)
  case (Cons c str)
  then show ?case using term_putc_tty [OF Cons.prems, of c] by (simp add: printk_def)
qed (simp add: printk_def)

end
