(* ===== verification/Lib_Str.thy ===== *)
theory Lib_Str
  imports Kernel_Prelude
begin

text \<open>
  The string routines of \<open>lib.c\<close>: \<open>strlen\<close>, \<open>strncmp\<close>, \<open>strcpy\<close>,
  \<open>strncpy\<close>, \<open>strrev\<close>, \<open>itoa\<close>.

  A \<open>char\<close> pointer that is only read is a reader \<open>nat \<Rightarrow> u8 res\<close>: what \<open>s[i]\<close>
  yields, or the fault of that access. A pointer that is written comes with the store it lives in
  and a pair of access functions; the contract of such a pair is the locale \<open>byte_buffer\<close>.
  Local arrays (byte lists) implement it here, user memory in \<open>Paging\<close>. A source never
  overlaps the destination, as in every call of the kernel.
\<close>

type_synonym reader = "nat \<Rightarrow> u8 res"

subsection \<open>Local arrays\<close>

definition arr_rd :: "nat \<Rightarrow> u8 list \<Rightarrow> u8 res" where
  "arr_rd i b = (if i < length b then Ok (b ! i) else Err OutOfBounds)"

definition arr_wr :: "nat \<Rightarrow> u8 \<Rightarrow> u8 list \<Rightarrow> u8 list res" where
  "arr_wr i v b = (if i < length b then Ok (b[i := v]) else Err OutOfBounds)"

subsection \<open>The routines\<close>

text \<open>
  \<open>strlen\<close> counts in a \<open>uint32_t\<close>: after \<open>2 ^ 32\<close> non-zero bytes the index wraps
  and the loop never ends.
\<close>

function strlen_from :: "nat \<Rightarrow> reader \<Rightarrow> nat \<Rightarrow> nat res" where
  "strlen_from fuel s len =
     (if fuel = 0 then Err Diverges
      else bindE (s len) (\<lambda>c. if c = 0 then Ok len else strlen_from (fuel - 1) s (Suc len)))"
  by pat_completeness auto
termination by (relation "measure fst") auto

declare strlen_from.simps [simp del]

definition strlen :: "reader \<Rightarrow> nat res" where
  "strlen s = strlen_from (2 ^ 32) s 0"

text \<open>\<open>int8_t\<close> is \<open>char\<close>, signed; the difference is taken in \<open>int\<close>.\<close>

function strncmp_from :: "reader \<Rightarrow> reader \<Rightarrow> nat \<Rightarrow> nat \<Rightarrow> int res" where
  "strncmp_from s1 s2 n i =
     (if i < n then
        bindE (s1 i) (\<lambda>a. bindE (s2 i) (\<lambda>b.
          if a \<noteq> b \<or> a = 0 then Ok (sint a - sint b) else strncmp_from s1 s2 n (Suc i)))
      else Ok 0)"
  by pat_completeness auto
termination by (relation "measure (\<lambda>(s1, s2, n, i). n - i)") auto

declare strncmp_from.simps [simp del]

definition strncmp :: "reader \<Rightarrow> reader \<Rightarrow> nat \<Rightarrow> int res" where
  "strncmp s1 s2 n = strncmp_from s1 s2 n 0"

text \<open>
  \<open>strcpy\<close> ends at the terminator of the source; the fuel is the number of distinct
  addresses, as for \<open>strlen\<close>.
\<close>

function strcpy_from ::
    "nat \<Rightarrow> (nat \<Rightarrow> u8 \<Rightarrow> 'b \<Rightarrow> 'b res) \<Rightarrow> reader \<Rightarrow> nat \<Rightarrow> 'b \<Rightarrow> 'b res" where
  "strcpy_from fuel wr src i b =
     (if fuel = 0 then Err Diverges
      else bindE (src i) (\<lambda>c.
        if c \<noteq> 0 then bindE (wr i c b) (strcpy_from (fuel - 1) wr src (Suc i))
        else wr i 0 b))"
  by pat_completeness auto
termination by (relation "measure fst") auto

declare strcpy_from.simps [simp del]

definition strcpy :: "(nat \<Rightarrow> u8 \<Rightarrow> 'b \<Rightarrow> 'b res) \<Rightarrow> reader \<Rightarrow> 'b \<Rightarrow> 'b res" where
  "strcpy wr src b = strcpy_from (2 ^ 32) wr src 0 b"

text \<open>\<open>strncpy\<close> tests \<open>src[i]\<close> before \<open>i < n\<close>, so it reads one byte past the \<open>n\<close> it copies.\<close>

function strncpy_copy ::
    "(nat \<Rightarrow> u8 \<Rightarrow> 'b \<Rightarrow> 'b res) \<Rightarrow> reader \<Rightarrow> nat \<Rightarrow> nat \<Rightarrow> 'b \<Rightarrow> (nat \<times> 'b) res" where
  "strncpy_copy wr src n i b =
     bindE (src i) (\<lambda>c.
       if c \<noteq> 0 \<and> i < n then bindE (wr i c b) (strncpy_copy wr src n (Suc i)) else Ok (i, b))"
  by pat_completeness auto
termination by (relation "measure (\<lambda>(wr, src, n, i, b). n - i)") auto

declare strncpy_copy.simps [simp del]

definition strncpy ::
    "(nat \<Rightarrow> u8 \<Rightarrow> 'b \<Rightarrow> 'b res) \<Rightarrow> reader \<Rightarrow> nat \<Rightarrow> 'b \<Rightarrow> 'b res" where
  "strncpy wr src n b =
     bindE (strncpy_copy wr src n 0 b) (\<lambda>(i, b). for_loopE i n (\<lambda>i. wr i 0) b)"

fun strrev_loop :: "nat \<Rightarrow> int \<Rightarrow> int \<Rightarrow> u8 list \<Rightarrow> u8 list" where
  "strrev_loop 0 beg fin s = s"
| "strrev_loop (Suc fuel) beg fin s =
     (if beg < fin then
        let tmp = s ! nat fin;
            s = s[nat fin := s ! nat beg];
            s = s[nat beg := tmp]
        in strrev_loop fuel (beg + 1) (fin - 1) s
      else s)"

text \<open>The two indices meet after at most \<open>strlen s\<close> rounds, which is the fuel.\<close>

definition strrev :: "u8 list \<Rightarrow> u8 list res" where
  "strrev s = bindE (strlen (\<lambda>i. arr_rd i s)) (\<lambda>n. Ok (strrev_loop n 0 (int n - 1) s))"

text \<open>The table of digits, with the terminator of the string literal.\<close>

definition itoa_lookup :: "u8 list" where
  "itoa_lookup =
     [0x30, 0x31, 0x32, 0x33, 0x34, 0x35, 0x36, 0x37, 0x38, 0x39,
      0x41, 0x42, 0x43, 0x44, 0x45, 0x46, 0x47, 0x48, 0x49, 0x4A, 0x4B, 0x4C, 0x4D,
      0x4E, 0x4F, 0x50, 0x51, 0x52, 0x53, 0x54, 0x55, 0x56, 0x57, 0x58, 0x59, 0x5A, 0]"

text \<open>
  The radix is an \<open>int32_t\<close>, converted to unsigned by \<open>newval % radix\<close>. With radix 1
  the value never shrinks and the loop runs off the end of the buffer.
\<close>

function itoa_loop :: "u32 \<Rightarrow> u32 \<Rightarrow> nat \<Rightarrow> u8 list \<Rightarrow> (nat \<times> u8 list) res" where
  "itoa_loop radix newval k buf =
     (if 0 < newval then
        if radix = 0 then Err DivideError
        else if k < length buf then
          bindE (arr_rd (unat (newval mod radix)) itoa_lookup) (\<lambda>c.
            itoa_loop radix (newval div radix) (Suc k) (buf[k := c]))
        else Err OutOfBounds
      else Ok (k, buf))"
  by pat_completeness auto
termination by (relation "measure (\<lambda>(radix, newval, k, buf). length buf - k)") auto

declare itoa_loop.simps [simp del]

definition itoa :: "u32 \<Rightarrow> u8 list \<Rightarrow> u32 \<Rightarrow> u8 list res" where
  "itoa value buf radix =
     (if value = 0 then bindE (arr_wr 0 0x30 buf) (arr_wr 1 0)
      else
        bindE (itoa_loop radix value 0 buf) (\<lambda>(k, buf).
        bindE (arr_wr k 0 buf) strrev))"

subsection \<open>C strings\<close>

text \<open>\<open>c_string s n\<close>: the first zero byte behind \<open>s\<close> is at index \<open>n\<close>.\<close>

definition c_string :: "reader \<Rightarrow> nat \<Rightarrow> bool" where
  "c_string s n \<longleftrightarrow> (\<forall>i < n. \<exists>c. s i = Ok c \<and> c \<noteq> 0) \<and> s n = Ok 0"

lemma c_string_at: "c_string s n \<Longrightarrow> i < n \<Longrightarrow> \<exists>c. s i = Ok c \<and> c \<noteq> 0"
  and c_string_end: "c_string s n \<Longrightarrow> s n = Ok 0"
  by (auto simp: c_string_def)

lemma strlen_from_c_string:
  assumes "c_string s n" and "len \<le> n" and "n < len + fuel"
  shows "strlen_from fuel s len = Ok n"
  using assms(2,3)
proof (induction fuel arbitrary: len)
  case (Suc fuel)
  show ?case
  proof (cases "len = n")
    case True
    then show ?thesis
      using c_string_end [OF assms(1)] by (simp add: strlen_from.simps [of "Suc fuel"])
  next
    case False
    then obtain c where "s len = Ok c" "c \<noteq> 0"
      using c_string_at [OF assms(1), of len] Suc.prems by auto
    then show ?thesis
      using False Suc by (simp add: strlen_from.simps [of "Suc fuel"])
  qed
qed simp

lemma strlen_c_string: "c_string s n \<Longrightarrow> n < 2 ^ 32 \<Longrightarrow> strlen s = Ok n"
  unfolding strlen_def by (rule strlen_from_c_string) simp_all

lemma strlen_from_endless:
  "\<forall>i. \<exists>c. s i = Ok c \<and> c \<noteq> 0 \<Longrightarrow> strlen_from fuel s len = Err Diverges"
proof (induction fuel arbitrary: len)
  case 0
  then show ?case by (simp add: strlen_from.simps)
next
  case (Suc fuel)
  then obtain c where "s len = Ok c" "c \<noteq> 0" by blast
  then show ?case using Suc by (simp add: strlen_from.simps [of "Suc fuel"])
qed

text \<open>The bytes of a string that \<open>strncmp\<close> looks at: up to the terminator, at most \<open>n\<close>.\<close>

fun cstr :: "(nat \<Rightarrow> u8) \<Rightarrow> nat \<Rightarrow> u8 list" where
  "cstr f 0 = []"
| "cstr f (Suc n) = (if f 0 = 0 then [] else f 0 # cstr (\<lambda>i. f (Suc i)) n)"

lemma strncmp_from_Suc:
  "strncmp_from s1 s2 (Suc n) (Suc i) = strncmp_from (\<lambda>j. s1 (Suc j)) (\<lambda>j. s2 (Suc j)) n i"
proof (induction "n - i" arbitrary: i)
  case 0
  then show ?case by (simp add: strncmp_from.simps)
next
  case (Suc x)
  then have "strncmp_from s1 s2 (Suc n) (Suc (Suc i)) =
      strncmp_from (\<lambda>j. s1 (Suc j)) (\<lambda>j. s2 (Suc j)) n (Suc i)" by simp
  then show ?case
    by (subst (1 2) strncmp_from.simps) (simp cong: if_cong)
qed

lemma sint_inject:
  "sint a = sint b \<longleftrightarrow> a = (b :: u8)" "sint a = 0 \<longleftrightarrow> a = (0 :: u8)" "0 = sint a \<longleftrightarrow> a = (0 :: u8)"
  by (auto dest: signed_word_eqI simp: signed_eq_0_iff)

lemma strncmp_eq_0:
  assumes "\<forall>i < n. s1 i = Ok (f i) \<and> s2 i = Ok (g i)"
  shows "\<exists>d. strncmp s1 s2 n = Ok d \<and> (d = 0 \<longleftrightarrow> cstr f n = cstr g n)"
  using assms
proof (induction n arbitrary: s1 s2 f g)
  case 0
  then show ?case by (simp add: strncmp_def strncmp_from.simps)
next
  case (Suc n)
  let ?r = "strncmp (\<lambda>j. s1 (Suc j)) (\<lambda>j. s2 (Suc j)) n"
  have step: "strncmp s1 s2 (Suc n) =
      (if f 0 \<noteq> g 0 \<or> f 0 = 0 then Ok (sint (f 0) - sint (g 0)) else ?r)"
    unfolding strncmp_def using Suc.prems
    by (subst strncmp_from.simps) (simp add: strncmp_from_Suc)
  have "\<exists>d. ?r = Ok d \<and> (d = 0 \<longleftrightarrow> cstr (\<lambda>i. f (Suc i)) n = cstr (\<lambda>i. g (Suc i)) n)"
    using Suc.prems by (intro Suc.IH) simp
  then show ?case by (auto simp: step sint_inject)
qed

text \<open>The result depends only on the bytes before the first zero byte of either string.\<close>

lemma strncmp_cong:
  assumes "\<And>i. i < n \<Longrightarrow> (\<forall>j < i. \<exists>c. s2 j = Ok c \<and> c \<noteq> 0) \<Longrightarrow> s2 i = s2' i"
  shows "strncmp s1 s2 n = strncmp s1 s2' n"
  using assms
proof (induction n arbitrary: s1 s2 s2')
  case 0
  then show ?case by (simp add: strncmp_def strncmp_from.simps)
next
  case (Suc n)
  have s0: "s2 0 = s2' 0" using Suc.prems [of 0] by simp
  have rest: "strncmp (\<lambda>j. s1 (Suc j)) (\<lambda>j. s2 (Suc j)) n = strncmp (\<lambda>j. s1 (Suc j)) (\<lambda>j. s2' (Suc j)) n"
    if "s2 0 = Ok b" "b \<noteq> 0" for b
  proof (rule Suc.IH)
    fix i
    assume i: "i < n" "\<forall>j<i. \<exists>c. s2 (Suc j) = Ok c \<and> c \<noteq> 0"
    have "\<exists>c. s2 j = Ok c \<and> c \<noteq> 0" if "j < Suc i" for j
      using that i(2) \<open>s2 0 = Ok b\<close> \<open>b \<noteq> 0\<close> by (cases j) auto
    then show "s2 (Suc i) = s2' (Suc i)" using Suc.prems [of "Suc i"] i(1) by simp
  qed
  have step: "strncmp s1 t (Suc n) = bindE (s1 0) (\<lambda>a. bindE (t 0) (\<lambda>b.
      if a \<noteq> b \<or> a = 0 then Ok (sint a - sint b)
      else strncmp (\<lambda>j. s1 (Suc j)) (\<lambda>j. t (Suc j)) n))" for t
    unfolding strncmp_def by (subst strncmp_from.simps) (simp add: strncmp_from_Suc cong: if_cong)
  show ?case
    unfolding step s0 using rest s0
    by (cases "s1 0"; cases "s2' 0") auto
qed

subsection \<open>Byte buffers\<close>

text \<open>
  The contract between a string or copy routine and the store its destination lives in:
  the first \<open>cap b\<close> bytes can be read and written without a fault, and a write changes the
  byte it names and no other. \<open>rest\<close> is what a write never touches.
\<close>

locale byte_buffer =
  fixes rd :: "nat \<Rightarrow> 'b \<Rightarrow> u8 res"
    and wr :: "nat \<Rightarrow> u8 \<Rightarrow> 'b \<Rightarrow> 'b res"
    and cap :: "'b \<Rightarrow> nat"
    and rest :: "'b \<Rightarrow> 'r"
  assumes rd_ok: "i < cap b \<Longrightarrow> \<exists>v. rd i b = Ok v"
    and wr_ok: "i < cap b \<Longrightarrow> \<exists>b'. wr i v b = Ok b' \<and> cap b' = cap b \<and> rest b' = rest b \<and>
      (\<forall>j < cap b. rd j b' = (if j = i then Ok v else rd j b))"
begin

text \<open>Any loop that writes \<open>f i\<close> at index \<open>i\<close>, for \<open>i\<close> from \<open>a\<close> below \<open>n\<close>.\<close>

definition writes :: "nat \<Rightarrow> nat \<Rightarrow> (nat \<Rightarrow> u8) \<Rightarrow> 'b \<Rightarrow> 'b \<Rightarrow> bool" where
  "writes a n f b b' \<longleftrightarrow> cap b' = cap b \<and> rest b' = rest b \<and>
     (\<forall>j < cap b. rd j b' = (if a \<le> j \<and> j < n then Ok (f j) else rd j b))"

lemma writes_refl: "n \<le> a \<Longrightarrow> writes a n f b b"
  by (auto simp: writes_def)

lemma writes_cong:
  "(\<And>i. a \<le> i \<Longrightarrow> i < n \<Longrightarrow> f i = g i) \<Longrightarrow> writes a n f b b' \<longleftrightarrow> writes a n g b b'"
  by (auto simp: writes_def)

lemma writes_first:
  assumes "a < cap b" and "wr a (f a) b = Ok b1" and "writes (Suc a) n f b1 b'" and "a < n"
  shows "writes a n f b b'"
proof -
  obtain b2 where "wr a (f a) b = Ok b2" "cap b2 = cap b" "rest b2 = rest b"
    and get: "\<forall>j < cap b. rd j b2 = (if j = a then Ok (f a) else rd j b)"
    using wr_ok [OF assms(1), of "f a"] by blast
  then have "b1 = b2" using assms(2) by simp
  with assms(3,4) get \<open>cap b2 = cap b\<close> \<open>rest b2 = rest b\<close> show ?thesis
    unfolding writes_def by (auto simp: Suc_le_eq)
qed

lemma writes_last:
  assumes "writes a n f b b1" and "a \<le> n" and "n < cap b" and "wr n (f n) b1 = Ok b'"
  shows "writes a (Suc n) f b b'"
proof -
  have "n < cap b1" using assms(1,3) by (simp add: writes_def)
  from wr_ok [OF this, of "f n"] obtain b2 where "wr n (f n) b1 = Ok b2" "cap b2 = cap b1"
    "rest b2 = rest b1" and get: "\<forall>j < cap b1. rd j b2 = (if j = n then Ok (f n) else rd j b1)"
    by blast
  with assms(4) have "b' = b2" by simp
  with assms(1,2) get \<open>cap b2 = cap b1\<close> \<open>rest b2 = rest b1\<close> show ?thesis
    unfolding writes_def by (auto simp: less_Suc_eq)
qed

lemma for_loopE_writes:
  assumes "a \<le> n" and "n \<le> cap b"
  shows "\<exists>b'. for_loopE a n (\<lambda>i. wr i (f i)) b = Ok b' \<and> writes a n f b b'"
proof (rule for_loopE_induct [where P = "\<lambda>i b'. writes a i f b b'", OF _ assms(1)])
  show "writes a a f b b" by (simp add: writes_refl)
next
  fix i b1
  assume i: "a \<le> i" "i < n" and w: "writes a i f b b1"
  then have "i < cap b1" "i < cap b" using assms(2) by (auto simp: writes_def)
  then obtain b2 where "wr i (f i) b1 = Ok b2" using wr_ok by blast
  then show "\<exists>b'. wr i (f i) b1 = Ok b' \<and> writes a (Suc i) f b b'"
    using writes_last [OF w i(1) \<open>i < cap b\<close>] by blast
qed

lemma strcpy_writes:
  assumes "c_string src n" and "n < cap b" and "n < 2 ^ 32"
  shows "\<exists>b'. strcpy wr src b = Ok b' \<and> writes 0 (Suc n) (\<lambda>i. case src i of Ok c \<Rightarrow> c | _ \<Rightarrow> 0) b b'"
proof -
  let ?f = "\<lambda>i. case src i of Ok c \<Rightarrow> c | _ \<Rightarrow> 0"
  have "\<exists>b'. strcpy_from fuel wr src i b = Ok b' \<and> writes i (Suc n) ?f b b'"
    if "i \<le> n" "n < i + fuel" "n < cap b" for fuel i b
    using that
  proof (induction fuel arbitrary: i b)
    case (Suc fuel)
    show ?case
    proof (cases "i = n")
      case True
      have src: "src n = Ok 0" by (rule c_string_end [OF assms(1)])
      obtain b1 where b1: "wr n 0 b = Ok b1" using wr_ok Suc.prems by blast
      have "writes n (Suc n) ?f b b1"
        by (rule writes_first [OF _ _ writes_refl]) (use Suc.prems b1 src in simp_all)
      then show ?thesis
        using True src b1 by (simp add: strcpy_from.simps [of "Suc fuel"])
    next
      case False
      then have i: "i < n" using Suc.prems by simp
      then obtain c where c: "src i = Ok c" "c \<noteq> 0" using c_string_at [OF assms(1)] by blast
      have "i < cap b" using i Suc.prems by simp
      then obtain b1 where b1: "wr i c b = Ok b1" "cap b1 = cap b" using wr_ok by blast
      obtain b' where b': "strcpy_from fuel wr src (Suc i) b1 = Ok b'" "writes (Suc i) (Suc n) ?f b1 b'"
        using Suc.IH [of "Suc i" b1] Suc.prems i b1(2) by auto
      have "writes i (Suc n) ?f b b'"
        by (rule writes_first [OF \<open>i < cap b\<close> _ b'(2)]) (use b1 c i in simp_all)
      then show ?thesis
        using b1(1) b'(1) c by (simp add: strcpy_from.simps [of "Suc fuel"])
    qed
  qed simp
  from this [of 0 "2 ^ 32" b] show ?thesis
    using assms(2,3) unfolding strcpy_def by simp
qed

end

interpretation arr: byte_buffer arr_rd arr_wr length "\<lambda>_. ()"
  by unfold_locales (auto simp: arr_rd_def arr_wr_def)

lemma arr_writes_list:
  "arr.writes a n f b b' \<longleftrightarrow>
   b' = map (\<lambda>j. if a \<le> j \<and> j < n then f j else b ! j) [0..<length b]"
  (is "_ \<longleftrightarrow> b' = ?l")
proof
  assume w: "arr.writes a n f b b'"
  then have len: "length b' = length b" by (simp add: arr.writes_def)
  show "b' = ?l"
  proof (rule nth_equalityI)
    fix j
    assume "j < length b'"
    with w len have "Ok (b' ! j) = (if a \<le> j \<and> j < n then Ok (f j) else Ok (b ! j))"
      by (simp add: arr.writes_def arr_rd_def)
    then show "b' ! j = ?l ! j" using \<open>j < length b'\<close> len by (auto split: if_splits)
  qed (simp add: len)
next
  assume "b' = ?l"
  then show "arr.writes a n f b b'" by (simp add: arr.writes_def arr_rd_def)
qed

subsection \<open>Reversal and number conversion\<close>

lemma strrev_loop_rev:
  assumes "n \<le> length s" and "j \<le> n" and "fuel + 2 * j \<ge> n"
    and "\<forall>i < n. s ! i = (if i < j \<or> n - j \<le> i then t ! (n - 1 - i) else t ! i)"
  shows "length (strrev_loop fuel (int j) (int n - 1 - int j) s) = length s \<and>
    (\<forall>i < length s. strrev_loop fuel (int j) (int n - 1 - int j) s ! i =
       (if i < n then t ! (n - 1 - i) else s ! i))"
  using assms
proof (induction fuel arbitrary: j s)
  case 0
  then have "\<not> (\<not> i < j \<and> \<not> n - j \<le> i)" for i by linarith
  with 0 show ?case by auto
next
  case (Suc fuel)
  show ?case
  proof (cases "int j < int n - 1 - int j")
    case False
    have "t ! i = t ! (n - 1 - i)" if "i < n" "\<not> (i < j \<or> n - j \<le> i)" for i
    proof -
      have "i = n - 1 - i" using that False by linarith
      then show ?thesis by simp
    qed
    then show ?thesis using False Suc.prems by auto
  next
    case True
    define e where "e = n - 1 - j"
    have e: "nat (int n - 1 - int j) = e" "j < e" "e < n" "int n - 1 - int j - 1 = int n - 1 - int (Suc j)"
      using True by (auto simp: e_def)
    let ?s = "s[e := s ! j, j := s ! e]"
    have sj: "s ! j = t ! j" "s ! e = t ! e"
      using Suc.prems(4) e by (auto simp: e_def)
    have "\<forall>i < n. ?s ! i = (if i < Suc j \<or> n - Suc j \<le> i then t ! (n - 1 - i) else t ! i)"
    proof (intro allI impI)
      fix i
      assume i: "i < n"
      consider "i = j" | "i = e" | "i \<noteq> j" "i \<noteq> e" by blast
      then show "?s ! i = (if i < Suc j \<or> n - Suc j \<le> i then t ! (n - 1 - i) else t ! i)"
      proof cases
        case 1
        then show ?thesis using sj Suc.prems(1) e by (simp add: e_def)
      next
        case 2
        then show ?thesis using sj Suc.prems(1) e by (auto simp: e_def)
      next
        case 3
        then show ?thesis using i Suc.prems(4) e by (auto simp: e_def)
      qed
    qed
    then have "length (strrev_loop fuel (int (Suc j)) (int n - 1 - int (Suc j)) ?s) = length ?s \<and>
      (\<forall>i < length ?s. strrev_loop fuel (int (Suc j)) (int n - 1 - int (Suc j)) ?s ! i =
         (if i < n then t ! (n - 1 - i) else ?s ! i))"
      using Suc.prems e by (intro Suc.IH) simp_all
    moreover have "strrev_loop (Suc fuel) (int j) (int n - 1 - int j) s =
        strrev_loop fuel (int (Suc j)) (int n - 1 - int (Suc j)) ?s"
      using True e by (simp add: Let_def add.commute)
    ultimately show ?thesis using e by auto
  qed
qed

lemma strrev_rev:
  assumes "0 \<notin> set s" and "length s < 2 ^ 32"
  shows "strrev (s @ 0 # r) = Ok (rev s @ 0 # r)"
proof -
  have "c_string (\<lambda>i. arr_rd i (s @ 0 # r)) (length s)"
    using assms(1) by (auto simp: c_string_def arr_rd_def nth_append in_set_conv_nth)
  then have "strlen (\<lambda>i. arr_rd i (s @ 0 # r)) = Ok (length s)"
    using assms(2) by (rule strlen_c_string)
  then have "strrev (s @ 0 # r) = Ok (strrev_loop (length s) 0 (int (length s) - 1) (s @ 0 # r))"
    by (simp add: strrev_def)
  moreover have "strrev_loop (length s) 0 (int (length s) - 1) (s @ 0 # r) = rev s @ 0 # r"
    using strrev_loop_rev [of "length s" "s @ 0 # r" 0 "length s" s]
    by (intro nth_equalityI) (auto simp: nth_append rev_nth)
  ultimately show ?thesis by simp
qed

text \<open>
  The text of a number: its digits in the given radix, most significant first, and the inverse
  reading.
\<close>

fun digits_rev :: "nat \<Rightarrow> nat \<Rightarrow> nat list" where
  "digits_rev r v = (if v = 0 \<or> r < 2 then [] else v mod r # digits_rev r (v div r))"

declare digits_rev.simps [simp del]

definition number_text :: "nat \<Rightarrow> nat \<Rightarrow> u8 list" where
  "number_text r v =
     (if v = 0 then [0x30] else map (\<lambda>d. itoa_lookup ! d) (rev (digits_rev r v)))"

fun digit_value :: "u8 list \<Rightarrow> u8 \<Rightarrow> nat" where
  "digit_value [] c = 0"
| "digit_value (x # xs) c = (if x = c then 0 else Suc (digit_value xs c))"

definition read_number :: "nat \<Rightarrow> u8 list \<Rightarrow> nat" where
  "read_number r cs = foldl (\<lambda>acc c. acc * r + digit_value itoa_lookup c) 0 cs"

lemma length_itoa_lookup: "length itoa_lookup = 37"
  by (simp add: itoa_lookup_def)

lemma digit_value_lookup: "d < 36 \<Longrightarrow> digit_value itoa_lookup (itoa_lookup ! d) = d"
  and itoa_lookup_nonzero: "d < 36 \<Longrightarrow> itoa_lookup ! d \<noteq> 0"
proof -
  have "\<forall>d \<in> set [0..<36]. digit_value itoa_lookup (itoa_lookup ! d) = d \<and> itoa_lookup ! d \<noteq> 0"
    by code_simp
  then show "d < 36 \<Longrightarrow> digit_value itoa_lookup (itoa_lookup ! d) = d"
    "d < 36 \<Longrightarrow> itoa_lookup ! d \<noteq> 0" by simp_all
qed

lemma digits_rev_less: "d \<in> set (digits_rev r v) \<Longrightarrow> d < r"
proof (induction r v rule: digits_rev.induct)
  case (1 r v)
  then show ?case
    by (subst (asm) (2) digits_rev.simps) (auto split: if_splits)
qed

lemma digits_rev_value: "2 \<le> r \<Longrightarrow> foldr (\<lambda>d acc. acc * r + d) (digits_rev r v) 0 = v"
proof (induction r v rule: digits_rev.induct)
  case (1 r v)
  then show ?case
    by (subst digits_rev.simps) (auto simp: mult.commute)
qed

lemma length_digits_rev: "2 \<le> r \<Longrightarrow> v < r ^ k \<Longrightarrow> length (digits_rev r v) \<le> k"
proof (induction k arbitrary: v)
  case 0
  then show ?case by (simp add: digits_rev.simps)
next
  case (Suc k)
  have "v div r < r ^ k"
    using Suc.prems by (simp add: div_less_iff_less_mult mult.commute)
  then show ?case using Suc by (subst digits_rev.simps) auto
qed

lemma read_number_text:
  assumes "2 \<le> r" and "r \<le> 36"
  shows "read_number r (number_text r v) = v"
proof (cases "v = 0")
  case True
  have "digit_value itoa_lookup 0x30 = 0" by (simp add: itoa_lookup_def)
  with True show ?thesis by (simp add: number_text_def read_number_def)
next
  case False
  have eq: "foldl (\<lambda>acc c. acc * r + digit_value itoa_lookup c) 0
      (map (\<lambda>d. itoa_lookup ! d) (rev ds)) = foldr (\<lambda>d acc. acc * r + d) ds 0"
    if "\<forall>d \<in> set ds. d < 36" for ds
    using that by (induction ds) (simp_all add: digit_value_lookup)
  have "\<forall>d \<in> set (digits_rev r v). d < 36"
    using digits_rev_less assms(2) by fastforce
  then show ?thesis
    using False by (simp add: number_text_def read_number_def eq digits_rev_value [OF assms(1)])
qed

lemma number_text_nonzero:
  assumes "2 \<le> r" and "r \<le> 36"
  shows "0 \<notin> set (number_text r v)"
proof -
  have "itoa_lookup ! d \<noteq> 0" if "d \<in> set (digits_rev r v)" for d
    using digits_rev_less [OF that] itoa_lookup_nonzero [of d] assms(2) by simp
  then show ?thesis by (auto simp: number_text_def)
qed

lemma itoa_loop_digits:
  fixes radix v :: u32
  assumes "2 \<le> unat radix" and "unat radix \<le> 36"
    and "k + length (digits_rev (unat radix) (unat v)) \<le> length buf"
  shows "itoa_loop radix v k buf =
    (let ds = map (\<lambda>d. itoa_lookup ! d) (digits_rev (unat radix) (unat v))
     in Ok (k + length ds, take k buf @ ds @ drop (k + length ds) buf))"
  using assms(3)
proof (induction "unat v" arbitrary: v k buf rule: less_induct)
  case less
  show ?case
  proof (cases "v = 0")
    case True
    then show ?thesis by (simp add: itoa_loop.simps digits_rev.simps)
  next
    case False
    let ?r = "unat radix"
    define c where "c = itoa_lookup ! (unat v mod ?r)"
    have v: "0 < unat v" using False by (simp add: unat_gt_0)
    have ds: "digits_rev ?r (unat v) = unat v mod ?r # digits_rev ?r (unat (v div radix))"
      using v assms(1) by (subst digits_rev.simps) (simp add: unat_div)
    have lt: "unat (v div radix) < unat v" using v assms(1) by (simp add: unat_div)
    have k: "k < length buf" using less.prems ds by simp
    have rd: "arr_rd (unat (v mod radix)) itoa_lookup = Ok c"
    proof -
      have "unat v mod ?r < ?r" using assms(1) by simp
      then show ?thesis using assms(2) by (simp add: arr_rd_def length_itoa_lookup unat_mod c_def)
    qed
    have "itoa_loop radix v k buf = itoa_loop radix (v div radix) (Suc k) (buf[k := c])"
      using False k rd assms(1) by (subst itoa_loop.simps) (auto simp: word_gt_0)
    also have "\<dots> = (let ds = map (\<lambda>d. itoa_lookup ! d) (digits_rev ?r (unat (v div radix)))
        in Ok (Suc k + length ds, take (Suc k) (buf[k := c]) @ ds @
          drop (Suc k + length ds) (buf[k := c])))"
      using less.prems ds by (intro less.hyps [OF lt]) simp
    finally show ?thesis
      using k by (simp add: ds Let_def c_def take_Suc_conv_app_nth)
  qed
qed

lemma itoa_text:
  assumes "2 \<le> unat radix" and "unat radix \<le> 36"
    and "length (number_text (unat radix) (unat v)) < length buf"
  shows "\<exists>r. itoa v buf radix = Ok (number_text (unat radix) (unat v) @ 0 # r)"
proof (cases "v = 0")
  case True
  then obtain x y r where "buf = x # y # r"
    using assms(3) by (cases buf; cases "tl buf") (auto simp: number_text_def)
  then show ?thesis using True by (simp add: itoa_def arr_wr_def number_text_def)
next
  case False
  let ?ds = "map (\<lambda>d. itoa_lookup ! d) (digits_rev (unat radix) (unat v))"
  have v: "unat v \<noteq> 0" using False by (simp add: unat_eq_0)
  then have shown: "number_text (unat radix) (unat v) = rev ?ds"
    by (simp add: number_text_def rev_map)
  then have len: "length ?ds < length buf" using assms(3) by simp
  have "itoa_loop radix v 0 buf = Ok (length ?ds, ?ds @ drop (length ?ds) buf)"
    using itoa_loop_digits [OF assms(1,2), of 0 v buf] len by (simp add: Let_def)
  moreover have "drop (length ?ds) buf = buf ! length ?ds # drop (Suc (length ?ds)) buf"
    using len by (simp add: Cons_nth_drop_Suc)
  then have "arr_wr (length ?ds) 0 (?ds @ drop (length ?ds) buf) =
      Ok (?ds @ 0 # drop (Suc (length ?ds)) buf)"
    using len by (simp add: arr_wr_def list_update_append)
  moreover have "0 \<notin> set ?ds"
  proof
    assume "0 \<in> set ?ds"
    then obtain d where "d \<in> set (digits_rev (unat radix) (unat v))" "itoa_lookup ! d = 0"
      by auto
    moreover from this(1) have "d < unat radix" by (rule digits_rev_less)
    ultimately show False using assms(2) itoa_lookup_nonzero [of d] by simp
  qed
  moreover have "length ?ds < 2 ^ 32"
    using length_digits_rev [OF assms(1), of "unat v" 32] power_mono [OF assms(1), of 32]
      unat_u32_less [of v] by simp
  ultimately show ?thesis
    using False shown strrev_rev [of ?ds] by (simp add: itoa_def)
qed

end
