(* ===== verification/Mmu.thy ===== *)
theory Mmu
  imports Machine Lib_Str
begin

text \<open>
  Virtual addresses. The processor translates every address the kernel uses through the tables
  at \<open>cr3\<close>; this theory states the two-level walk of the 32-bit paging mode the kernel
  enables (4KB pages, and 4MB pages once \<open>cr4\<close> bit 4 is set), and byte access through it.
  The kernel runs at the most privileged level with write protection off, so only the present
  bits decide whether one of its accesses faults.

  User memory is the second implementation of \<open>byte_buffer\<close>. Busy-waiting on a flag that
  an interrupt handler changes is modelled here as well: the interrupts that arrive during the
  wait are an explicit list.
\<close>

subsection \<open>Translation\<close>

definition walk :: "(u32 \<Rightarrow> nat \<Rightarrow> u32) \<Rightarrow> bool \<Rightarrow> u32 \<Rightarrow> u32 \<Rightarrow> u32 option" where
  "walk T pse dir a =
     (let pde = T (dir AND 0xFFFFF000) (unat (drop_bit 22 a)) in
      if \<not> bit pde 0 then None
      else if pse \<and> bit pde 7 then Some ((pde AND 0xFFC00000) OR (a AND 0x003FFFFF))
      else
        let pte = T (pde AND 0xFFFFF000) (unat (drop_bit 12 a AND 0x3FF)) in
        if \<not> bit pte 0 then None
        else Some ((pte AND 0xFFFFF000) OR (a AND 0xFFF)))"

definition translate :: "'a machine_scheme \<Rightarrow> u32 \<Rightarrow> u32 option" where
  "translate s a = (if bit (cr0 s) 31 then walk (tabs s) (bit (cr4 s) 4) (cr3 s) a else Some a)"

text \<open>Paging is on, with 4MB pages.\<close>

definition paging_on :: "'a machine_scheme \<Rightarrow> bool" where
  "paging_on s \<longleftrightarrow> bit (cr0 s) 31 \<and> bit (cr4 s) 4"

definition ld :: "u32 \<Rightarrow> 'a machine_scheme \<Rightarrow> u8 res" where
  "ld a s = (case translate s a of None \<Rightarrow> Err PageFault | Some p \<Rightarrow> Ok (mem s p))"

definition st :: "u32 \<Rightarrow> u8 \<Rightarrow> 'a machine_scheme \<Rightarrow> 'a machine_scheme res" where
  "st a v s = (case translate s a of None \<Rightarrow> Err PageFault | Some p \<Rightarrow> Ok (s\<lparr>mem := (mem s)(p := v)\<rparr>))"

lemma translate_mem [simp]: "translate (s\<lparr>mem := m\<rparr>) = translate s"
  by (rule ext) (simp add: translate_def)

subsection \<open>A pointer as a byte buffer\<close>

definition ptr_rd :: "u32 \<Rightarrow> nat \<Rightarrow> 'a machine_scheme \<Rightarrow> u8 res" where
  "ptr_rd p i s = ld (p + of_nat i) s"

definition ptr_wr :: "u32 \<Rightarrow> nat \<Rightarrow> u8 \<Rightarrow> 'a machine_scheme \<Rightarrow> 'a machine_scheme res" where
  "ptr_wr p i v s = st (p + of_nat i) v s"

text \<open>The \<open>n\<close> bytes at \<open>p\<close> are mapped, to distinct physical bytes.\<close>

definition mapped :: "u32 \<Rightarrow> nat \<Rightarrow> 'a machine_scheme \<Rightarrow> bool" where
  "mapped p n s \<longleftrightarrow> (\<forall>i < n. translate s (p + of_nat i) \<noteq> None) \<and>
     (\<forall>i < n. \<forall>j < n. translate s (p + of_nat i) = translate s (p + of_nat j) \<longrightarrow> i = j)"

definition frame_of :: "u32 \<Rightarrow> nat \<Rightarrow> 'a machine_scheme \<Rightarrow> u32 set" where
  "frame_of p n s = {a. \<exists>i < n. translate s (p + of_nat i) = Some a}"

definition usr_cap :: "u32 \<Rightarrow> nat \<Rightarrow> 'a machine_scheme \<Rightarrow> nat" where
  "usr_cap p n s = (if mapped p n s then n else 0)"

text \<open>Everything but the bytes of the buffer.\<close>

definition usr_rest :: "u32 \<Rightarrow> nat \<Rightarrow> 'a machine_scheme \<Rightarrow> 'a machine_scheme" where
  "usr_rest p n s = s\<lparr>mem := (\<lambda>a. if a \<in> frame_of p n s then 0 else mem s a)\<rparr>"

lemma mapped_mem [simp]: "mapped p n (s\<lparr>mem := m\<rparr>) = mapped p n s"
  by (simp add: mapped_def)

lemma frame_of_mem [simp]: "frame_of p n (s\<lparr>mem := m\<rparr>) = frame_of p n s"
  by (simp add: frame_of_def)

lemma ptr_wr_ok:
  assumes "mapped p n s" and "i < n"
  shows "\<exists>s'. ptr_wr p i v s = Ok s' \<and> usr_cap p n s' = usr_cap p n s \<and>
    usr_rest p n s' = usr_rest p n s \<and>
    (\<forall>j < n. ptr_rd p j s' = (if j = i then Ok v else ptr_rd p j s))"
proof -
  obtain q where q: "translate s (p + of_nat i) = Some q"
    using assms by (auto simp: mapped_def)
  then have "q \<in> frame_of p n s" using assms(2) by (auto simp: frame_of_def)
  moreover have "ptr_rd p j (s\<lparr>mem := (mem s)(q := v)\<rparr>) = (if j = i then Ok v else ptr_rd p j s)"
    if j: "j < n" for j
  proof -
    obtain r where r: "translate s (p + of_nat j) = Some r"
      using assms j by (auto simp: mapped_def)
    have "r = q \<longleftrightarrow> j = i" using assms j q r by (auto simp: mapped_def)
    then show ?thesis using q r by (auto simp: ptr_rd_def ld_def)
  qed
  ultimately show ?thesis
    using q by (auto simp: ptr_wr_def st_def usr_cap_def usr_rest_def fun_eq_iff)
qed

interpretation usr: byte_buffer "ptr_rd p" "ptr_wr p" "usr_cap p n" "usr_rest p n" for p n
proof
  fix i :: nat and s :: "'a machine_scheme" and v
  assume i: "i < usr_cap p n s"
  then have "mapped p n s" "i < n" "usr_cap p n s = n"
    by (auto simp: usr_cap_def split: if_splits)
  then show "\<exists>v. ptr_rd p i s = Ok v"
    by (auto simp: mapped_def ptr_rd_def ld_def split: option.split)
  show "\<exists>s'. ptr_wr p i v s = Ok s' \<and> usr_cap p n s' = usr_cap p n s \<and>
      usr_rest p n s' = usr_rest p n s \<and>
      (\<forall>j < usr_cap p n s. ptr_rd p j s' = (if j = i then Ok v else ptr_rd p j s))"
    using ptr_wr_ok [OF \<open>mapped p n s\<close> \<open>i < n\<close>] \<open>usr_cap p n s = n\<close> by simp
qed

text \<open>\<open>memcpy\<close> of the bytes of a kernel object to a pointer.\<close>

definition copy_out :: "u32 \<Rightarrow> u8 list \<Rightarrow> 'a machine_scheme \<Rightarrow> 'a machine_scheme res" where
  "copy_out p bs s = for_loopE 0 (length bs) (\<lambda>i. ptr_wr p i (bs ! i)) s"

lemma copy_out_bytes:
  assumes "mapped p (length bs) s"
  shows "\<exists>s'. copy_out p bs s = Ok s' \<and> (\<forall>i < length bs. ptr_rd p i s' = Ok (bs ! i)) \<and>
    usr_rest p (length bs) s' = usr_rest p (length bs) s"
proof -
  have cap: "usr_cap p (length bs) s = length bs" using assms by (simp add: usr_cap_def)
  have "\<exists>s'. for_loopE 0 (length bs) (\<lambda>i. ptr_wr p i (bs ! i)) s = Ok s' \<and>
      usr.writes p (length bs) 0 (length bs) (\<lambda>i. bs ! i) s s'"
    by (rule usr.for_loopE_writes) (simp_all add: cap)
  then show ?thesis unfolding copy_out_def usr.writes_def cap by auto
qed

subsection \<open>Waiting for an interrupt\<close>

text \<open>
  \<open>while (!flag);\<close> with the handlers that run meanwhile, in order of arrival. When the list
  runs out with the flag still clear the wait goes on: \<open>Waiting\<close>.
\<close>

fun spin_until :: "('s \<Rightarrow> bool) \<Rightarrow> ('s \<Rightarrow> 's res) list \<Rightarrow> 's \<Rightarrow> 's res" where
  "spin_until c [] s = (if c s then Ok s else Err Waiting)"
| "spin_until c (h # hs) s = (if c s then Ok s else bindE (h s) (spin_until c hs))"

lemma spin_until_stop: "spin_until c hs s = Ok s' \<Longrightarrow> c s'"
  by (induction hs arbitrary: s) (auto simp: bindE_eq_Ok split: if_splits)

lemma spin_until_now: "c s \<Longrightarrow> spin_until c hs s = Ok s"
  by (cases hs) simp_all

text \<open>An invariant of the handlers holds when the wait is over.\<close>

lemma spin_until_inv:
  assumes "spin_until c hs s = Ok s'" and "P s"
    and "\<And>h t t'. h \<in> set hs \<Longrightarrow> P t \<Longrightarrow> h t = Ok t' \<Longrightarrow> P t'"
  shows "P s'"
  using assms
proof (induction hs arbitrary: s)
  case (Cons h hs)
  show ?case
  proof (cases "c s")
    case False
    then obtain t where "h s = Ok t" "spin_until c hs t = Ok s'"
      using Cons.prems(1) by (auto simp: bindE_eq_Ok)
    then show ?thesis using Cons by (meson list.set_intros)
  qed (use Cons in simp)
qed (simp split: if_splits)

text \<open>
  When the handlers before \<open>h\<close> return, one after the other, from the state where the wait begins, and
  \<open>h\<close> leaves the flag set, the wait ends.
\<close>

lemma spin_until_reaches:
  assumes "foldE (\<lambda>h. h) before s = Ok t" and "h t = Ok u" and "c u"
  shows "\<exists>s'. spin_until c (before @ h # hs) s = Ok s'"
  using assms(1)
proof (induction before arbitrary: s)
  case Nil
  then show ?case using assms(2,3) spin_until_now [of c u hs] by simp
next
  case (Cons k before)
  then show ?case by (auto simp: bindE_eq_Ok)
qed

end
