(* ===== verification/Printf.thy ===== *)
theory Printf
  imports Console Mmu
begin

text \<open>
  The kernel's formatted output (\<open>printf\<close> of \<open>lib.c\<close>): the loop over the format,
  what each conversion prints, and what it means as the text of a list of directives.
\<close>

subsection \<open>Conversions\<close>

text \<open>The bytes of a buffer up to its terminator, as \<open>puts\<close> reads them.\<close>

definition c_text :: "u8 list \<Rightarrow> u8 list res" where
  "c_text buf = bindE (strlen (\<lambda>i. arr_rd i buf)) (\<lambda>n. Ok (take n buf))"

text \<open>The two forms of \<open>%x\<close>, with \<open>conv_buf\<close> of 64 bytes.\<close>

definition hex_text :: "bool \<Rightarrow> u32 \<Rightarrow> u8 list \<Rightarrow> u8 list res" where
  "hex_text alternate value conv_buf =
     (if \<not> alternate then bindE (itoa value conv_buf 16) c_text
      else
        bindE (itoa value (drop 8 conv_buf) 16) (\<lambda>b.
        bindE (strlen (\<lambda>i. arr_rd i b)) (\<lambda>starting_index.
        let conv_buf = for_loop starting_index 8 (\<lambda>i buf. buf[i := 0x30]) (take 8 conv_buf @ b)
        in c_text (drop starting_index conv_buf))))"

definition unsigned_text :: "u32 \<Rightarrow> u8 list \<Rightarrow> u8 list res" where
  "unsigned_text value conv_buf = bindE (itoa value conv_buf 10) c_text"

definition signed_text :: "u32 \<Rightarrow> u8 list \<Rightarrow> u8 list res" where
  "signed_text value conv_buf =
     (if sint value < 0
      then bindE (itoa (- value) (drop 1 conv_buf) 10) (\<lambda>b. c_text (0x2D # b))
      else bindE (itoa value conv_buf 10) c_text)"

text \<open>
  \<open>puts\<close> of a pointer. Its index is an \<open>int32_t\<close>; a string that does not end within
  \<open>2 ^ 31\<close> bytes has no defined meaning.
\<close>

function puts_ptr :: "u32 \<Rightarrow> nat \<Rightarrow> 'a console_scheme \<Rightarrow> 'a console_scheme res" where
  "puts_ptr p i s =
     (if i < 2 ^ 31 then
        bindE (ptr_rd p i s) (\<lambda>c. if c = 0 then Ok s else puts_ptr p (Suc i) (putc c s))
      else Err Diverges)"
  by pat_completeness auto
termination by (relation "measure (\<lambda>(p, i, s). 2 ^ 31 - i)") auto

declare puts_ptr.simps [simp del]

subsection \<open>The loop\<close>

text \<open>
  \<open>rest\<close> is what the format still holds, terminator included, \<open>n\<close> is
  \<open>buf - format\<close> and \<open>k\<close> the number of arguments read; the arguments are the words
  on the stack behind the format. \<open>junk\<close> is what the conversion buffers hold before.
\<close>

fun print_from :: "(nat \<Rightarrow> u8 list) \<Rightarrow> (nat \<Rightarrow> u32) \<Rightarrow> u8 list \<Rightarrow> nat \<Rightarrow> nat \<Rightarrow> 'a console_scheme \<Rightarrow>
      (nat \<times> 'a console_scheme) res"
  and format_char :: "(nat \<Rightarrow> u8 list) \<Rightarrow> (nat \<Rightarrow> u32) \<Rightarrow> bool \<Rightarrow> u8 list \<Rightarrow> nat \<Rightarrow> nat \<Rightarrow> 'a console_scheme \<Rightarrow>
      (nat \<times> 'a console_scheme) res" where
  "print_from junk arg [] n k s = Err OutOfBounds"
| "print_from junk arg (c # rest) n k s =
     (if c = 0 then Ok (n, s)
      else if c = 0x25 then format_char junk arg False rest (Suc n) k s
      else print_from junk arg rest (Suc n) k (putc c s))"
| "format_char junk arg alternate [] n k s = Err OutOfBounds"
| "format_char junk arg alternate (c # rest) n k s =
     (if c = 0x25 then print_from junk arg rest (Suc n) k (putc 0x25 s)
      else if c = 0x23 then format_char junk arg True rest (Suc n) k s
      else if c = 0x78 then
        bindE (hex_text alternate (arg k) (take 64 (junk k))) (\<lambda>t.
        print_from junk arg rest (Suc n) (Suc k) (snd (puts t s)))
      else if c = 0x75 then
        bindE (unsigned_text (arg k) (take 36 (junk k))) (\<lambda>t.
        print_from junk arg rest (Suc n) (Suc k) (snd (puts t s)))
      else if c = 0x64 then
        bindE (signed_text (arg k) (take 36 (junk k))) (\<lambda>t.
        print_from junk arg rest (Suc n) (Suc k) (snd (puts t s)))
      else if c = 0x63 then print_from junk arg rest (Suc n) (Suc k) (putc (ucast (arg k)) s)
      else if c = 0x73 then
        bindE (puts_ptr (arg k) 0 s) (\<lambda>s. print_from junk arg rest (Suc n) (Suc k) s)
      else print_from junk arg rest (Suc n) k s)"

text \<open>The format is a literal: its bytes and the terminator.\<close>

definition printf :: "(nat \<Rightarrow> u8 list) \<Rightarrow> u8 list \<Rightarrow> (nat \<Rightarrow> u32) \<Rightarrow> 'a console_scheme \<Rightarrow>
    (nat \<times> 'a console_scheme) res" where
  "printf junk format arg s = print_from junk arg (format @ [0]) 0 0 s"

subsection \<open>Directives\<close>

datatype directive = Char u8 | Percent | Hex | PaddedHex | Unsigned | Signed | CharArg

fun spell :: "directive \<Rightarrow> u8 list" where
  "spell (Char c) = [c]"
| "spell Percent = [0x25, 0x25]"
| "spell Hex = [0x25, 0x78]"
| "spell PaddedHex = [0x25, 0x23, 0x78]"
| "spell Unsigned = [0x25, 0x75]"
| "spell Signed = [0x25, 0x64]"
| "spell CharArg = [0x25, 0x63]"

fun takes_arg :: "directive \<Rightarrow> bool" where
  "takes_arg (Char c) = False"
| "takes_arg Percent = False"
| "takes_arg d = True"

text \<open>The text of a directive for its argument.\<close>

fun text_of :: "u32 \<Rightarrow> directive \<Rightarrow> u8 list" where
  "text_of v (Char c) = [c]"
| "text_of v Percent = [0x25]"
| "text_of v Hex = number_text 16 (unat v)"
| "text_of v PaddedHex =
     (let t = number_text 16 (unat v) in replicate (8 - length t) 0x30 @ t)"
| "text_of v Unsigned = number_text 10 (unat v)"
| "text_of v Signed =
     (if sint v < 0 then 0x2D # number_text 10 (nat (- sint v)) else number_text 10 (nat (sint v)))"
| "text_of v CharArg = [ucast v]"

fun texts :: "(nat \<Rightarrow> u32) \<Rightarrow> nat \<Rightarrow> directive list \<Rightarrow> u8 list" where
  "texts arg k [] = []"
| "texts arg k (d # ds) = text_of (arg k) d @ texts arg (if takes_arg d then Suc k else k) ds"

definition directive_ok :: "directive \<Rightarrow> bool" where
  "directive_ok d \<longleftrightarrow> (case d of Char c \<Rightarrow> c \<noteq> 0 \<and> c \<noteq> 0x25 | _ \<Rightarrow> True)"

subsection \<open>Lengths of numbers\<close>

lemma number_text_length: "2 \<le> r \<Longrightarrow> v < r ^ n \<Longrightarrow> 0 < n \<Longrightarrow> length (number_text r v) \<le> n"
  using length_digits_rev [of r v n] by (simp add: number_text_def)

lemma hex_length: "length (number_text 16 (unat (v :: u32))) \<le> 8"
  using number_text_length [of 16 "unat v" 8] unat_u32_less [of v] by simp

lemma decimal_length: "length (number_text 10 (unat (v :: u32))) \<le> 10"
  using number_text_length [of 10 "unat v" 10] unat_u32_less [of v] by simp

subsection \<open>What the conversions print\<close>

lemma strlen_text: "0 \<notin> set t \<Longrightarrow> length t < 2 ^ 32 \<Longrightarrow> strlen (\<lambda>i. arr_rd i (t @ 0 # r)) = Ok (length t)"
  by (intro strlen_c_string) (auto simp: c_string_def arr_rd_def nth_append in_set_conv_nth)

lemma c_text_append: "0 \<notin> set t \<Longrightarrow> length t < 2 ^ 32 \<Longrightarrow> c_text (t @ 0 # r) = Ok t"
  by (simp add: c_text_def strlen_text)

lemma itoa_c_text:
  assumes "2 \<le> unat radix" and "unat radix \<le> 36"
    and "length (number_text (unat radix) (unat v)) < length buf"
    and "length (number_text (unat radix) (unat v)) < 2 ^ 32"
  shows "bindE (itoa v buf radix) c_text = Ok (number_text (unat radix) (unat v))"
proof -
  obtain r where r: "itoa v buf radix = Ok (number_text (unat radix) (unat v) @ 0 # r)"
    using itoa_text [OF assms(1-3)] by blast
  then show ?thesis
    using c_text_append [OF number_text_nonzero assms(4)] assms(1,2) by simp
qed

text \<open>The zeros before a number: from its length up to index 8, where the number begins.\<close>

lemma fill_zeros:
  assumes "n \<le> m" and "m \<le> length buf"
  shows "for_loop n m (\<lambda>i buf. buf[i := c]) buf = take n buf @ replicate (m - n) c @ drop m buf"
  using assms
proof (induction m rule: dec_induct)
  case (step m)
  then have "drop m buf = buf ! m # drop (Suc m) buf"
    by (intro Cons_nth_drop_Suc [symmetric]) simp
  then show ?case
    using step by (simp add: for_loop_Suc list_update_append replicate_append_same Suc_diff_le)
qed simp

lemma hex_text_plain: "64 \<le> length buf \<Longrightarrow> hex_text False v buf = Ok (text_of v Hex)"
  using hex_length [of v] itoa_c_text [of 16 v buf] by (simp add: hex_text_def)

lemma hex_text_padded:
  assumes "64 \<le> length buf"
  shows "hex_text True v buf = Ok (text_of v PaddedHex)"
proof -
  let ?t = "number_text 16 (unat v)"
  have len: "length ?t \<le> 8" by (rule hex_length)
  have nz: "0 \<notin> set ?t" by (rule number_text_nonzero) simp_all
  obtain r where r: "itoa v (drop 8 buf) 16 = Ok (?t @ 0 # r)"
    using itoa_text [of 16 v "drop 8 buf"] len assms by (auto simp: less_diff_conv)
  have str: "strlen (\<lambda>i. arr_rd i (?t @ 0 # r)) = Ok (length ?t)"
    using nz len by (intro strlen_text) simp_all
  have "for_loop (length ?t) 8 (\<lambda>i buf. buf[i := 0x30]) (take 8 buf @ ?t @ 0 # r) =
      take (length ?t) buf @ replicate (8 - length ?t) 0x30 @ ?t @ 0 # r"
    using len assms by (subst fill_zeros) (simp_all add: min_def)
  then have "drop (length ?t) (for_loop (length ?t) 8 (\<lambda>i buf. buf[i := 0x30]) (take 8 buf @ ?t @ 0 # r)) =
      (replicate (8 - length ?t) 0x30 @ ?t) @ 0 # r"
    using len assms by simp
  moreover have "c_text ((replicate (8 - length ?t) 0x30 @ ?t) @ 0 # r) = Ok (replicate (8 - length ?t) 0x30 @ ?t)"
    using nz len by (intro c_text_append) auto
  ultimately show ?thesis using r str by (simp add: hex_text_def Let_def)
qed

lemma unsigned_text_eq: "36 \<le> length buf \<Longrightarrow> unsigned_text v buf = Ok (text_of v Unsigned)"
  using decimal_length [of v] itoa_c_text [of 10 v buf] by (simp add: unsigned_text_def)

text \<open>The sign of a word, in terms of its unsigned value.\<close>

lemma sint_split: "sint (v :: u32) = (if unat v < 2 ^ 31 then int (unat v) else int (unat v) - 2 ^ 32)"
proof -
  have u: "0 \<le> uint v" "uint v < 2 ^ 32" "uint v = int (unat v)"
    using unsigned_less [of v, where ?'a = int] by simp_all
  have "sint v = (uint v + 2 ^ 31) mod 2 ^ 32 - 2 ^ 31"
    by (simp add: sint_uint signed_take_bit_eq_take_bit_shift take_bit_eq_mod)
  moreover have "(uint v + 2 ^ 31) mod 2 ^ 32 = uint v + 2 ^ 31" if "uint v < 2 ^ 31"
    using u(1) that by (intro mod_pos_pos_trivial) simp_all
  moreover have "(uint v + 2 ^ 31) mod 2 ^ 32 = uint v - 2 ^ 31" if "\<not> uint v < 2 ^ 31"
  proof -
    have "(uint v + 2 ^ 31) mod 2 ^ 32 = (uint v + 2 ^ 31 - 2 ^ 32) mod 2 ^ 32"
      by (simp only: minus_mod_self2)
    also have "\<dots> = uint v + 2 ^ 31 - 2 ^ 32"
      using u(2) that by (intro mod_pos_pos_trivial) simp_all
    finally show ?thesis by simp
  qed
  moreover have "unat v < 2 ^ 31 \<longleftrightarrow> uint v < 2 ^ 31" unfolding u(3)
    by (metis of_nat_less_iff of_nat_numeral of_nat_power)
  ultimately show ?thesis by simp
qed

lemma unat_minus_u32: "unat (- v :: u32) = (if v = 0 then 0 else 2 ^ 32 - unat v)"
proof (cases "v = 0")
  case False
  then have "0 < unat v" "unat v < 2 ^ 32" using unat_u32_less [of v] by (simp_all add: unat_gt_0)
  then have "of_nat (2 ^ 32 - unat v) = (of_nat (2 ^ 32) - v :: u32)"
    by (subst of_nat_diff) simp_all
  moreover have "(of_nat (2 ^ 32) :: u32) = 0" by simp
  ultimately have "- v = of_nat (2 ^ 32 - unat v)" by simp
  then show ?thesis
    using False \<open>0 < unat v\<close> by (simp only: if_False) (rule unat_of_nat_u32, simp)
qed simp

lemma signed_text_eq:
  assumes "36 \<le> length buf"
  shows "signed_text v buf = Ok (text_of v Signed)"
proof (cases "sint v < 0")
  case True
  let ?t = "number_text 10 (unat (- v))"
  have neg: "nat (- sint v) = unat (- v)"
  proof -
    have "\<not> unat v < 2 ^ 31" "unat v < 2 ^ 32"
      using True unat_u32_less [of v] by (simp_all add: sint_split split: if_splits)
    then have "nat (- sint v) = nat (2 ^ 32 - int (unat v))" "v \<noteq> 0" by (auto simp: sint_split)
    moreover have "nat (2 ^ 32 - int k) = 2 ^ 32 - k" for k by (simp add: nat_diff_distrib nat_power_eq)
    ultimately show ?thesis by (simp only: unat_minus_u32 if_False)
  qed
  obtain r where r: "itoa (- v) (drop 1 buf) 10 = Ok (?t @ 0 # r)"
    using itoa_text [of 10 "- v" "drop 1 buf"] decimal_length [of "- v"] assms
    by (auto simp: less_diff_conv)
  have "0 \<notin> set (0x2D # ?t)" using number_text_nonzero [of 10] by simp
  then have "c_text ((0x2D # ?t) @ 0 # r) = Ok (0x2D # ?t)"
    using decimal_length [of "- v"] by (intro c_text_append) auto
  then show ?thesis using True r by (simp add: signed_text_def neg)
next
  case False
  then have "nat (sint v) = unat v"
    using unat_u32_less [of v] unsigned_less [of v, where ?'a = int] by (auto simp: sint_split split: if_splits)
  then show ?thesis
    using False decimal_length [of v] itoa_c_text [of 10 v buf] assms by (simp add: signed_text_def)
qed

subsection \<open>The loop prints the texts\<close>

lemma print_directive:
  assumes "directive_ok d" and "64 \<le> length (junk k)"
  shows "print_from junk arg (spell d @ rest) n k s =
    print_from junk arg rest (n + length (spell d)) (if takes_arg d then Suc k else k)
      (fold putc (text_of (arg k) d) s)"
  using assms
  by (cases d) (simp_all add: directive_ok_def hex_text_plain hex_text_padded unsigned_text_eq signed_text_eq
      puts_def del: text_of.simps(3-6))

lemma print_directives:
  assumes "list_all directive_ok ds" and "\<forall>i. 64 \<le> length (junk i)"
  shows "print_from junk arg (concat (map spell ds) @ [0]) n k s =
    Ok (n + length (concat (map spell ds)), fold putc (texts arg k ds) s)"
  using assms(1)
proof (induction ds arbitrary: n k s)
  case (Cons d ds)
  then show ?case using assms(2) by (simp add: print_directive)
qed simp

lemma printf_texts:
  assumes "list_all directive_ok ds" and "\<forall>i. 64 \<le> length (junk i)"
  shows "printf junk (concat (map spell ds)) arg s =
    Ok (length (concat (map spell ds)), fold putc (texts arg 0 ds) s)"
  by (simp add: printf_def print_directives [OF assms])

text \<open>A format that ends in a percent sign is read beyond its terminator.\<close>

lemma printf_overrun:
  assumes "list_all directive_ok ds" and "\<forall>i. 64 \<le> length (junk i)"
  shows "printf junk (concat (map spell ds) @ [0x25]) arg s = Err OutOfBounds"
proof -
  have "print_from junk arg (concat (map spell ds) @ [0x25, 0]) n k s = Err OutOfBounds" for n k
    using assms(1)
  proof (induction ds arbitrary: n k s)
    case (Cons d ds)
    then show ?case using assms(2) by (simp add: print_directive)
  qed simp
  then show ?thesis by (simp add: printf_def)
qed

text \<open>Padded numbers have eight digits and read back as their value.\<close>

lemma padded_hex:
  "length (text_of v PaddedHex) = 8" "read_number 16 (text_of v PaddedHex) = unat v"
proof -
  let ?t = "number_text 16 (unat v)"
  show "length (text_of v PaddedHex) = 8" using hex_length [of v] by (simp add: Let_def)
  have zero: "digit_value itoa_lookup 0x30 = 0" by (simp add: itoa_lookup_def)
  have "foldl (\<lambda>acc c. acc * 16 + digit_value itoa_lookup c) 0 (replicate n 0x30) = 0" for n
    by (induction n) (simp_all add: zero)
  then show "read_number 16 (text_of v PaddedHex) = unat v"
    using read_number_text [of 16 "unat v"] by (simp add: Let_def read_number_def)
qed

text \<open>A string argument outside what the console writes.\<close>

lemma puts_ptr_text:
  assumes "\<forall>i < length t. t ! i \<noteq> 0" and "length t < 2 ^ 31" and "j \<le> length t"
    and "\<And>i cs. i \<le> length t \<Longrightarrow> ptr_rd p i (fold putc cs s) = Ok ((t @ [0]) ! i)"
  shows "puts_ptr p j (fold putc (take j t) s) = Ok (fold putc t s)"
  using assms(3)
proof (induction j rule: inc_induct)
  case base
  then show ?case using assms(2) assms(4) [of "length t" t] by (simp add: puts_ptr.simps nth_append)
next
  case (step j)
  have "take (Suc j) t = take j t @ [t ! j]" using step by (simp add: take_Suc_conv_app_nth)
  then show ?case
    using step assms(1,2) assms(4) [of j "take j t"] by (subst puts_ptr.simps) (simp add: nth_append)
qed

subsection \<open>Only the screen is written\<close>

lemma quiet_puts [simp]: "quiet (snd (puts str s)) = quiet s"
  unfolding puts_def by (induction str arbitrary: s) simp_all

lemma quiet_puts_ptr: "puts_ptr p i s = Ok s' \<Longrightarrow> quiet s' = quiet s"
proof (induction p i s arbitrary: s' rule: puts_ptr.induct)
  case (1 p i s)
  show ?case
  proof (cases "i < 2 ^ 31")
    case True
    then obtain c where c: "ptr_rd p i s = Ok c"
      "(if c = 0 then Ok s else puts_ptr p (Suc i) (putc c s)) = Ok s'"
      using "1.prems" by (subst (asm) puts_ptr.simps) (auto simp: bindE_eq_Ok)
    then show ?thesis using "1.IH" [OF True, of c s'] by (auto split: if_splits)
  next
    case False
    then show ?thesis using "1.prems" by (subst (asm) puts_ptr.simps) simp
  qed
qed

lemma format_char_step:
  assumes "format_char junk arg alt (c # rest) n k s = Ok (r, s')"
  shows "format_char junk arg True rest (Suc n) k s = Ok (r, s') \<or>
    (\<exists>k' t. quiet t = quiet s \<and> print_from junk arg rest (Suc n) k' t = Ok (r, s'))"
proof -
  consider "c = 0x25" | "c = 0x23" | "c = 0x78" | "c = 0x75" | "c = 0x64" | "c = 0x63" | "c = 0x73"
    | "c \<notin> {0x25, 0x23, 0x78, 0x75, 0x64, 0x63, 0x73}" by blast
  then show ?thesis
  proof cases
    case 7
    with assms obtain t where t: "puts_ptr (arg k) 0 s = Ok t" "print_from junk arg rest (Suc n) (Suc k) t = Ok (r, s')"
      by (auto simp: bindE_eq_Ok)
    from quiet_puts_ptr [OF t(1)] t(2) show ?thesis by blast
  next
    case 1
    with assms have "print_from junk arg rest (Suc n) k (putc 0x25 s) = Ok (r, s')" by simp
    then show ?thesis using quiet_putc by blast
  next
    case 2
    with assms show ?thesis by simp
  next
    case 3
    with assms obtain t where "print_from junk arg rest (Suc n) (Suc k) (snd (puts t s)) = Ok (r, s')"
      by (auto simp: bindE_eq_Ok)
    then show ?thesis using quiet_puts by blast
  next
    case 4
    with assms obtain t where "print_from junk arg rest (Suc n) (Suc k) (snd (puts t s)) = Ok (r, s')"
      by (auto simp: bindE_eq_Ok)
    then show ?thesis using quiet_puts by blast
  next
    case 5
    with assms obtain t where "print_from junk arg rest (Suc n) (Suc k) (snd (puts t s)) = Ok (r, s')"
      by (auto simp: bindE_eq_Ok)
    then show ?thesis using quiet_puts by blast
  next
    case 6
    with assms have "print_from junk arg rest (Suc n) (Suc k) (putc (ucast (arg k)) s) = Ok (r, s')" by simp
    then show ?thesis using quiet_putc by blast
  next
    case 8
    with assms have "print_from junk arg rest (Suc n) k s = Ok (r, s')" by simp
    then show ?thesis by blast
  qed
qed
lemma quiet_print_list:
  "(\<forall>n k (s :: 'a console_scheme) r s'. print_from junk arg rest n k s = Ok (r, s') \<longrightarrow> quiet s' = quiet s) \<and>
   (\<forall>alt n k (s :: 'a console_scheme) r s'. format_char junk arg alt rest n k s = Ok (r, s') \<longrightarrow> quiet s' = quiet s)"
proof (induction rest)
  case (Cons c rest)
  have "quiet s' = quiet s" if "format_char junk arg alt (c # rest) n k s = Ok (r, s')"
    for alt n k r and s s' :: "'a console_scheme"
    using format_char_step [OF that]
  proof
    assume "format_char junk arg True rest (Suc n) k s = Ok (r, s')"
    then show ?thesis using Cons by blast
  next
    assume "\<exists>k' t. quiet t = quiet s \<and> print_from junk arg rest (Suc n) k' t = Ok (r, s')"
    then obtain k' t where t: "quiet t = quiet s" "print_from junk arg rest (Suc n) k' t = Ok (r, s')" by blast
    from t(2) have "quiet s' = quiet t" using Cons by blast
    with t(1) show ?thesis by simp
  qed
  moreover have "quiet s' = quiet s" if "print_from junk arg (c # rest) n k s = Ok (r, s')"
    for n k r and s s' :: "'a console_scheme"
  proof -
    consider "c = 0" | "c = 0x25" | "c \<noteq> 0" "c \<noteq> 0x25" by blast
    then show ?thesis
    proof cases
      case 1
      then show ?thesis using that by simp
    next
      case 2
      then have "format_char junk arg False rest (Suc n) k s = Ok (r, s')" using that by simp
      then show ?thesis using Cons by blast
    next
      case 3
      then have "print_from junk arg rest (Suc n) k (putc c s) = Ok (r, s')" using that by simp
      then have "quiet s' = quiet (putc c s)" using Cons by blast
      then show ?thesis by simp
    qed
  qed
  ultimately show ?case by blast
qed simp

lemma quiet_printf: "printf junk format arg s = Ok (r, s') \<Longrightarrow> quiet s' = quiet s"
  using quiet_print_list unfolding printf_def by blast

end
