(* ===== verification/Rtc.thy ===== *)
theory Rtc
  imports Console Mmu
begin

text \<open>
  The real-time clock driver (\<open>rtc.c\<close>). The device is an index port and a data port over a
  file of registers; initialisation and rate changes are read-modify-write cycles on registers
  A and B, done with the non-maskable interrupt disabled in bit 7 of the index port.
\<close>

abbreviation RTC :: u32 where "RTC \<equiv> 8"
abbreviation RTC_INDEX :: u16 where "RTC_INDEX \<equiv> 0x70"
abbreviation RTC_DATA :: u16 where "RTC_DATA \<equiv> 0x71"
abbreviation STATUS_A :: u32 where "STATUS_A \<equiv> 0x0a"
abbreviation STATUS_B :: u32 where "STATUS_B \<equiv> 0x0b"
abbreviation STATUS_C :: u32 where "STATUS_C \<equiv> 0x0c"
abbreviation NMI_DISABLE :: u32 where "NMI_DISABLE \<equiv> 0x80"
abbreviation INT_ON :: u32 where "INT_ON \<equiv> 0x40"
abbreviation RATE_MASK :: u32 where "RATE_MASK \<equiv> 0xF0"
abbreviation TWO_HZ :: u32 where "TWO_HZ \<equiv> 0x0F"
abbreviation FREQ_MIN :: int where "FREQ_MIN \<equiv> 2"
abbreviation FREQ_MAX :: int where "FREQ_MAX \<equiv> 1024"
abbreviation THEORY_MAX :: int where "THEORY_MAX \<equiv> 32768"
abbreviation LOW :: int where "LOW \<equiv> 0"
abbreviation HIGH :: int where "HIGH \<equiv> 1"

subsection \<open>State and operations\<close>

record rtc = console +
  int_flag :: int

text \<open>The value read from the data port is kept in a \<open>char\<close>, so it is sign-extended when used.\<close>

definition sext8 :: "u32 \<Rightarrow> u32" where
  "sext8 v = scast (ucast v :: u8)"

definition rtc_init :: "'a machine_scheme \<Rightarrow> 'a machine_scheme" where
  "rtc_init s =
     (let s = outb (NMI_DISABLE OR STATUS_B) RTC_INDEX s;
          (prev, s) = inb RTC_DATA s;
          s = outb (NMI_DISABLE OR STATUS_B) RTC_INDEX s;
          s = outb (sext8 prev OR INT_ON) RTC_DATA s
      in outb STATUS_B RTC_INDEX s)"

definition rtc_handler :: "'a rtc_scheme \<Rightarrow> 'a rtc_scheme" where
  "rtc_handler s =
     (let s = sti s;
          s = enable_irq RTC s;
          s = s\<lparr>int_flag := HIGH\<rparr>;
          s = outb STATUS_C RTC_INDEX s;
          (_, s) = inb RTC_DATA s
      in send_eoi RTC s)"

definition rtc_open :: "'a machine_scheme \<Rightarrow> int \<times> 'a machine_scheme" where
  "rtc_open s =
     (let s = rtc_init s;
          s = outb (NMI_DISABLE OR STATUS_A) RTC_INDEX s;
          (prev, s) = inb RTC_DATA s;
          s = outb (NMI_DISABLE OR STATUS_A) RTC_INDEX s;
          s = outb ((sext8 prev AND RATE_MASK) OR TWO_HZ) RTC_DATA s;
          s = outb STATUS_B RTC_INDEX s
      in (0, s))"

text \<open>The interrupts that arrive while \<open>rtc_read\<close> spins are its first argument.\<close>

definition rtc_read ::
    "('a rtc_scheme \<Rightarrow> 'a rtc_scheme res) list \<Rightarrow> 'a rtc_scheme \<Rightarrow> (int \<times> 'a rtc_scheme) res" where
  "rtc_read irqs s =
     (let s = sti s in
      bindE (spin_until (\<lambda>s. int_flag s = HIGH) irqs s) (\<lambda>s.
      Ok (0, s\<lparr>int_flag := LOW\<rparr>)))"

text \<open>
  The loop halves \<open>temp\<close> until it is 1. From a value below 1 it would count
  \<open>rate\<close> up for ever.
\<close>

function rate_loop :: "int \<Rightarrow> int \<Rightarrow> int res" where
  "rate_loop temp rate =
     (if temp = 1 then Ok rate
      else if temp \<le> 0 then Err Diverges
      else rate_loop (temp sdiv 2) (rate + 1))"
  by pat_completeness auto
termination
  by (relation "measure (\<lambda>(temp, rate). nat temp)") (auto simp: signed_divide_int_def)

declare rate_loop.simps [simp del]

definition rtc_write :: "u32 \<Rightarrow> 'a rtc_scheme \<Rightarrow> (int \<times> 'a rtc_scheme) res" where
  "rtc_write buf s =
     bindE (ld buf s) (\<lambda>b.
       let frequency = sint b in
       if frequency < FREQ_MIN \<or> frequency > FREQ_MAX then
         Ok (-1, snd (printk (bytes_of ''Invalid frequency. Outside range.\<newline>'') s))
       else if frequency AND (frequency - 1) \<noteq> 0 then
         Ok (-1, snd (printk (bytes_of ''Invalid frequency. Not a power of two.\<newline>'') s))
       else
         bindE (rate_loop (THEORY_MAX sdiv frequency) 1) (\<lambda>rate.
         let s = outb (NMI_DISABLE OR STATUS_A) RTC_INDEX s;
             (prev, s) = inb RTC_DATA s;
             s = outb (NMI_DISABLE OR STATUS_A) RTC_INDEX s;
             s = outb ((sext8 prev AND RATE_MASK) OR word_of_int rate) RTC_DATA s;
             s = outb STATUS_B RTC_INDEX s
         in Ok (0, s)))"

definition rtc_close :: "int \<Rightarrow> int" where
  "rtc_close fd = 0"

subsection \<open>The device\<close>

text \<open>
  The documented behaviour: a write to the index port selects a register (bit 7 is not part of
  the index), a write to the data port sets the selected register, and a read of the data port
  returns it. Registers A and B keep what was written, except the read-only bit 7 of register A.
\<close>

fun rtc_cell :: "u32 \<times> (u32 \<Rightarrow> u32) \<Rightarrow> io_event \<Rightarrow> u32 \<times> (u32 \<Rightarrow> u32)" where
  "rtc_cell (i, r) (Out w p v) =
     (if w = 8 \<and> p = RTC_INDEX then (v AND 0x7F, r)
      else if w = 8 \<and> p = RTC_DATA then (i, r(i := v))
      else (i, r))"
| "rtc_cell ir (In w p v) = ir"

definition rtc_regs :: "(u32 \<Rightarrow> u32) \<Rightarrow> io_event list \<Rightarrow> u32 \<times> (u32 \<Rightarrow> u32)" where
  "rtc_regs r0 log = foldl rtc_cell (0, r0) log"

definition rtc_device :: "(u32 \<Rightarrow> u32) \<Rightarrow> (io_event list \<Rightarrow> nat \<Rightarrow> u16 \<Rightarrow> u32) \<Rightarrow> bool" where
  "rtc_device r0 d \<longleftrightarrow>
     (\<forall>log. let (i, r) = rtc_regs r0 log in
        (i = STATUS_A \<longrightarrow> take_bit 7 (d log 8 RTC_DATA) = take_bit 7 (r STATUS_A)) \<and>
        (i = STATUS_B \<longrightarrow> take_bit 8 (d log 8 RTC_DATA) = take_bit 8 (r STATUS_B)))"

definition rtc_reg :: "(u32 \<Rightarrow> u32) \<Rightarrow> u32 \<Rightarrow> 'a machine_scheme \<Rightarrow> u32" where
  "rtc_reg r0 k s = snd (rtc_regs r0 (io_log s)) k"

subsection \<open>Register updates\<close>

text \<open>The cycle that initialisation, \<open>open\<close> and \<open>write\<close> share.\<close>

definition rtc_rmw :: "u32 \<Rightarrow> (u32 \<Rightarrow> u32) \<Rightarrow> 'a machine_scheme \<Rightarrow> 'a machine_scheme" where
  "rtc_rmw k g s =
     (let s = outb (NMI_DISABLE OR k) RTC_INDEX s;
          (prev, s) = inb RTC_DATA s;
          s = outb (NMI_DISABLE OR k) RTC_INDEX s;
          s = outb (g prev) RTC_DATA s
      in outb STATUS_B RTC_INDEX s)"

lemma rtc_init_rmw: "rtc_init s = rtc_rmw STATUS_B (\<lambda>p. sext8 p OR INT_ON) s"
  by (simp add: rtc_init_def rtc_rmw_def)

lemma rtc_open_rmw:
  "rtc_open s = (0, rtc_rmw STATUS_A (\<lambda>p. (sext8 p AND RATE_MASK) OR TWO_HZ) (rtc_init s))"
  by (simp add: rtc_open_def rtc_rmw_def Let_def split: prod.split)

lemma rtc_rmw_frame [frame_simps]:
  "mem (rtc_rmw k g s) = mem s" "dev (rtc_rmw k g s) = dev s"
  "machine.more (rtc_rmw k g s) = machine.more s"
  by (simp_all add: rtc_rmw_def Let_def frame_simps split: prod.split)
    (simp_all add: inb_def port_in_def outb_def port_out_def Let_def)

lemma rtc_regs_append [simp]: "rtc_regs r0 (l @ es) = foldl rtc_cell (rtc_regs r0 l) es"
  by (simp add: rtc_regs_def)

text \<open>What the cycle reads is the old register, and it changes that register alone.\<close>

lemma rtc_rmw_reg:
  assumes "rtc_device r0 (dev s)" and "k = STATUS_A \<or> k = STATUS_B"
  shows "\<exists>v. take_bit 7 v = take_bit 7 (rtc_reg r0 k s) \<and>
    (k = STATUS_B \<longrightarrow> take_bit 8 v = take_bit 8 (rtc_reg r0 k s)) \<and>
    snd (rtc_regs r0 (io_log (rtc_rmw k g s))) =
      (snd (rtc_regs r0 (io_log s)))(k := take_bit 8 (g v))"
proof -
  define s1 where "s1 = outb (NMI_DISABLE OR k) RTC_INDEX s"
  define v where "v = fst (inb RTC_DATA s1)"
  obtain i r where ir: "rtc_regs r0 (io_log s) = (i, r)" by force
  have s1: "rtc_regs r0 (io_log s1) = (k, r)" "dev s1 = dev s"
    using assms(2) ir by (auto simp: s1_def frame_simps)
  have v: "v = take_bit 8 (dev s1 (io_log s1) 8 RTC_DATA)"
    by (simp add: v_def fst_inb)
  have law: "(k = STATUS_A \<longrightarrow> take_bit 7 (dev s1 (io_log s1) 8 RTC_DATA) = take_bit 7 (r STATUS_A)) \<and>
      (k = STATUS_B \<longrightarrow> take_bit 8 (dev s1 (io_log s1) 8 RTC_DATA) = take_bit 8 (r STATUS_B))"
    using spec [OF assms(1) [unfolded rtc_device_def], of "io_log s1"] s1 by simp
  have "take_bit 7 v = take_bit 7 (dev s1 (io_log s1) 8 RTC_DATA)"
    by (simp add: v)
  also have "\<dots> = take_bit 7 (rtc_reg r0 k s)"
  proof (cases "k = STATUS_A")
    case True
    then show ?thesis using law ir by (simp add: rtc_reg_def)
  next
    case False
    then have "take_bit 8 (dev s1 (io_log s1) 8 RTC_DATA) = take_bit 8 (r STATUS_B)"
      using assms(2) law by simp
    then have "take_bit 7 (take_bit 8 (dev s1 (io_log s1) 8 RTC_DATA)) = take_bit 7 (take_bit 8 (r STATUS_B))"
      by (rule arg_cong)
    then show ?thesis using False assms(2) ir by (simp add: rtc_reg_def)
  qed
  finally have v7: "take_bit 7 v = take_bit 7 (rtc_reg r0 k s)" .
  have v8: "k = STATUS_B \<longrightarrow> take_bit 8 v = take_bit 8 (rtc_reg r0 k s)"
    using law ir by (auto simp: rtc_reg_def v)
  have "snd (rtc_regs r0 (io_log (rtc_rmw k g s))) = r(k := take_bit 8 (g v))"
    using assms(2) ir unfolding rtc_rmw_def s1_def [symmetric]
    using s1 by (auto simp: Let_def case_prod_unfold v_def)
  with v7 v8 ir show ?thesis by auto
qed

text \<open>Opening the clock selects its lowest rate and enables its interrupt; nothing else changes.\<close>

lemma sext8_low: "take_bit 8 (sext8 v) = take_bit 8 v"
  unfolding sext8_def by (rule bit_word_eqI) (auto simp: bit_simps)

lemma take_bit_7_8: "take_bit 7 (take_bit 8 (x :: u32)) = take_bit 7 x"
  by simp

lemma rtc_open_regs:
  assumes "rtc_device r0 (dev s)"
  shows "let s' = snd (rtc_open s) in
    rtc_reg r0 STATUS_B s' = take_bit 8 (rtc_reg r0 STATUS_B s) OR INT_ON \<and>
    take_bit 7 (rtc_reg r0 STATUS_A s') = (take_bit 7 (rtc_reg r0 STATUS_A s) AND 0x70) OR TWO_HZ \<and>
    (\<forall>k. k \<noteq> STATUS_A \<and> k \<noteq> STATUS_B \<longrightarrow> rtc_reg r0 k s' = rtc_reg r0 k s)"
proof -
  let ?gB = "\<lambda>p. sext8 p OR INT_ON" and ?gA = "\<lambda>p. (sext8 p AND RATE_MASK) OR TWO_HZ"
  let ?s1 = "rtc_rmw STATUS_B ?gB s"
  obtain v where v: "take_bit 8 v = take_bit 8 (rtc_reg r0 STATUS_B s)"
    and B: "snd (rtc_regs r0 (io_log ?s1)) = (snd (rtc_regs r0 (io_log s)))(STATUS_B := take_bit 8 (?gB v))"
    using rtc_rmw_reg [OF assms, of STATUS_B ?gB] by auto
  have "rtc_device r0 (dev ?s1)" using assms by (simp add: frame_simps)
  then obtain w where w: "take_bit 7 w = take_bit 7 (rtc_reg r0 STATUS_A ?s1)"
    and A: "snd (rtc_regs r0 (io_log (rtc_rmw STATUS_A ?gA ?s1))) =
      (snd (rtc_regs r0 (io_log ?s1)))(STATUS_A := take_bit 8 (?gA w))"
    using rtc_rmw_reg [of r0 ?s1 STATUS_A ?gA] by auto
  have s': "snd (rtc_open s) = rtc_rmw STATUS_A ?gA ?s1"
    by (simp add: rtc_open_rmw rtc_init_rmw)
  have "take_bit 8 (?gB v) = take_bit 8 v OR INT_ON"
    using sext8_low [of v] by (simp add: take_bit_or)
  moreover have "take_bit 7 (take_bit 8 (?gA w)) = (take_bit 7 w AND 0x70) OR TWO_HZ"
  proof -
    have "take_bit 7 (take_bit 8 (?gA w)) = (take_bit 7 (take_bit 8 (sext8 w)) AND 0x70) OR TWO_HZ"
      by (simp add: take_bit_or take_bit_and)
    then show ?thesis by (simp add: sext8_low del: take_bit_take_bit) simp
  qed
  ultimately show ?thesis
    using A B v w by (simp add: Let_def s' rtc_reg_def)
qed

subsection \<open>Rates\<close>

lemma sint_u8_range: "- 128 \<le> sint (b :: u8) \<and> sint b \<le> 127"
  using sint_greater_eq [of b] sint_less [of b] by simp

lemma power_of_two_byte:
  assumes "2 \<le> f" and "f \<le> 127"
  shows "f AND (f - 1) = 0 \<longleftrightarrow> f \<in> {2, 4, 8, 16, 32, 64 :: int}"
proof -
  have "\<forall>f \<in> set [2..127]. (f AND (f - 1) = 0) = (f \<in> set [2, 4, 8, 16, 32, 64 :: int])"
    by code_simp
  moreover have "f \<in> set [2..127]" using assms by (simp only: set_upto) simp
  ultimately have "(f AND (f - 1) = 0) = (f \<in> set [2, 4, 8, 16, 32, 64 :: int])" by (rule bspec)
  then show ?thesis by simp
qed

lemma rate_of_frequency:
  assumes "f \<in> {2, 4, 8, 16, 32, 64 :: int}"
  shows "\<exists>rate. rate_loop (THEORY_MAX sdiv f) 1 = Ok (int rate) \<and> 1 \<le> rate \<and> rate \<le> 15 \<and>
    f * 2 ^ (rate - 1) = THEORY_MAX"
proof -
  have "rate_loop (THEORY_MAX sdiv 2) 1 = Ok (int 15)" "rate_loop (THEORY_MAX sdiv 4) 1 = Ok (int 14)"
    "rate_loop (THEORY_MAX sdiv 8) 1 = Ok (int 13)" "rate_loop (THEORY_MAX sdiv 16) 1 = Ok (int 12)"
    "rate_loop (THEORY_MAX sdiv 32) 1 = Ok (int 11)" "rate_loop (THEORY_MAX sdiv 64) 1 = Ok (int 10)"
    by (simp_all add: rate_loop.simps signed_divide_int_def)
  with assms show ?thesis by (elim insertE; force)
qed

text \<open>An accepted frequency programs its rate into the low bits of register A.\<close>

lemma rtc_write_accepts:
  assumes "ld buf s = Ok b" and "sint b \<in> {2, 4, 8, 16, 32, 64}" and "rtc_device r0 (dev s)"
  shows "\<exists>s' rate. rtc_write buf s = Ok (0, s') \<and> 1 \<le> rate \<and> rate \<le> 15 \<and>
    sint b * 2 ^ (rate - 1) = THEORY_MAX \<and>
    take_bit 7 (rtc_reg r0 STATUS_A s') = (take_bit 7 (rtc_reg r0 STATUS_A s) AND 0x70) OR of_nat rate \<and>
    (\<forall>k. k \<noteq> STATUS_A \<longrightarrow> rtc_reg r0 k s' = rtc_reg r0 k s) \<and> mem s' = mem s"
proof -
  obtain rate where rate: "rate_loop (THEORY_MAX sdiv sint b) 1 = Ok (int rate)" "1 \<le> rate" "rate \<le> 15"
      "sint b * 2 ^ (rate - 1) = THEORY_MAX"
    using rate_of_frequency [OF assms(2)] by blast
  let ?g = "\<lambda>p. (sext8 p AND RATE_MASK) OR of_nat rate"
  have range: "2 \<le> sint b" "sint b \<le> 127" "sint b AND (sint b - 1) = 0"
    using assms(2) power_of_two_byte [of "sint b"] by auto
  have run: "rtc_write buf s = Ok (0, rtc_rmw STATUS_A ?g s)"
    using assms(1) range rate(1) by (simp add: rtc_write_def rtc_rmw_def Let_def split: prod.split)
  obtain v where v: "take_bit 7 v = take_bit 7 (rtc_reg r0 STATUS_A s)"
    and A: "snd (rtc_regs r0 (io_log (rtc_rmw STATUS_A ?g s))) =
      (snd (rtc_regs r0 (io_log s)))(STATUS_A := take_bit 8 (?g v))"
    using rtc_rmw_reg [OF assms(3), of STATUS_A ?g] by auto
  have small: "take_bit 7 (of_nat rate :: u32) = of_nat rate"
    using rate(3) by (simp add: take_bit_of_nat take_bit_nat_eq_self)
  have "take_bit 7 (take_bit 8 (?g v)) =
      (take_bit 7 (take_bit 8 (sext8 v)) AND take_bit 7 RATE_MASK) OR take_bit 7 (of_nat rate)"
    by (simp add: take_bit_or take_bit_and)
  also have "\<dots> = (take_bit 7 v AND 0x70) OR of_nat rate"
    by (simp add: sext8_low small del: take_bit_take_bit) simp
  finally show ?thesis
    using run A v rate range by (intro exI [of _ "rtc_rmw STATUS_A ?g s"] exI [of _ rate])
      (simp add: rtc_reg_def frame_simps)
qed

text \<open>Everything else is refused, and the clock is not touched.\<close>

lemma rtc_write_rejects:
  assumes "ld buf s = Ok b" and "sint b \<notin> {2, 4, 8, 16, 32, 64}"
  shows "\<exists>s'. rtc_write buf s = Ok (-1, s') \<and> io_log s' = io_log s"
proof -
  have "sint b < FREQ_MIN \<or> sint b > FREQ_MAX \<or> sint b AND (sint b - 1) \<noteq> 0"
    using assms(2) power_of_two_byte [of "sint b"] sint_u8_range [of b] by auto
  then show ?thesis
    using assms(1) by (auto simp: rtc_write_def Let_def frame_simps)
qed

text \<open>
  \<open>rtc_read\<close> returns as soon as one tick has been delivered, whatever else happens meanwhile,
  and consumes it.
\<close>

lemma rtc_handler_flag: "int_flag (rtc_handler s) = HIGH"
  by (simp add: rtc_handler_def Let_def send_eoi_def outb_def port_out_def inb_def port_in_def)

lemma rtc_read_returns:
  assumes "foldE (\<lambda>h. h) before (sti s) = Ok t"
  shows "\<exists>s'. rtc_read (before @ (\<lambda>s. Ok (rtc_handler s)) # after) s = Ok (0, s') \<and> int_flag s' = LOW"
proof -
  have "\<exists>s'. spin_until (\<lambda>s. int_flag s = HIGH) (before @ (\<lambda>s. Ok (rtc_handler s)) # after) (sti s) = Ok s'"
    by (rule spin_until_reaches [OF assms refl]) (rule rtc_handler_flag)
  then show ?thesis by (auto simp: rtc_read_def)
qed

text \<open>A tick that arrived before the call is not discarded: the call then does not wait at all.\<close>

lemma rtc_read_stale_tick:
  "int_flag s = HIGH \<Longrightarrow> \<exists>s'. rtc_read [] s = Ok (0, s') \<and> int_flag s' = LOW"
  by (simp add: rtc_read_def sti_def)

end
