(* ===== verification/Filesys.thy ===== *)
theory Filesys
  imports Mmu Rtc
begin

text \<open>
  The read-only file system (\<open>filesys.c\<close>): a boot block with the directory, an array of
  inode blocks and an array of data blocks, all 4KB, in the memory the boot loader left them in.
  The routines here are the ones below the file descriptors.

  A routine reads the image with ordinary loads while it writes a buffer of its caller. Both are
  arguments: \<open>img b\<close> loads a byte, in a store \<open>b\<close>, and \<open>wr\<close> stores the
  \<open>i\<close>-th byte of the destination. The contract they need is the locale \<open>fs_reader\<close>:
  the destination is a byte buffer, and storing into it does not change the image.
\<close>

abbreviation NAME_SIZE :: nat where "NAME_SIZE \<equiv> 32"
abbreviation MAX_DATA_NUM :: u32 where "MAX_DATA_NUM \<equiv> 1023"
abbreviation MAX_FILES :: nat where "MAX_FILES \<equiv> 63"
abbreviation BLOCK_SIZE :: u32 where "BLOCK_SIZE \<equiv> 4096"

subsection \<open>Layout of the image\<close>

text \<open>The globals \<open>boot\<close> and \<open>data\<close> hold addresses.\<close>

record fs = rtc +
  boot :: u32
  data :: u32

type_synonym loader = "u32 \<Rightarrow> u8 res"

definition load32 :: "loader \<Rightarrow> u32 \<Rightarrow> u32 res" where
  "load32 l a =
     bindE (l a) (\<lambda>b0. bindE (l (a + 1)) (\<lambda>b1. bindE (l (a + 2)) (\<lambda>b2. bindE (l (a + 3)) (\<lambda>b3.
       Ok (ucast b0 OR push_bit 8 (ucast b1) OR push_bit 16 (ucast b2) OR push_bit 24 (ucast b3))))))"

text \<open>The fields of \<open>boot_block_t\<close>: three counts, 52 reserved bytes, 63 entries of 64 bytes.\<close>

definition num_inodes_at :: "u32 \<Rightarrow> u32" where
  "num_inodes_at bt = bt + 4"

definition num_data_block_at :: "u32 \<Rightarrow> u32" where
  "num_data_block_at bt = bt + 8"

definition entry_at :: "u32 \<Rightarrow> u32 \<Rightarrow> u32" where
  "entry_at bt i = bt + 64 + 64 * i"

text \<open>\<open>(inode_t*)(&(boot[inode + 1]))\<close> and the fields of \<open>inode_t\<close>.\<close>

definition inode_at :: "u32 \<Rightarrow> u32 \<Rightarrow> u32" where
  "inode_at bt inode = bt + BLOCK_SIZE * (inode + 1)"

definition blocks_at :: "u32 \<Rightarrow> u32 \<Rightarrow> u32 \<Rightarrow> u32" where
  "blocks_at bt inode k = inode_at bt inode + 4 + 4 * k"

definition data_at :: "u32 \<Rightarrow> u32 \<Rightarrow> u32 \<Rightarrow> u32" where
  "data_at dt blk off = dt + BLOCK_SIZE * blk + off"

subsection \<open>Operations\<close>

text \<open>The loop runs while \<open>bytesread < length\<close>; the first argument is what is left.\<close>

fun read_loop :: "('b \<Rightarrow> loader) \<Rightarrow> (nat \<Rightarrow> u8 \<Rightarrow> 'b \<Rightarrow> 'b res) \<Rightarrow> u32 \<Rightarrow> u32 \<Rightarrow> u32 \<Rightarrow>
    u32 \<Rightarrow> u32 \<Rightarrow> nat \<Rightarrow> u32 \<Rightarrow> nat \<Rightarrow> 'b \<Rightarrow> (nat \<times> 'b) res" where
  "read_loop img wr bt dt inode maxblocks filelength 0 position bytesread b = Ok (bytesread, b)"
| "read_loop img wr bt dt inode maxblocks filelength (Suc left) position bytesread b =
     (let blocknum = position div BLOCK_SIZE;
          blockoff = position mod BLOCK_SIZE in
      bindE (load32 (img b) (blocks_at bt inode blocknum)) (\<lambda>blk.
      if maxblocks \<le> blk then Ok (bytesread, b)
      else if filelength < position then Ok (bytesread, b)
      else
        bindE (img b (data_at dt blk blockoff)) (\<lambda>v.
        bindE (wr bytesread v b) (\<lambda>b.
        read_loop img wr bt dt inode maxblocks filelength left (position + 1) (Suc bytesread) b))))"

definition read_data :: "('b \<Rightarrow> loader) \<Rightarrow> (nat \<Rightarrow> u8 \<Rightarrow> 'b \<Rightarrow> 'b res) \<Rightarrow> bool \<Rightarrow>
    u32 \<Rightarrow> u32 \<Rightarrow> u32 \<Rightarrow> u32 \<Rightarrow> u32 \<Rightarrow> 'b \<Rightarrow> (int \<times> 'b) res" where
  "read_data img wr buf_null bt dt inode offset len b =
     bindE (load32 (img b) (inode_at bt inode)) (\<lambda>filelength.
     if len = 0 \<or> buf_null \<or> MAX_DATA_NUM < inode then Ok (-1, b)
     else if filelength < offset then Ok (0, b)
     else
       let len = (if filelength < offset + len then filelength else len) in
       bindE (load32 (img b) (num_data_block_at bt)) (\<lambda>maxblocks.
       bindE (read_loop img wr bt dt inode maxblocks filelength (unat len) offset 0 b) (\<lambda>(n, b).
       Ok (sint (of_nat n :: u32), b))))"

text \<open>
  A \<open>dentry_t\<close> is its 64 bytes: 32 of name, the type, the inode, 24 reserved. An assignment
  to a field stores its bytes.
\<close>

type_synonym dentry = "u8 list"

definition put32 :: "nat \<Rightarrow> u32 \<Rightarrow> u8 list \<Rightarrow> u8 list" where
  "put32 k v d = d[k := byte_at v 0, k + 1 := byte_at v 1, k + 2 := byte_at v 2, k + 3 := byte_at v 3]"

definition get32 :: "u8 list \<Rightarrow> nat \<Rightarrow> u32" where
  "get32 d k = ucast (d ! k) OR push_bit 8 (ucast (d ! (k + 1))) OR
     push_bit 16 (ucast (d ! (k + 2))) OR push_bit 24 (ucast (d ! (k + 3)))"

definition dentry_type :: "dentry \<Rightarrow> u32" where
  "dentry_type d = get32 d 32"

definition dentry_inode :: "dentry \<Rightarrow> u32" where
  "dentry_inode d = get32 d 36"

definition dentry_name :: "dentry \<Rightarrow> u8 list" where
  "dentry_name d = take 32 d"

text \<open>The \<open>n\<close> bytes at an address, as a structure assignment loads them.\<close>

fun load_bytes :: "loader \<Rightarrow> u32 \<Rightarrow> nat \<Rightarrow> u8 list res" where
  "load_bytes l a 0 = Ok []"
| "load_bytes l a (Suc n) = bindE (l a) (\<lambda>v. bindE (load_bytes l (a + 1) n) (\<lambda>vs. Ok (v # vs)))"

text \<open>The assignments that both lookups end with.\<close>

definition copy_dentry :: "loader \<Rightarrow> u32 \<Rightarrow> dentry res" where
  "copy_dentry l a =
     bindE (load_bytes l a 64) (\<lambda>d.
     bindE (strcpy arr_wr (\<lambda>i. l (a + of_nat i)) d) (\<lambda>d.
     bindE (load32 l (a + 32)) (\<lambda>ty.
     let d = put32 32 ty d in
     bindE (load32 l (a + 36)) (\<lambda>ino.
     Ok (put32 36 ino d)))))"

text \<open>On failure the dentry of the caller is not written: \<open>None\<close>.\<close>

function find_dentry :: "loader \<Rightarrow> u32 \<Rightarrow> reader \<Rightarrow> nat \<Rightarrow> dentry option res" where
  "find_dentry l bt fname i =
     (if i < MAX_FILES then
        let a = entry_at bt (of_nat i) in
        bindE (strncmp (\<lambda>j. l (a + of_nat j)) fname (NAME_SIZE - 1)) (\<lambda>d.
        if d = 0 then bindE (copy_dentry l a) (\<lambda>e. Ok (Some e))
        else find_dentry l bt fname (Suc i))
      else Ok None)"
  by pat_completeness auto
termination by (relation "measure (\<lambda>(l, bt, fname, i). MAX_FILES - i)") auto

declare find_dentry.simps [simp del]

definition read_dentry_by_name :: "loader \<Rightarrow> u32 \<Rightarrow> reader \<Rightarrow> (int \<times> dentry option) res" where
  "read_dentry_by_name l bt fname =
     bindE (find_dentry l bt fname 0) (\<lambda>r. Ok (if r = None then -1 else 0, r))"

definition read_dentry_by_index :: "loader \<Rightarrow> u32 \<Rightarrow> u32 \<Rightarrow> (int \<times> dentry option) res" where
  "read_dentry_by_index l bt index =
     bindE (load32 l (num_inodes_at bt)) (\<lambda>n.
     if n < index then Ok (-1, None)
     else bindE (copy_dentry l (entry_at bt index)) (\<lambda>e. Ok (0, Some e)))"

definition setup_fs :: "u32 \<Rightarrow> 'a fs_scheme \<Rightarrow> 'a fs_scheme res" where
  "setup_fs boot_ptr s =
     (let s = s\<lparr>boot := boot_ptr\<rparr> in
      bindE (load32 (\<lambda>a. ld a s) (num_inodes_at (boot s))) (\<lambda>n.
      Ok (s\<lparr>data := boot_ptr + BLOCK_SIZE + n * BLOCK_SIZE\<rparr>)))"

definition inode_length :: "loader \<Rightarrow> u32 \<Rightarrow> u32 \<Rightarrow> u32 res" where
  "inode_length l bt inode = load32 l (inode_at bt inode)"

subsection \<open>The contents of a file\<close>

text \<open>
  The image as a function \<open>M\<close> from addresses to bytes: the length, block numbers and bytes
  of a file, and what it means that the first \<open>n\<close> bytes of a file lie in a set of addresses.
\<close>

definition file_length :: "(u32 \<Rightarrow> u8) \<Rightarrow> u32 \<Rightarrow> u32 \<Rightarrow> u32" where
  "file_length M bt ino = ld32 M (inode_at bt ino)"

definition file_block :: "(u32 \<Rightarrow> u8) \<Rightarrow> u32 \<Rightarrow> u32 \<Rightarrow> nat \<Rightarrow> u32" where
  "file_block M bt ino p = ld32 M (blocks_at bt ino (of_nat (p div 4096)))"

definition file_addr :: "(u32 \<Rightarrow> u8) \<Rightarrow> u32 \<Rightarrow> u32 \<Rightarrow> u32 \<Rightarrow> nat \<Rightarrow> u32" where
  "file_addr M bt dt ino p = data_at dt (file_block M bt ino p) (of_nat (p mod 4096))"

definition file_byte :: "(u32 \<Rightarrow> u8) \<Rightarrow> u32 \<Rightarrow> u32 \<Rightarrow> u32 \<Rightarrow> nat \<Rightarrow> u8" where
  "file_byte M bt dt ino p = M (file_addr M bt dt ino p)"

definition word_in :: "u32 set \<Rightarrow> u32 \<Rightarrow> bool" where
  "word_in A a \<longleftrightarrow> {a, a + 1, a + 2, a + 3} \<subseteq> A"

definition header_in :: "u32 set \<Rightarrow> u32 \<Rightarrow> u32 \<Rightarrow> bool" where
  "header_in A bt ino \<longleftrightarrow> word_in A (inode_at bt ino) \<and> word_in A (num_data_block_at bt)"

definition max_block :: "(u32 \<Rightarrow> u8) \<Rightarrow> u32 \<Rightarrow> u32" where
  "max_block M bt = ld32 M (num_data_block_at bt)"

text \<open>Position \<open>p\<close> has an entry in the block table; the entry names a block of the image.\<close>

definition indexed :: "u32 set \<Rightarrow> u32 \<Rightarrow> u32 \<Rightarrow> nat \<Rightarrow> bool" where
  "indexed A bt ino p \<longleftrightarrow> word_in A (blocks_at bt ino (of_nat (p div 4096)))"

definition stored :: "(u32 \<Rightarrow> u8) \<Rightarrow> u32 set \<Rightarrow> u32 \<Rightarrow> u32 \<Rightarrow> u32 \<Rightarrow> nat \<Rightarrow> bool" where
  "stored M A bt dt ino p \<longleftrightarrow> indexed A bt ino p \<and> file_block M bt ino p < max_block M bt \<and>
     file_addr M bt dt ino p \<in> A"

subsection \<open>The interface to the buffer\<close>

locale fs_reader = byte_buffer rd wr cap rest
  for rd :: "nat \<Rightarrow> 'b \<Rightarrow> u8 res" and wr and cap and rest :: "'b \<Rightarrow> 'r" +
  fixes img :: "'b \<Rightarrow> loader"
    and safe :: "'b \<Rightarrow> u32 set"
  assumes img_kept: "rest b' = rest b \<Longrightarrow> a \<in> safe b \<Longrightarrow> a \<in> safe b' \<and> img b' a = img b a"
begin

definition holds :: "'b \<Rightarrow> u32 set \<Rightarrow> (u32 \<Rightarrow> u8) \<Rightarrow> bool" where
  "holds b A M \<longleftrightarrow> (\<forall>a \<in> A. a \<in> safe b \<and> img b a = Ok (M a))"

lemma holds_kept: "holds b A M \<Longrightarrow> rest b' = rest b \<Longrightarrow> holds b' A M"
  unfolding holds_def by (metis img_kept)

lemma load32_holds:
  assumes "holds b A M" and "word_in A a"
  shows "load32 (img b) a = Ok (ld32 M a)"
proof -
  have "img b a = Ok (M a)" "img b (a + 1) = Ok (M (a + 1))" "img b (a + 2) = Ok (M (a + 2))"
    "img b (a + 3) = Ok (M (a + 3))"
    using assms unfolding holds_def word_in_def by blast+
  then show ?thesis by (simp only: load32_def ld32_def bindE_simps)
qed

text \<open>
  The loop stops at \<open>e\<close>: it is as long as asked for, or the next position is behind the
  length, or its block number is not one of the image's.
\<close>

lemma read_loop_stored:
  assumes "holds b A M" and "p \<le> e" and "e < 2 ^ 32" and "k + (e - p) \<le> cap b"
    and "\<forall>q. p \<le> q \<and> q < e \<longrightarrow> stored M A bt dt ino q \<and> q \<le> unat flen"
    and "e - p \<le> n" and "n \<noteq> e - p \<Longrightarrow> indexed A bt ino e \<and>
      (max_block M bt \<le> file_block M bt ino e \<or> unat flen < e)"
  shows "\<exists>b'. read_loop img wr bt dt ino (max_block M bt) flen n (of_nat p) k b = Ok (k + (e - p), b') \<and>
    writes k (k + (e - p)) (\<lambda>i. file_byte M bt dt ino (p + (i - k))) b b'"
  using assms
proof (induction n arbitrary: p k b)
  case 0
  then show ?case by (simp add: writes_refl)
next
  case (Suc n)
  have p: "p < 2 ^ 32" using Suc.prems(2,3) by simp
  have div: "(of_nat p :: u32) div BLOCK_SIZE = of_nat (p div 4096)"
    and mod: "(of_nat p :: u32) mod BLOCK_SIZE = of_nat (p mod 4096)"
    using p by (simp_all add: word_arith_nat_div word_arith_nat_mod unat_of_nat_u32)
  have le: "flen < of_nat p \<longleftrightarrow> unat flen < p"
    using p by (simp add: word_less_nat_alt unat_of_nat_u32)
  show ?case
  proof (cases "p = e")
    case True
    then have e: "e = p" by simp
    then have "indexed A bt ino p" "max_block M bt \<le> file_block M bt ino p \<or> unat flen < p"
      using Suc.prems(7) by auto
    then show ?thesis
      using load32_holds [OF Suc.prems(1)] unfolding e
      by (auto simp: Let_def div mod le file_block_def indexed_def writes_refl)
  next
    case False
    then have pe: "p < e" using Suc.prems(2) by simp
    then have st: "stored M A bt dt ino p" "p \<le> unat flen" using Suc.prems(5) by auto
    have blk: "load32 (img b) (blocks_at bt ino (of_nat (p div 4096))) = Ok (file_block M bt ino p)"
      using load32_holds [OF Suc.prems(1)] st(1) by (simp add: stored_def indexed_def file_block_def)
    have byte: "img b (data_at dt (file_block M bt ino p) (of_nat (p mod 4096))) = Ok (file_byte M bt dt ino p)"
      using Suc.prems(1) st(1) by (simp add: holds_def stored_def file_byte_def file_addr_def)
    have k: "k < cap b" using Suc.prems(4) pe by simp
    have eq: "Suc k + (e - Suc p) = k + (e - p)" using pe by simp
    obtain b1 where b1: "wr k (file_byte M bt dt ino p) b = Ok b1" "cap b1 = cap b" "rest b1 = rest b"
      using wr_ok [OF k] by blast
    have "\<exists>b'. read_loop img wr bt dt ino (max_block M bt) flen n (of_nat (Suc p)) (Suc k) b1 =
        Ok (Suc k + (e - Suc p), b') \<and>
      writes (Suc k) (Suc k + (e - Suc p)) (\<lambda>i. file_byte M bt dt ino (Suc p + (i - Suc k))) b1 b'"
      by (rule Suc.IH) (use Suc.prems pe b1(2) holds_kept [OF Suc.prems(1) b1(3)] in auto)
    then obtain b' where b': "read_loop img wr bt dt ino (max_block M bt) flen n (of_nat (Suc p)) (Suc k) b1 =
        Ok (k + (e - p), b')"
      and w: "writes (Suc k) (k + (e - p)) (\<lambda>i. file_byte M bt dt ino (Suc p + (i - Suc k))) b1 b'"
      unfolding eq by blast
    have "writes (Suc k) (k + (e - p)) (\<lambda>i. file_byte M bt dt ino (p + (i - k))) b1 b'"
      using w by (rule writes_cong [THEN iffD1, rotated])
        (rule arg_cong [where f = "file_byte M bt dt ino"], arith)
    then have "writes k (k + (e - p)) (\<lambda>i. file_byte M bt dt ino (p + (i - k))) b b'"
      using b1 k pe by (intro writes_first [of k b _ b1]) auto
    moreover have "read_loop img wr bt dt ino (max_block M bt) flen (Suc n) (of_nat p) k b = Ok (k + (e - p), b')"
      using st blk byte b1(1) b' le
      by (simp add: Let_def div mod stored_def add.commute linorder_not_le [symmetric])
    ultimately show ?thesis by blast
  qed
qed

text \<open>Argument errors, and an offset behind the end of the file.\<close>

lemma read_data_errors:
  assumes "holds b A M" and "header_in A bt ino"
    and "len = 0 \<or> buf_null \<or> MAX_DATA_NUM < ino"
  shows "read_data img wr buf_null bt dt ino offset len b = Ok (-1, b)"
  using load32_holds [OF assms(1)] assms(2,3) by (simp add: read_data_def header_in_def)

lemma read_data_behind:
  assumes "holds b A M" and "header_in A bt ino" and "len \<noteq> 0" and "ino \<le> MAX_DATA_NUM"
    and "file_length M bt ino < offset"
  shows "read_data img wr False bt dt ino offset len b = Ok (0, b)"
proof -
  have "\<not> MAX_DATA_NUM < ino" using assms(4) by (simp only: not_less)
  then show ?thesis
    using load32_holds [OF assms(1)] assms(2,3,5)
    by (simp add: read_data_def header_in_def file_length_def)
qed

lemma read_data_run:
  assumes "holds b A M" and "header_in A bt ino" and "len \<noteq> 0" and "ino \<le> MAX_DATA_NUM"
    and "offset \<le> file_length M bt ino"
  defines "n \<equiv> if file_length M bt ino < offset + len then file_length M bt ino else len"
  shows "read_data img wr False bt dt ino offset len b =
    bindE (read_loop img wr bt dt ino (max_block M bt) (file_length M bt ino) (unat n) offset 0 b)
      (\<lambda>(n, b). Ok (sint (of_nat n :: u32), b))"
proof -
  have "\<not> MAX_DATA_NUM < ino" "\<not> file_length M bt ino < offset"
    using assms(4,5) by (simp_all only: not_less)
  then show ?thesis
    using load32_holds [OF assms(1)] assms(2,3)
    by (simp add: read_data_def header_in_def file_length_def max_block_def n_def)
qed

text \<open>A read that ends inside the file delivers exactly the bytes asked for.\<close>

lemma read_data_within:
  assumes "holds b A M" and "header_in A bt ino" and "len \<noteq> 0" and "ino \<le> MAX_DATA_NUM"
    and "unat offset + unat len \<le> unat (file_length M bt ino)"
    and "\<forall>q < unat (file_length M bt ino). stored M A bt dt ino q" and "unat len \<le> cap b"
  shows "\<exists>b'. read_data img wr False bt dt ino offset len b = Ok (sint len, b') \<and>
    writes 0 (unat len) (\<lambda>i. file_byte M bt dt ino (unat offset + i)) b b'"
proof -
  let ?L = "file_length M bt ino"
  have L: "unat ?L < 2 ^ 32" by (rule unat_u32_less)
  have "unat (offset + len) = unat offset + unat len"
    using assms(5) L by (intro unat_add_lem [THEN iffD1]) simp
  then have le: "\<not> ?L < offset + len" "offset \<le> ?L"
    using assms(5) by (simp_all add: word_less_nat_alt word_le_nat_alt)
  have "\<exists>b'. read_loop img wr bt dt ino (max_block M bt) ?L (unat len) (of_nat (unat offset)) 0 b =
      Ok (0 + (unat offset + unat len - unat offset), b') \<and>
      writes 0 (0 + (unat offset + unat len - unat offset))
        (\<lambda>i. file_byte M bt dt ino (unat offset + (i - 0))) b b'"
    by (rule read_loop_stored [OF assms(1)]) (use assms L in auto)
  then show ?thesis
    using read_data_run [OF assms(1-4) le(2)] le(1) by auto
qed

text \<open>A read from the start that asks for more than the file has delivers the whole file.\<close>

lemma read_data_whole:
  assumes "holds b A M" and "header_in A bt ino" and "ino \<le> MAX_DATA_NUM"
    and "file_length M bt ino < len"
    and "\<forall>q < unat (file_length M bt ino). stored M A bt dt ino q"
    and "unat (file_length M bt ino) \<le> cap b"
  shows "\<exists>b'. read_data img wr False bt dt ino 0 len b = Ok (sint (file_length M bt ino), b') \<and>
    writes 0 (unat (file_length M bt ino)) (file_byte M bt dt ino) b b'"
proof -
  let ?L = "file_length M bt ino"
  have L: "unat ?L < 2 ^ 32" by (rule unat_u32_less)
  have "\<exists>b'. read_loop img wr bt dt ino (max_block M bt) ?L (unat ?L) (of_nat 0) 0 b =
      Ok (0 + (unat ?L - 0), b') \<and>
      writes 0 (0 + (unat ?L - 0)) (\<lambda>i. file_byte M bt dt ino (0 + (i - 0))) b b'"
    by (rule read_loop_stored [OF assms(1)]) (use assms L in auto)
  moreover have "len \<noteq> 0" using assms(4) by auto
  ultimately show ?thesis
    using read_data_run [OF assms(1,2) _ assms(3), of len 0] assms(4) by auto
qed

text \<open>
  A read that starts behind the first byte and asks for more than is left does not stop at the
  end of the file: the request is cut to the file's length, not to what is left of it, and the
  position check lets one more byte through, if the block table has an entry for it.
\<close>

lemma read_data_tail:
  assumes "holds b A M" and "header_in A bt ino" and "ino \<le> MAX_DATA_NUM"
    and "0 < offset" and "offset \<le> file_length M bt ino"
    and "unat (file_length M bt ino) < unat offset + unat len" and "unat offset + unat len < 2 ^ 32"
    and "\<forall>q \<le> unat (file_length M bt ino). stored M A bt dt ino q"
    and "indexed A bt ino (Suc (unat (file_length M bt ino)))"
    and "unat (file_length M bt ino) + 1 - unat offset \<le> cap b"
    and "unat (file_length M bt ino) + 1 < 2 ^ 32"
  shows "\<exists>b'. read_data img wr False bt dt ino offset len b =
      Ok (sint (file_length M bt ino + 1 - offset), b') \<and>
    writes 0 (unat (file_length M bt ino) + 1 - unat offset)
      (\<lambda>i. file_byte M bt dt ino (unat offset + i)) b b'"
proof -
  let ?L = "file_length M bt ino"
  have off: "unat offset \<le> unat ?L" "0 < unat offset"
    using assms(4,5) by (simp_all add: word_le_nat_alt word_less_nat_alt)
  have "unat (offset + len) = unat offset + unat len"
    using assms(7) by (intro unat_add_lem [THEN iffD1]) simp
  then have lt: "?L < offset + len" using assms(6) by (simp add: word_less_nat_alt)
  have "len \<noteq> 0" using assms(6) off by auto
  have "\<exists>b'. read_loop img wr bt dt ino (max_block M bt) ?L (unat ?L) (of_nat (unat offset)) 0 b =
      Ok (0 + (unat ?L + 1 - unat offset), b') \<and>
      writes 0 (0 + (unat ?L + 1 - unat offset))
        (\<lambda>i. file_byte M bt dt ino (unat offset + (i - 0))) b b'"
    by (rule read_loop_stored [OF assms(1)]) (use assms off in auto)
  moreover have "(of_nat (unat ?L + 1 - unat offset) :: u32) = ?L + 1 - offset"
    using off by (simp add: of_nat_diff)
  ultimately show ?thesis
    using read_data_run [OF assms(1,2) \<open>len \<noteq> 0\<close> assms(3,5)] lt by auto
qed

end

subsection \<open>Destinations\<close>

text \<open>
  A local array of the kernel is apart from the image. A pointer is if none of its bytes is
  translated to the same physical byte as one of the image.
\<close>

interpretation arr_fs: fs_reader arr_rd arr_wr length "\<lambda>_. ()" "\<lambda>_. l" "\<lambda>_. UNIV" for l
  by unfold_locales simp_all

definition clear_of :: "u32 \<Rightarrow> nat \<Rightarrow> 'a machine_scheme \<Rightarrow> u32 set" where
  "clear_of p n s = {a. \<exists>q. translate s a = Some q \<and> q \<notin> frame_of p n s}"

lemma usr_rest_eqD:
  assumes "usr_rest p n s' = usr_rest p n s"
  shows "translate s' = translate s" and "frame_of p n s' = frame_of p n s"
    and "q \<notin> frame_of p n s \<Longrightarrow> mem s' q = mem s q"
proof -
  have "translate (usr_rest p n s') = translate (usr_rest p n s)" using assms by simp
  then show tr: "translate s' = translate s" by (simp add: usr_rest_def)
  then show fr: "frame_of p n s' = frame_of p n s" by (simp add: frame_of_def)
  have "mem (usr_rest p n s') q = mem (usr_rest p n s) q" using assms by simp
  then show "q \<notin> frame_of p n s \<Longrightarrow> mem s' q = mem s q" by (simp add: usr_rest_def fr)
qed

interpretation usr_fs: fs_reader "ptr_rd p" "ptr_wr p" "usr_cap p n" "usr_rest p n"
    "\<lambda>s a. ld a s" "clear_of p n" for p n
proof
  fix s' s :: "'a machine_scheme" and a
  assume r: "usr_rest p n s' = usr_rest p n s" and a: "a \<in> clear_of p n s"
  show "a \<in> clear_of p n s' \<and> ld a s' = ld a s"
    using a usr_rest_eqD [OF r] by (auto simp: clear_of_def ld_def)
qed

subsection \<open>The directory\<close>

definition loads :: "loader \<Rightarrow> u32 \<Rightarrow> nat \<Rightarrow> (u32 \<Rightarrow> u8) \<Rightarrow> bool" where
  "loads l a n M \<longleftrightarrow> (\<forall>i < n. l (a + of_nat i) = Ok (M (a + of_nat i)))"

definition bytes_at :: "(u32 \<Rightarrow> u8) \<Rightarrow> u32 \<Rightarrow> nat \<Rightarrow> u8 list" where
  "bytes_at M a n = map (\<lambda>i. M (a + of_nat i)) [0..<n]"

lemma bytes_at_Suc: "bytes_at M a (Suc n) = M a # bytes_at M (a + 1) n"
  by (simp add: bytes_at_def upt_conv_Cons map_Suc_upt [symmetric] add.assoc del: upt_Suc)

lemma load_bytes_at: "loads l a n M \<Longrightarrow> load_bytes l a n = Ok (bytes_at M a n)"
proof (induction n arbitrary: a)
  case 0
  then show ?case by (simp add: bytes_at_def)
next
  case (Suc n)
  have "l a = Ok (M a)" using Suc.prems by (force simp: loads_def)
  moreover have "l (a + 1 + of_nat i) = Ok (M (a + 1 + of_nat i))" if "i < n" for i
    using Suc.prems [unfolded loads_def, rule_format, of "Suc i"] that by (simp add: add.assoc)
  then have "load_bytes l (a + 1) n = Ok (bytes_at M (a + 1) n)"
    by (intro Suc.IH) (simp add: loads_def)
  ultimately show ?case by (simp add: bytes_at_Suc)
qed

lemma load32_loads:
  assumes "loads l a n M" and "k + 4 \<le> n"
  shows "load32 l (a + of_nat k) = Ok (ld32 M (a + of_nat k))"
proof -
  have at: "l (a + of_nat (k + j)) = Ok (M (a + of_nat (k + j)))" if "j < 4" for j
    using assms(1) [unfolded loads_def, rule_format, of "k + j"] assms(2) that by simp
  show ?thesis
    using at [of 0] at [of 1] at [of 2] at [of 3]
    by (simp add: load32_def ld32_def add_ac)
qed

text \<open>Storing a loaded word back where its bytes already are changes nothing.\<close>

lemma byte_at_ld32:
  "byte_at (ld32 M a) 0 = M a" "byte_at (ld32 M a) 1 = M (a + 1)"
  "byte_at (ld32 M a) 2 = M (a + 2)" "byte_at (ld32 M a) 3 = M (a + 3)"
  unfolding byte_at_def ld32_def
  by (rule bit_word_eqI; auto simp: bit_simps dest: bit_imp_le_length)+

lemma put32_same:
  assumes "length d = 64" and "k + 4 \<le> 64" and "\<forall>i < 64. d ! i = M (a + of_nat i)"
  shows "put32 k (ld32 M (a + of_nat k)) d = d"
proof -
  have same: "d[k + j := M (a + of_nat k + of_nat j)] = d" if "j < 4" for j
    using assms(3) [rule_format, of "k + j"] assms(2) that
    by (intro list_update_same_conv [THEN iffD2]) (simp_all add: assms(1) add.assoc)
  have "d[k := M (a + of_nat k)] = d" "d[k + 1 := M (a + of_nat k + 1)] = d"
    "d[k + 2 := M (a + of_nat k + 2)] = d" "d[k + 3 := M (a + of_nat k + 3)] = d"
    using same [of 0] same [of 1] same [of 2] same [of 3] by simp_all
  then show ?thesis by (simp only: put32_def byte_at_ld32)
qed

lemma copy_dentry_exact:
  assumes "loads l a 64 M" and "\<exists>i < 64. M (a + of_nat i) = 0"
  shows "copy_dentry l a = Ok (bytes_at M a 64)"
proof -
  define d where "d = bytes_at M a 64"
  have d: "length d = 64" "\<forall>i < 64. d ! i = M (a + of_nat i)"
    by (simp_all add: d_def bytes_at_def)
  define n where "n = (LEAST i. M (a + of_nat i) = 0)"
  have n: "M (a + of_nat n) = 0" "n < 64" "\<forall>i < n. M (a + of_nat i) \<noteq> 0"
    using assms(2) LeastI [of "\<lambda>i. M (a + of_nat i) = 0"] Least_le [of "\<lambda>i. M (a + of_nat i) = 0"]
      not_less_Least [of _ "\<lambda>i. M (a + of_nat i) = 0"]
    unfolding n_def by (blast, meson le_less_trans, blast)
  have "c_string (\<lambda>i. l (a + of_nat i)) n"
    using assms(1) n by (auto simp: c_string_def loads_def)
  then have "\<exists>d'. strcpy arr_wr (\<lambda>i. l (a + of_nat i)) d = Ok d' \<and>
      arr.writes 0 (Suc n) (\<lambda>i. case l (a + of_nat i) of Ok c \<Rightarrow> c | _ \<Rightarrow> 0) d d'"
    by (rule arr.strcpy_writes) (use n d in simp_all)
  then obtain d' where d': "strcpy arr_wr (\<lambda>i. l (a + of_nat i)) d = Ok d'"
    "d' = map (\<lambda>j. if 0 \<le> j \<and> j < Suc n then (case l (a + of_nat j) of Ok c \<Rightarrow> c | _ \<Rightarrow> 0) else d ! j)
      [0..<length d]"
    by (auto simp: arr_writes_list)
  have "d' = d"
    by (rule nth_equalityI) (use d' d n assms(1) in \<open>auto simp: loads_def\<close>)
  moreover have "load_bytes l a 64 = Ok d" unfolding d_def by (rule load_bytes_at [OF assms(1)])
  ultimately show ?thesis
    using d'(1) load32_loads [OF assms(1), of 32] load32_loads [OF assms(1), of 36]
      put32_same [OF d(1) _ d(2), of 32] put32_same [OF d(1) _ d(2), of 36]
    by (simp add: copy_dentry_def d_def)
qed

text \<open>A name that can be read up to its terminator, or for \<open>n\<close> bytes.\<close>

definition reads_name :: "reader \<Rightarrow> nat \<Rightarrow> (nat \<Rightarrow> u8) \<Rightarrow> bool" where
  "reads_name r n f \<longleftrightarrow> (\<forall>i < n. (\<forall>j < i. f j \<noteq> 0) \<longrightarrow> r i = Ok (f i))"

lemma strncmp_reads:
  assumes "\<forall>i < n. s i = Ok (g i)" and "reads_name r n f"
  shows "\<exists>d. strncmp s r n = Ok d \<and> (d = 0 \<longleftrightarrow> cstr g n = cstr f n)"
proof -
  have read: "r i = Ok (f i)" if "i < n" "\<forall>j < i. \<exists>c. r j = Ok c \<and> c \<noteq> 0" for i
  proof -
    have "f j \<noteq> 0" if "j < i" for j
      using that
    proof (induction j rule: less_induct)
      case (less j)
      then have "r j = Ok (f j)"
        using assms(2) \<open>i < n\<close> by (auto simp: reads_name_def)
      then show ?case using \<open>\<forall>j < i. _\<close> less.prems by auto
    qed
    then show ?thesis using assms(2) that by (auto simp: reads_name_def)
  qed
  have "strncmp s r n = strncmp s (\<lambda>i. Ok (f i)) n"
    by (rule strncmp_cong) (rule read)
  then show ?thesis using strncmp_eq_0 [of n s g "\<lambda>i. Ok (f i)" f] assms(1) by simp
qed

text \<open>
  The directory of an image: 63 entries that can be loaded, each with a zero byte somewhere in
  its 64 bytes. \<open>entry_name\<close> is what a lookup compares, the first 31 bytes up to a zero.
\<close>

definition entry :: "(u32 \<Rightarrow> u8) \<Rightarrow> u32 \<Rightarrow> nat \<Rightarrow> dentry" where
  "entry M bt i = bytes_at M (entry_at bt (of_nat i)) 64"

definition entry_name :: "(u32 \<Rightarrow> u8) \<Rightarrow> u32 \<Rightarrow> nat \<Rightarrow> u8 list" where
  "entry_name M bt i = cstr (\<lambda>j. M (entry_at bt (of_nat i) + of_nat j)) (NAME_SIZE - 1)"

definition entry_ok :: "loader \<Rightarrow> (u32 \<Rightarrow> u8) \<Rightarrow> u32 \<Rightarrow> nat \<Rightarrow> bool" where
  "entry_ok l M bt i \<longleftrightarrow> loads l (entry_at bt (of_nat i)) 64 M \<and>
     (\<exists>j < 64. M (entry_at bt (of_nat i) + of_nat j) = 0)"

lemma copy_entry: "entry_ok l M bt i \<Longrightarrow> copy_dentry l (entry_at bt (of_nat i)) = Ok (entry M bt i)"
  unfolding entry_ok_def entry_def by (rule copy_dentry_exact) simp_all

lemma find_dentry_step:
  assumes "entry_ok l M bt i" and "reads_name fname (NAME_SIZE - 1) f" and "i < MAX_FILES"
  shows "find_dentry l bt fname i =
    (if entry_name M bt i = cstr f (NAME_SIZE - 1) then Ok (Some (entry M bt i))
     else find_dentry l bt fname (Suc i))"
proof -
  let ?a = "entry_at bt (of_nat i)"
  have "\<forall>j < NAME_SIZE - 1. l (?a + of_nat j) = Ok (M (?a + of_nat j))"
    using assms(1) by (simp add: entry_ok_def loads_def)
  then obtain d where d: "strncmp (\<lambda>j. l (?a + of_nat j)) fname (NAME_SIZE - 1) = Ok d"
    "d = 0 \<longleftrightarrow> entry_name M bt i = cstr f (NAME_SIZE - 1)"
    using strncmp_reads [OF _ assms(2), of "\<lambda>j. l (?a + of_nat j)" "\<lambda>j. M (?a + of_nat j)"]
    unfolding entry_name_def by blast
  then show ?thesis
    using copy_entry [OF assms(1)] assms(3)
    by (subst find_dentry.simps) (simp add: Let_def)
qed

text \<open>A lookup by name finds the first entry whose name agrees, and fails if there is none.\<close>

lemma find_dentry_first:
  assumes "\<forall>i < MAX_FILES. entry_ok l M bt i" and "reads_name fname (NAME_SIZE - 1) f"
    and "i \<le> k" and "k < MAX_FILES"
    and "entry_name M bt k = cstr f (NAME_SIZE - 1)"
    and "\<forall>j. i \<le> j \<and> j < k \<longrightarrow> entry_name M bt j \<noteq> cstr f (NAME_SIZE - 1)"
  shows "find_dentry l bt fname i = Ok (Some (entry M bt k))"
  using assms(3,6)
proof (induction i rule: inc_induct)
  case base
  then show ?case using assms find_dentry_step [of l M bt k fname f] by simp
next
  case (step n)
  then show ?case using assms(1,2,4) find_dentry_step [of l M bt n fname f] by simp
qed

lemma find_dentry_none:
  assumes "\<forall>i < MAX_FILES. entry_ok l M bt i" and "reads_name fname (NAME_SIZE - 1) f"
    and "i \<le> MAX_FILES" and "\<forall>j < MAX_FILES. entry_name M bt j \<noteq> cstr f (NAME_SIZE - 1)"
  shows "find_dentry l bt fname i = Ok None"
  using assms(3)
proof (induction i rule: inc_induct)
  case base
  then show ?case by (subst find_dentry.simps) simp
next
  case (step n)
  then show ?case using assms(1,2,4) find_dentry_step [of l M bt n fname f] by simp
qed

lemma read_dentry_by_name_found:
  assumes "\<forall>i < MAX_FILES. entry_ok l M bt i" and "reads_name fname (NAME_SIZE - 1) f"
    and "k < MAX_FILES" and "entry_name M bt k = cstr f (NAME_SIZE - 1)"
    and "\<forall>j < k. entry_name M bt j \<noteq> cstr f (NAME_SIZE - 1)"
  shows "read_dentry_by_name l bt fname = Ok (0, Some (entry M bt k))"
  using find_dentry_first [OF assms(1,2) _ assms(3,4), of 0] assms(5)
  by (simp add: read_dentry_by_name_def)

lemma read_dentry_by_name_missing:
  assumes "\<forall>i < MAX_FILES. entry_ok l M bt i" and "reads_name fname (NAME_SIZE - 1) f"
    and "\<forall>j < MAX_FILES. entry_name M bt j \<noteq> cstr f (NAME_SIZE - 1)"
  shows "read_dentry_by_name l bt fname = Ok (-1, None)"
  using find_dentry_none [OF assms(1,2) _ assms(3), of 0] by (simp add: read_dentry_by_name_def)

text \<open>
  A lookup by index is bounded by the number of inodes, inclusively; the number of directory
  entries plays no part.
\<close>

lemma read_dentry_by_index_eq:
  assumes "loads l (num_inodes_at bt) 4 M"
    and "unat i \<le> unat (ld32 M (num_inodes_at bt)) \<Longrightarrow> entry_ok l M bt (unat i)"
  shows "read_dentry_by_index l bt i =
    Ok (if unat (ld32 M (num_inodes_at bt)) < unat i then (-1, None) else (0, Some (entry M bt (unat i))))"
proof -
  have n: "load32 l (num_inodes_at bt) = Ok (ld32 M (num_inodes_at bt))"
    using load32_loads [OF assms(1), of 0] by simp
  show ?thesis
    using copy_entry [of l M bt "unat i"] assms(2) n
    by (auto simp: read_dentry_by_index_def word_less_nat_alt)
qed

end
