(* ===== verification/Pcb.thy ===== *)
theory Pcb
  imports Filesys
begin

text \<open>
  Process control blocks (\<open>pcb.c\<close>) and the process bookkeeping of \<open>syscall.c\<close>. A PCB
  lives at a fixed address per process slot; the store \<open>pcbs\<close> maps addresses to PCBs. Nothing
  is mapped at address 0, so an access through a null pointer faults.
\<close>

abbreviation FOPS_NUM :: nat where "FOPS_NUM \<equiv> 8"
abbreviation ARG_SIZE :: nat where "ARG_SIZE \<equiv> 128"
abbreviation STDIN_NUM :: nat where "STDIN_NUM \<equiv> 0"
abbreviation STDOUT_NUM :: nat where "STDOUT_NUM \<equiv> 1"
abbreviation PCB0_LOC :: u32 where "PCB0_LOC \<equiv> 0x7FE000"
abbreviation EIGHT_KB :: u32 where "EIGHT_KB \<equiv> 0x2000"

subsection \<open>Data\<close>

text \<open>\<open>fops_ptr\<close>: null or one of the five jump tables of \<open>syscall.c\<close>.\<close>

datatype jmp_table = NoTable | FsTable | StdinTable | StdoutTable | DirTable | RtcTable

record fd_entry =
  fops_ptr :: jmp_table
  inode_ptr :: u32
  file_pos :: u32
  flags :: u32

text \<open>The fields \<open>esp\<close> and \<open>ebp\<close> of the structure are \<open>pcb_esp\<close> and \<open>pcb_ebp\<close> here.\<close>

record pcb =
  pid :: u32
  pcb_esp :: u32
  pcb_ebp :: u32
  pagedir :: u32
  curr_esp :: u32
  curr_ebp :: u32
  curr_eip :: u32
  curr_pd :: u32
  term_num :: u32
  status :: u8
  lastpcb_ptr :: u32
  args :: "u8 list"
  file_desc :: "fd_entry list"

record proc = fs +
  pcbs :: "u32 \<Rightarrow> pcb"
  pcb_loc :: "nat \<Rightarrow> u32"
  prev_pcb :: "nat \<Rightarrow> u32"
  memoryspace :: "nat \<Rightarrow> int"
  prog_count :: "nat \<Rightarrow> int"
  tss_esp0 :: u32
  tss_ss0 :: u32

subsection \<open>Operations\<close>

definition free_fd :: fd_entry where
  "free_fd = \<lparr>fops_ptr = NoTable, inode_ptr = 0, file_pos = 0, flags = 0\<rparr>"

text \<open>\<open>new_pcb\<close> is a local variable: its fields start with whatever is on the stack.\<close>

definition pcb_init :: "pcb \<Rightarrow> pcb" where
  "pcb_init new_pcb =
     (let p = for_loop 0 FOPS_NUM (\<lambda>i p. p\<lparr>file_desc := (file_desc p)[i := free_fd]\<rparr>) new_pcb;
          p = p\<lparr>file_desc := (file_desc p)[STDIN_NUM :=
            \<lparr>fops_ptr = StdinTable, inode_ptr = 0, file_pos = 0, flags = 1\<rparr>]\<rparr>;
          p = p\<lparr>file_desc := (file_desc p)[STDOUT_NUM :=
            \<lparr>fops_ptr = StdoutTable, inode_ptr = 0, file_pos = 0, flags = 1\<rparr>]\<rparr>;
          p = for_loop 0 ARG_SIZE (\<lambda>i p. p\<lparr>args := (args p)[i := 0]\<rparr>) p
      in p\<lparr>pid := 0, pcb_esp := 0, pcb_ebp := 0, pagedir := 0, curr_esp := 0, curr_ebp := 0,
           curr_eip := 0, curr_pd := 0, status := 0\<rparr>)"

text \<open>
  \<open>memcpy\<close> of \<open>PCB_SIZE\<close> bytes. The structure is 300 bytes (nine words, the status byte
  with three bytes of padding, the parent pointer, 128 bytes of arguments and eight entries of
  16 bytes) and \<open>PCB_SIZE\<close> is \<open>8 * 16 + 128 + 40 + 2 = 298\<close>, so the two high bytes of
  the last word, the flags of descriptor 7, keep what the destination had.
\<close>

definition copy_pcb :: "pcb \<Rightarrow> pcb \<Rightarrow> pcb" where
  "copy_pcb new_pcb old =
     (let e = file_desc new_pcb ! 7;
          w = (flags e AND 0xFFFF) OR (flags (file_desc old ! 7) AND 0xFFFF0000)
      in new_pcb\<lparr>file_desc := (file_desc new_pcb)[7 := e\<lparr>flags := w\<rparr>]\<rparr>)"

definition setup_pcb :: "pcb \<Rightarrow> u32 \<Rightarrow> u32 \<Rightarrow> 'a proc_scheme \<Rightarrow> int \<times> 'a proc_scheme" where
  "setup_pcb new_pcb loc prev s =
     (let s = s\<lparr>pcbs := (pcbs s)(loc := copy_pcb new_pcb (pcbs s loc))\<rparr>
      in (0, s\<lparr>pcbs := (pcbs s)(loc := (pcbs s loc)\<lparr>lastpcb_ptr := prev\<rparr>)\<rparr>))"

text \<open>Access through a PCB pointer, and through \<open>pcb_loc[current_terminal]\<close>.\<close>

definition get_pcb :: "u32 \<Rightarrow> 'a proc_scheme \<Rightarrow> pcb res" where
  "get_pcb a s = (if a = 0 then Err PageFault else Ok (pcbs s a))"

definition upd_pcb :: "u32 \<Rightarrow> (pcb \<Rightarrow> pcb) \<Rightarrow> 'a proc_scheme \<Rightarrow> 'a proc_scheme res" where
  "upd_pcb a f s = (if a = 0 then Err PageFault else Ok (s\<lparr>pcbs := (pcbs s)(a := f (pcbs s a))\<rparr>))"

definition cur_loc :: "'a proc_scheme \<Rightarrow> u32" where
  "cur_loc s = pcb_loc s (current_terminal s)"

definition cur_pcb :: "'a proc_scheme \<Rightarrow> pcb res" where
  "cur_pcb s = get_pcb (cur_loc s) s"

text \<open>\<open>pcb_loc[current_terminal]->file_desc[fd]\<close>\<close>

definition get_fd :: "int \<Rightarrow> 'a proc_scheme \<Rightarrow> fd_entry res" where
  "get_fd fd s =
     bindE (cur_pcb s) (\<lambda>p.
     if 0 \<le> fd \<and> fd < int (length (file_desc p)) then Ok (file_desc p ! nat fd) else Err OutOfBounds)"

definition upd_fd :: "int \<Rightarrow> (fd_entry \<Rightarrow> fd_entry) \<Rightarrow> 'a proc_scheme \<Rightarrow> 'a proc_scheme res" where
  "upd_fd fd f s =
     bindE (get_fd fd s) (\<lambda>e.
     upd_pcb (cur_loc s) (\<lambda>p. p\<lparr>file_desc := (file_desc p)[nat fd := f e]\<rparr>) s)"

subsection \<open>A new process\<close>

text \<open>The shape of a PCB in C: eight descriptors and 128 bytes of arguments.\<close>

definition pcb_shape :: "pcb \<Rightarrow> bool" where
  "pcb_shape p \<longleftrightarrow> length (file_desc p) = FOPS_NUM \<and> length (args p) = ARG_SIZE"

definition stdio_fds :: "fd_entry list" where
  "stdio_fds = \<lparr>fops_ptr = StdinTable, inode_ptr = 0, file_pos = 0, flags = 1\<rparr> #
     \<lparr>fops_ptr = StdoutTable, inode_ptr = 0, file_pos = 0, flags = 1\<rparr> # replicate 6 free_fd"

lemma clear_fds:
  "n \<le> length (file_desc p) \<Longrightarrow>
   for_loop 0 n (\<lambda>i p. p\<lparr>file_desc := (file_desc p)[i := free_fd]\<rparr>) p =
     p\<lparr>file_desc := replicate n free_fd @ drop n (file_desc p)\<rparr>"
proof (induction n)
  case (Suc n)
  then have "drop n (file_desc p) = file_desc p ! n # drop (Suc n) (file_desc p)"
    by (intro Cons_nth_drop_Suc [symmetric]) simp
  then show ?case
    using Suc by (simp add: for_loop_Suc list_update_append replicate_append_same)
qed simp

lemma clear_args:
  "n \<le> length (args p) \<Longrightarrow>
   for_loop 0 n (\<lambda>i p. p\<lparr>args := (args p)[i := 0]\<rparr>) p = p\<lparr>args := replicate n 0 @ drop n (args p)\<rparr>"
proof (induction n)
  case (Suc n)
  then have "drop n (args p) = args p ! n # drop (Suc n) (args p)"
    by (intro Cons_nth_drop_Suc [symmetric]) simp
  then show ?case
    using Suc by (simp add: for_loop_Suc list_update_append replicate_append_same)
qed simp

text \<open>Whatever the stack held: standard input and output, nothing else open, no arguments.\<close>

lemma pcb_init_fields:
  assumes "pcb_shape g"
  shows "file_desc (pcb_init g) = stdio_fds" and "args (pcb_init g) = replicate ARG_SIZE 0"
    and "pid (pcb_init g) = 0" and "status (pcb_init g) = 0" and "pcb_shape (pcb_init g)"
proof -
  have len: "length (file_desc g) = FOPS_NUM" "length (args g) = ARG_SIZE"
    using assms by (simp_all add: pcb_shape_def)
  have "replicate FOPS_NUM free_fd @ drop FOPS_NUM (file_desc g) = free_fd # free_fd # replicate 6 free_fd"
    using len by (simp add: eval_nat_numeral)
  then show f: "file_desc (pcb_init g) = stdio_fds"
    using len by (simp add: pcb_init_def Let_def clear_fds clear_args stdio_fds_def)
  show a: "args (pcb_init g) = replicate ARG_SIZE 0"
    using len by (simp add: pcb_init_def Let_def clear_fds clear_args)
  show "pid (pcb_init g) = 0" "status (pcb_init g) = 0" by (simp_all add: pcb_init_def Let_def)
  show "pcb_shape (pcb_init g)" by (simp add: pcb_shape_def f a stdio_fds_def)
qed

text \<open>
  The short copy does not matter as long as the flags of descriptor 7 at the destination fit in
  16 bits; every value the kernel stores in a flags word does.
\<close>

definition flags_small :: "pcb \<Rightarrow> bool" where
  "flags_small p \<longleftrightarrow> (\<forall>e \<in> set (file_desc p). flags e AND 0xFFFF0000 = 0)"

lemma copy_pcb_exact:
  assumes "pcb_shape new_pcb" and "flags_small new_pcb" and "pcb_shape old" and "flags_small old"
  shows "copy_pcb new_pcb old = new_pcb"
proof -
  define e where "e = file_desc new_pcb ! 7"
  have mem: "e \<in> set (file_desc new_pcb)" "file_desc old ! 7 \<in> set (file_desc old)"
    using assms(1,3) by (auto simp: pcb_shape_def e_def)
  have split: "w = (w AND 0xFFFF) OR (w AND 0xFFFF0000)" for w :: u32
  proof -
    have "(0xFFFF :: u32) OR 0xFFFF0000 = -1" by simp
    then show ?thesis by (metis and.comm_neutral bit.conj_disj_distrib)
  qed
  have "flags e AND 0xFFFF = flags e"
    using split [of "flags e"] mem(1) assms(2) by (auto simp: flags_small_def)
  moreover have "flags (file_desc old ! 7) AND 0xFFFF0000 = 0"
    using mem(2) assms(4) by (auto simp: flags_small_def)
  ultimately have "e\<lparr>flags := (flags e AND 0xFFFF) OR (flags (file_desc old ! 7) AND 0xFFFF0000)\<rparr> = e"
    by simp
  then show ?thesis by (simp add: copy_pcb_def Let_def e_def)
qed

end
