(* ===== verification/File_Ops.thy ===== *)
theory File_Ops
  imports Pcb
begin

text \<open>
  The file and directory operations behind a descriptor (\<open>fs_*\<close> and \<open>dir_*\<close> of
  \<open>filesys.c\<close>). They find the inode and the position in the current process's
  descriptor, and the destination is a pointer of that process.
\<close>

subsection \<open>Operations\<close>

definition fs_open :: int where "fs_open = 0"
definition fs_write :: int where "fs_write = -1"
definition fs_close :: int where "fs_close = 0"
definition dir_open :: int where "dir_open = -1"
definition dir_write :: int where "dir_write = -1"
definition dir_close :: int where "dir_close = -1"

definition fs_read :: "int \<Rightarrow> u32 \<Rightarrow> int \<Rightarrow> 'a proc_scheme \<Rightarrow> (int \<times> 'a proc_scheme) res" where
  "fs_read fd buf nbytes s =
     (if buf = 0 then Ok (-1, s)
      else
        bindE (get_fd fd s) (\<lambda>e.
        let inum = inode_ptr e;
            readpos = file_pos e in
        bindE (inode_length (\<lambda>a. ld a s) (boot s) inum) (\<lambda>flent.
        bindE (read_dentry_by_index (\<lambda>a. ld a s) (boot s) inum) (\<lambda>(check, curr_dentry).
        if check = -1 then Ok (-1, s)
        else
          bindE (read_data (\<lambda>s a. ld a s) (ptr_wr buf) (buf = 0) (boot s) (data s) inum readpos
            (word_of_int nbytes) s) (\<lambda>(check, s).
          if check = -1 then Ok (-1, s)
          else
            bindE (upd_fd fd (\<lambda>e. e\<lparr>file_pos := file_pos e + word_of_int check\<rparr>) s) (\<lambda>s.
            Ok (check, s)))))))"

text \<open>
  \<open>strlen\<close> is unsigned, so its comparison with \<open>nbytes\<close> is; the one with
  \<open>NAME_SIZE\<close> is signed.
\<close>

definition dir_read :: "int \<Rightarrow> u32 \<Rightarrow> int \<Rightarrow> 'a proc_scheme \<Rightarrow> (int \<times> 'a proc_scheme) res" where
  "dir_read fd buf nbytes s =
     (if buf = 0 then Ok (-1, s)
      else
        bindE (get_fd fd s) (\<lambda>e.
        let readpos = file_pos e in
        bindE (read_dentry_by_index (\<lambda>a. ld a s) (boot s) readpos) (\<lambda>(check, curr_dentry).
        case curr_dentry of
          None \<Rightarrow> Ok (0, s)
        | Some d \<Rightarrow>
            if d ! 0 = 0 then Ok (0, s)
            else
              bindE (strlen (\<lambda>i. arr_rd i d)) (\<lambda>len.
              let n = (word_of_int nbytes :: u32);
                  n = (if of_nat len < n then of_nat len else n);
                  n = (if sint n > int NAME_SIZE then of_nat NAME_SIZE else n) in
              bindE (copy_out buf (take (unat n) d) s) (\<lambda>s.
              bindE (upd_fd fd (\<lambda>e. e\<lparr>file_pos := readpos + 1\<rparr>) s) (\<lambda>s.
              Ok (sint n, s)))))))"

subsection \<open>Access to the descriptor\<close>

text \<open>Storing bytes does not touch the processes.\<close>

definition same_procs :: "'a proc_scheme \<Rightarrow> 'a proc_scheme \<Rightarrow> bool" where
  "same_procs s s' \<longleftrightarrow> s' = s\<lparr>mem := mem s'\<rparr>"

lemma same_procs_refl: "same_procs s s"
  by (simp add: same_procs_def)

lemma same_procsD:
  assumes "same_procs s s'"
  shows "get_fd fd s' = get_fd fd s" and "cur_loc s' = cur_loc s" and "pcbs s' = pcbs s"
    and "translate s' = translate s" and "boot s' = boot s" and "data s' = data s"
    and "pcb_loc s' = pcb_loc s" and "current_terminal s' = current_terminal s"
proof -
  obtain m where s': "s' = s\<lparr>mem := m\<rparr>" using assms unfolding same_procs_def by blast
  show "cur_loc s' = cur_loc s" "pcbs s' = pcbs s" "boot s' = boot s" "data s' = data s"
    "pcb_loc s' = pcb_loc s" "current_terminal s' = current_terminal s" "translate s' = translate s"
    by (simp_all add: s' cur_loc_def)
  then show "get_fd fd s' = get_fd fd s"
    by (simp add: get_fd_def cur_pcb_def get_pcb_def)
qed

lemma usr_rest_same_procs: "usr_rest p n s' = usr_rest p n s \<Longrightarrow> same_procs s s'"
proof -
  assume "usr_rest p n s' = usr_rest p n s"
  then have "(usr_rest p n s')\<lparr>mem := mem s'\<rparr> = (usr_rest p n s)\<lparr>mem := mem s'\<rparr>" by simp
  then show ?thesis by (simp add: usr_rest_def same_procs_def)
qed

lemma get_fd_upd:
  assumes "get_fd fd s = Ok e"
  shows "\<exists>s'. upd_fd fd f s = Ok s' \<and> get_fd fd s' = Ok (f e) \<and> mem s' = mem s \<and>
    translate s' = translate s \<and> boot s' = boot s \<and> data s' = data s \<and>
    (\<forall>fd'. fd' \<noteq> fd \<longrightarrow> get_fd fd' s' = get_fd fd' s)"
proof -
  have loc: "cur_loc s \<noteq> 0" and fd: "0 \<le> fd" "nat fd < length (file_desc (pcbs s (cur_loc s)))"
    using assms by (auto simp: get_fd_def cur_pcb_def get_pcb_def bindE_eq_Ok split: if_splits)
  show ?thesis
    using assms loc fd
    by (auto simp: upd_fd_def upd_pcb_def get_fd_def cur_pcb_def get_pcb_def cur_loc_def
        translate_def fun_eq_iff nth_list_update)
qed

subsection \<open>Reading a file\<close>

text \<open>The image \<open>M\<close> on the addresses \<open>A\<close>, as the current address space shows it.\<close>

definition has_image :: "u32 set \<Rightarrow> (u32 \<Rightarrow> u8) \<Rightarrow> 'a machine_scheme \<Rightarrow> bool" where
  "has_image A M s \<longleftrightarrow> (\<forall>a \<in> A. ld a s = Ok (M a))"

definition apart :: "u32 set \<Rightarrow> u32 \<Rightarrow> nat \<Rightarrow> 'a machine_scheme \<Rightarrow> bool" where
  "apart A p n s \<longleftrightarrow> (\<forall>a \<in> A. \<forall>i < n. translate s a \<noteq> translate s (p + of_nat i))"

lemma image_holds: "has_image A M s \<Longrightarrow> apart A p n s \<Longrightarrow> usr_fs.holds p n s A M"
  unfolding usr_fs.holds_def
proof
  fix a
  assume "has_image A M s" "apart A p n s" "a \<in> A"
  then have l: "ld a s = Ok (M a)" "\<forall>i < n. translate s a \<noteq> translate s (p + of_nat i)"
    by (auto simp: has_image_def apart_def)
  then obtain q where q: "translate s a = Some q" by (auto simp: ld_def split: option.splits)
  then have "q \<notin> frame_of p n s" using l(2) by (auto simp: frame_of_def)
  with q l(1) show "a \<in> clear_of p n s \<and> ld a s = Ok (M a)" by (simp add: clear_of_def)
qed

lemma holds_image: "usr_fs.holds p n s A M \<Longrightarrow> has_image A M s"
  by (auto simp: usr_fs.holds_def has_image_def)

text \<open>
  A file of the image that \<open>fs_read\<close> accepts: everything it looks at is in \<open>A\<close>, the blocks
  of the file are blocks of the image, and the directory entry with the number of the inode,
  which \<open>fs_read\<close> loads to see that the number is valid, is an entry.
\<close>

definition entry_in :: "u32 set \<Rightarrow> (u32 \<Rightarrow> u8) \<Rightarrow> u32 \<Rightarrow> nat \<Rightarrow> bool" where
  "entry_in A M bt i \<longleftrightarrow> word_in A (num_inodes_at bt) \<and> i \<le> unat (ld32 M (num_inodes_at bt)) \<and>
     (\<forall>j < 64. entry_at bt (of_nat i) + of_nat j \<in> A) \<and>
     (\<exists>j < 64. M (entry_at bt (of_nat i) + of_nat j) = 0)"

definition file_in :: "u32 set \<Rightarrow> (u32 \<Rightarrow> u8) \<Rightarrow> u32 \<Rightarrow> u32 \<Rightarrow> u32 \<Rightarrow> bool" where
  "file_in A M bt dt ino \<longleftrightarrow> header_in A bt ino \<and> ino \<le> MAX_DATA_NUM \<and> entry_in A M bt (unat ino) \<and>
     (\<forall>q < unat (file_length M bt ino). stored M A bt dt ino q)"

lemma image_index:
  assumes "has_image A M s" and "entry_in A M bt (unat i)"
  shows "read_dentry_by_index (\<lambda>a. ld a s) bt i = Ok (0, Some (entry M bt (unat i)))"
proof -
  have at: "ld a s = Ok (M a)" if "a \<in> A" for a using assms(1) that by (simp add: has_image_def)
  have "loads (\<lambda>a. ld a s) (num_inodes_at bt) 4 M"
  proof -
    have "num_inodes_at bt + of_nat j \<in> A" if "j < 4" for j
    proof -
      have "j = 0 \<or> j = 1 \<or> j = 2 \<or> j = 3" using that by auto
      then show ?thesis using assms(2) unfolding entry_in_def word_in_def by auto
    qed
    then show ?thesis using at by (auto simp: loads_def)
  qed
  moreover have "entry_ok (\<lambda>a. ld a s) M bt (unat i)"
    using assms(2) at by (auto simp: entry_ok_def entry_in_def loads_def)
  moreover have "unat i \<le> unat (ld32 M (num_inodes_at bt))" using assms(2) by (simp add: entry_in_def)
  ultimately show ?thesis by (simp add: read_dentry_by_index_eq)
qed

lemma image_length:
  "has_image A M s \<Longrightarrow> header_in A bt ino \<Longrightarrow> inode_length (\<lambda>a. ld a s) bt ino = Ok (file_length M bt ino)"
  using usr_fs.load32_holds [OF image_holds, of A M s 0 0 "inode_at bt ino"]
  by (simp add: inode_length_def header_in_def file_length_def apart_def)

text \<open>
  A read inside the file delivers the next bytes of the file, advances the position by their
  number, and leaves the image as it was, so reads can be repeated.
\<close>

lemma fs_read_bytes:
  assumes "has_image A M s" and "apart A buf n s" and "mapped buf n s" and "buf \<noteq> 0"
    and "file_in A M (boot s) (data s) (inode_ptr e)"
    and "get_fd fd s = Ok e" and "0 < n" and "n < 2 ^ 31"
    and "unat (file_pos e) + n \<le> unat (file_length M (boot s) (inode_ptr e))"
  shows "\<exists>s'. fs_read fd buf (int n) s = Ok (int n, s') \<and>
    (\<forall>i < n. ld (buf + of_nat i) s' =
      Ok (file_byte M (boot s) (data s) (inode_ptr e) (unat (file_pos e) + i))) \<and>
    get_fd fd s' = Ok (e\<lparr>file_pos := file_pos e + of_nat n\<rparr>) \<and>
    has_image A M s' \<and> translate s' = translate s \<and> boot s' = boot s \<and> data s' = data s"
proof -
  let ?ino = "inode_ptr e" and ?n = "of_nat n :: u32"
  have un: "unat ?n = n" using assms(8) by (simp add: unat_of_nat_u32)
  have sn: "sint ?n = int n" using assms(8) by (simp add: sint_of_nat_u32)
  have nz: "?n \<noteq> 0" using un assms(7) by auto
  have fl: "header_in A (boot s) ?ino" "?ino \<le> MAX_DATA_NUM" "entry_in A M (boot s) (unat ?ino)"
    "\<forall>q < unat (file_length M (boot s) ?ino). stored M A (boot s) (data s) ?ino q"
    using assms(5) by (simp_all add: file_in_def)
  have holds: "usr_fs.holds buf n s A M" by (rule image_holds [OF assms(1,2)])
  have cap: "usr_cap buf n s = n" using assms(3) by (simp add: usr_cap_def)
  obtain t where read: "read_data (\<lambda>s a. ld a s) (ptr_wr buf) False (boot s) (data s) ?ino (file_pos e) ?n s =
      Ok (int n, t)"
    and w: "usr.writes buf n 0 n (\<lambda>i. file_byte M (boot s) (data s) ?ino (unat (file_pos e) + i)) s t"
    using usr_fs.read_data_within [OF holds fl(1) nz fl(2), of "file_pos e" "data s"] fl(4) assms(9)
    by (auto simp: un cap sn)
  have rest: "usr_rest buf n t = usr_rest buf n s" and bytes: "\<forall>i < n. ld (buf + of_nat i) t =
      Ok (file_byte M (boot s) (data s) ?ino (unat (file_pos e) + i))"
    using w by (auto simp: usr.writes_def cap ptr_rd_def)
  note same = same_procsD [OF usr_rest_same_procs [OF rest]]
  have fd: "get_fd fd t = Ok e" using same(1) assms(6) by simp
  obtain s' where s': "upd_fd fd (\<lambda>e. e\<lparr>file_pos := file_pos e + ?n\<rparr>) t = Ok s'"
    "get_fd fd s' = Ok (e\<lparr>file_pos := file_pos e + ?n\<rparr>)" "mem s' = mem t" "translate s' = translate t"
    "boot s' = boot t" "data s' = data t"
    using get_fd_upd [OF fd, of "\<lambda>e. e\<lparr>file_pos := file_pos e + ?n\<rparr>"] by blast
  have ld: "ld a s' = ld a t" for a unfolding ld_def s'(3,4) ..
  have "fs_read fd buf (int n) s = Ok (int n, s')"
    using assms(4,6,7) read s'(1) image_index [OF assms(1) fl(3)] image_length [OF assms(1) fl(1)]
    by (simp add: fs_read_def Let_def)
  moreover have "has_image A M s'"
    using holds_image [OF usr_fs.holds_kept [OF holds rest]] by (simp add: has_image_def ld)
  ultimately show ?thesis
    using bytes s' same(4-6) by (simp add: ld)
qed

subsection \<open>Reading a directory\<close>

lemma length_entry [simp]: "length (entry M bt i) = 64"
  by (simp add: entry_def bytes_at_def)

text \<open>The length of the name in an entry: up to its first zero byte.\<close>

definition name_length :: "(u32 \<Rightarrow> u8) \<Rightarrow> u32 \<Rightarrow> nat \<Rightarrow> nat" where
  "name_length M bt i = length (takeWhile (\<lambda>c. c \<noteq> 0) (entry M bt i))"

lemma name_c_string:
  assumes "\<exists>j < 64. M (entry_at bt (of_nat i) + of_nat j) = 0"
  shows "c_string (\<lambda>j. arr_rd j (entry M bt i)) (name_length M bt i)" and "name_length M bt i < 64"
proof -
  let ?d = "entry M bt i"
  have "\<exists>x \<in> set ?d. \<not> x \<noteq> 0" using assms by (force simp: entry_def bytes_at_def)
  then have "0 < length (dropWhile (\<lambda>c. c \<noteq> 0) ?d)" by (simp add: dropWhile_eq_Nil_conv)
  then have lt: "name_length M bt i < length ?d"
    using arg_cong [OF takeWhile_dropWhile_id [of "\<lambda>c. c \<noteq> 0" ?d], of length]
    unfolding name_length_def length_append by linarith
  then show "name_length M bt i < 64" by simp
  have "?d ! name_length M bt i = 0"
    using nth_length_takeWhile [of "\<lambda>c. c \<noteq> 0" ?d] lt by (simp add: name_length_def)
  moreover have "?d ! j \<noteq> 0" if "j < name_length M bt i" for j
    using that takeWhile_nth [of j "\<lambda>c. c \<noteq> 0" ?d] set_takeWhileD [of "?d ! j" "\<lambda>c. c \<noteq> 0" ?d]
    unfolding name_length_def by (metis nth_mem)
  ultimately show "c_string (\<lambda>j. arr_rd j ?d) (name_length M bt i)"
    using lt by (auto simp: c_string_def arr_rd_def)
qed

text \<open>
  A directory read delivers the name of the entry at the position, cut to what the caller has
  room for and to 32 bytes, and moves to the next entry.
\<close>

lemma dir_read_name:
  assumes "has_image A M s" and "entry_in A M (boot s) (unat (file_pos e))"
    and "get_fd fd s = Ok e" and "buf \<noteq> 0" and "n < 2 ^ 31"
    and "name_length M (boot s) (unat (file_pos e)) \<noteq> 0"
  defines "k \<equiv> min (min (name_length M (boot s) (unat (file_pos e))) n) NAME_SIZE"
  assumes "mapped buf k s"
  shows "\<exists>s'. dir_read fd buf (int n) s = Ok (int k, s') \<and>
    (\<forall>i < k. ld (buf + of_nat i) s' = Ok (entry M (boot s) (unat (file_pos e)) ! i)) \<and>
    get_fd fd s' = Ok (e\<lparr>file_pos := file_pos e + 1\<rparr>)"
proof -
  let ?i = "unat (file_pos e)"
  define d where "d = entry M (boot s) ?i"
  define len where "len = name_length M (boot s) ?i"
  have nul: "\<exists>j < 64. M (entry_at (boot s) (of_nat ?i) + of_nat j) = 0"
    using assms(2) by (simp add: entry_in_def)
  have str: "strlen (\<lambda>j. arr_rd j d) = Ok len" and len: "len < 64"
    using name_c_string [OF nul] unfolding d_def len_def by (auto intro: strlen_c_string)
  have "d ! 0 \<noteq> 0"
  proof
    assume "d ! 0 = 0"
    then have "takeWhile (\<lambda>c. c \<noteq> 0) d = []" by (cases d) auto
    then show False using assms(6) by (simp add: name_length_def d_def)
  qed
  define m :: u32 where "m = (if of_nat len < (of_nat n :: u32) then of_nat len else of_nat n)"
  define m' where "m' = (if sint m > int NAME_SIZE then of_nat NAME_SIZE else m)"
  have m: "m = of_nat (min len n)"
    using len assms(5) by (auto simp: m_def word_less_nat_alt unat_of_nat_u32 min_def)
  then have "sint m = int (min len n)" using len by (simp add: sint_of_nat_u32 min_less_iff_disj)
  then have m': "m' = of_nat k"
    using m unfolding m'_def k_def len_def [symmetric] by (auto simp: min_def)
  have k: "k < 64" by (simp add: k_def min_less_iff_disj)
  have un: "unat m' = k" and sn: "sint m' = int k"
    using k by (simp_all add: m' unat_of_nat_u32 sint_of_nat_u32)
  have len_take: "length (take k d) = k" using k by (simp add: d_def)
  obtain t where t: "copy_out buf (take k d) s = Ok t" "\<forall>i < k. ptr_rd buf i t = Ok (d ! i)"
    "usr_rest buf k t = usr_rest buf k s"
    using copy_out_bytes [of buf "take k d" s, unfolded len_take, OF assms(8)] by auto
  have fd: "get_fd fd t = Ok e"
    using same_procsD(1) [OF usr_rest_same_procs [OF t(3)]] assms(3) by simp
  obtain s' where s': "upd_fd fd (\<lambda>e'. e'\<lparr>file_pos := file_pos e + 1\<rparr>) t = Ok s'"
    "get_fd fd s' = Ok (e\<lparr>file_pos := file_pos e + 1\<rparr>)" "mem s' = mem t" "translate s' = translate t"
    using get_fd_upd [OF fd, of "\<lambda>e'. e'\<lparr>file_pos := file_pos e + 1\<rparr>"] by blast
  have ld: "ld a s' = ld a t" for a unfolding ld_def s'(3,4) ..
  have "dir_read fd buf (int n) s =
      bindE (copy_out buf (take (unat m') d) s) (\<lambda>s.
      bindE (upd_fd fd (\<lambda>e'. e'\<lparr>file_pos := file_pos e + 1\<rparr>) s) (\<lambda>s. Ok (sint m', s)))"
    using assms(3,4) image_index [OF assms(1,2)] \<open>d ! 0 \<noteq> 0\<close> str
    unfolding m'_def m_def by (simp add: dir_read_def Let_def flip: d_def)
  then have "dir_read fd buf (int n) s = Ok (int k, s')"
    using t(1) s'(1) by (simp add: un sn)
  then show ?thesis using t(2) s'(2) by (auto simp: ld ptr_rd_def d_def)
qed

text \<open>Behind the last inode number, or at an entry without a name, the directory ends.\<close>

lemma dir_read_end:
  assumes "has_image A M s" and "get_fd fd s = Ok e" and "buf \<noteq> 0"
    and "word_in A (num_inodes_at (boot s))"
    and "unat (ld32 M (num_inodes_at (boot s))) < unat (file_pos e)"
  shows "dir_read fd buf nbytes s = Ok (0, s)"
proof -
  have "load32 (\<lambda>a. ld a s) (num_inodes_at (boot s)) = Ok (ld32 M (num_inodes_at (boot s)))"
    using usr_fs.load32_holds [OF image_holds, of A M s 0 0] assms(1,4) by (simp add: apart_def)
  then show ?thesis
    using assms(2,3,5) by (simp add: dir_read_def read_dentry_by_index_def word_less_nat_alt)
qed

lemma dir_read_unnamed:
  assumes "has_image A M s" and "entry_in A M (boot s) (unat (file_pos e))"
    and "get_fd fd s = Ok e" and "buf \<noteq> 0" and "entry M (boot s) (unat (file_pos e)) ! 0 = 0"
  shows "dir_read fd buf nbytes s = Ok (0, s)"
  using assms(3-5) image_index [OF assms(1,2)] by (simp add: dir_read_def)

end
