(* ===== verification/Paging.thy ===== *)
theory Paging
  imports Mmu
begin

text \<open>
  Page directories and tables (\<open>paging.c\<close>). One directory is built at boot and one for each
  of the six process slots; all have the same form and differ in the physical 4MB page behind
  128MB. Where the linker puts the arrays is the argument \<open>L\<close> of the operations.
\<close>

abbreviation KERNEL_BEGIN :: u32 where "KERNEL_BEGIN \<equiv> 0x00400000"
abbreviation TABLE_SIZE :: nat where "TABLE_SIZE \<equiv> 1024"
abbreviation PAGE_SIZE :: u32 where "PAGE_SIZE \<equiv> 4096"
abbreviation MAX_STACK :: u32 where "MAX_STACK \<equiv> 0x2000"
abbreviation MB4 :: u32 where "MB4 \<equiv> 0x00400000"
abbreviation MB8 :: u32 where "MB8 \<equiv> 0x00800000"
abbreviation MB16 :: u32 where "MB16 \<equiv> 0x01000000"
abbreviation ADDR_MASK :: u32 where "ADDR_MASK \<equiv> 0xFFFFF000"
abbreviation PRESENT_BIT :: u32 where "PRESENT_BIT \<equiv> 0x00000001"
abbreviation RW_BIT :: u32 where "RW_BIT \<equiv> 0x00000002"
abbreviation SIZE_BIT :: u32 where "SIZE_BIT \<equiv> 0x00000080"
abbreviation GLOBAL_BIT :: u32 where "GLOBAL_BIT \<equiv> 0x00000100"
abbreviation PRWS_BIT :: u32 where "PRWS_BIT \<equiv> 0x00000003"
abbreviation USER_BIT :: u32 where "USER_BIT \<equiv> 0x00000004"
abbreviation cr4_BITSET :: u32 where "cr4_BITSET \<equiv> 0x00000010"
abbreviation cr0_ENABLE :: u32 where "cr0_ENABLE \<equiv> 0x80000001"
abbreviation PDENTRY128 :: nat where "PDENTRY128 \<equiv> 32"
abbreviation PDENTRY136 :: nat where "PDENTRY136 \<equiv> 34"
abbreviation PDENTRY144 :: nat where "PDENTRY144 \<equiv> 36"
abbreviation VIDMEM :: u32 where "VIDMEM \<equiv> 0x000B8000"

subsection \<open>Where the tables are\<close>

record layout =
  page_directory :: u32
  page_table :: u32
  vid_table :: u32
  prog_pd :: "nat \<Rightarrow> u32"
  prog_pt :: "nat \<Rightarrow> u32"
  prog_vt :: "nat \<Rightarrow> u32"
  prog_term :: "nat \<Rightarrow> u32"

subsection \<open>Operations\<close>

definition set_entry :: "u32 \<Rightarrow> nat \<Rightarrow> u32 \<Rightarrow> 'a machine_scheme \<Rightarrow> 'a machine_scheme" where
  "set_entry base i v s = s\<lparr>tabs := (tabs s)(base := (tabs s base)(i := v))\<rparr>"

definition paging_init :: "layout \<Rightarrow> 'a machine_scheme \<Rightarrow> 'a machine_scheme" where
  "paging_init L s =
     (let val = page_table L AND ADDR_MASK;
          val = val OR PRESENT_BIT OR RW_BIT;
          s = set_entry (page_directory L) 0 val s;
          (val, s) = for_loop 0 TABLE_SIZE (\<lambda>i (val, s).
            (val + PAGE_SIZE, set_entry (page_table L) i (val OR PRWS_BIT) s)) (0, s);
          val = KERNEL_BEGIN OR PRESENT_BIT OR RW_BIT OR SIZE_BIT OR GLOBAL_BIT;
          s = set_entry (page_directory L) 1 val s;
          val = MB8 OR PRESENT_BIT OR RW_BIT OR SIZE_BIT OR USER_BIT;
          s = set_entry (page_directory L) PDENTRY128 val s;
          s = set_entry (page_table L) 0 0 s;
          val = VIDMEM AND ADDR_MASK;
          val = val OR PRESENT_BIT OR RW_BIT OR USER_BIT;
          s = set_entry (vid_table L) 0 val s;
          val = vid_table L AND ADDR_MASK;
          val = val OR PRESENT_BIT OR RW_BIT OR USER_BIT;
          s = set_entry (page_directory L) PDENTRY136 val s;
          s = s\<lparr>cr3 := page_directory L\<rparr>;
          s = s\<lparr>cr4 := cr4 s OR cr4_BITSET\<rparr>
      in s\<lparr>cr0 := cr0 s OR cr0_ENABLE\<rparr>)"

text \<open>The body of the second loop of \<open>prog_init\<close>.\<close>

definition term_step :: "u32 \<Rightarrow> nat \<Rightarrow> u32 \<times> 'a machine_scheme \<Rightarrow> u32 \<times> 'a machine_scheme" where
  "term_step b i = (\<lambda>(val, s).
      let val = val AND ADDR_MASK;
          val = val OR PRESENT_BIT OR RW_BIT;
          s = set_entry b i val s
      in (val + PAGE_SIZE, s))"

text \<open>The six \<open>prog\<close>\<open>k\<close>\<open>_init\<close> are copies of one another; \<open>base\<close> is the page behind 128MB.\<close>

definition prog_init :: "u32 \<Rightarrow> u32 \<Rightarrow> u32 \<Rightarrow> u32 \<Rightarrow> u32 \<Rightarrow> 'a machine_scheme \<Rightarrow> 'a machine_scheme" where
  "prog_init pd pt vt term base s =
     (let val = pt AND ADDR_MASK;
          val = val OR PRESENT_BIT OR RW_BIT;
          s = set_entry pd 0 val s;
          val = KERNEL_BEGIN OR PRESENT_BIT OR RW_BIT OR SIZE_BIT OR GLOBAL_BIT;
          s = set_entry pd 1 val s;
          (val, s) = for_loop 0 TABLE_SIZE (\<lambda>i (val, s).
            (val + PAGE_SIZE, set_entry pt i (val OR PRWS_BIT) s)) (0, s);
          val = base OR PRESENT_BIT OR RW_BIT OR SIZE_BIT OR USER_BIT;
          s = set_entry pd PDENTRY128 val s;
          s = set_entry pt 0 0 s;
          val = VIDMEM AND ADDR_MASK;
          val = val OR PRESENT_BIT OR RW_BIT OR USER_BIT;
          s = set_entry vt 0 val s;
          val = vt AND ADDR_MASK;
          val = val OR PRESENT_BIT OR RW_BIT OR USER_BIT;
          s = set_entry pd PDENTRY136 val s;
          (val, s) = for_loop 0 TABLE_SIZE (term_step term) (MB16 + MB16, s);
          val = term AND ADDR_MASK;
          val = val OR PRESENT_BIT OR RW_BIT;
          s = set_entry pd PDENTRY144 val s
      in s\<lparr>cr3 := pd\<rparr>)"

definition prog1_init :: "layout \<Rightarrow> 'a machine_scheme \<Rightarrow> 'a machine_scheme" where
  "prog1_init L = prog_init (prog_pd L 1) (prog_pt L 1) (prog_vt L 1) (prog_term L 1) (MB8 + MB4 * 0)"

definition prog2_init :: "layout \<Rightarrow> 'a machine_scheme \<Rightarrow> 'a machine_scheme" where
  "prog2_init L = prog_init (prog_pd L 2) (prog_pt L 2) (prog_vt L 2) (prog_term L 2) (MB8 + MB4 * 1)"

definition prog3_init :: "layout \<Rightarrow> 'a machine_scheme \<Rightarrow> 'a machine_scheme" where
  "prog3_init L = prog_init (prog_pd L 3) (prog_pt L 3) (prog_vt L 3) (prog_term L 3) (MB8 + MB4 * 2)"

definition prog4_init :: "layout \<Rightarrow> 'a machine_scheme \<Rightarrow> 'a machine_scheme" where
  "prog4_init L = prog_init (prog_pd L 4) (prog_pt L 4) (prog_vt L 4) (prog_term L 4) (MB8 + MB4 * 3)"

definition prog5_init :: "layout \<Rightarrow> 'a machine_scheme \<Rightarrow> 'a machine_scheme" where
  "prog5_init L = prog_init (prog_pd L 5) (prog_pt L 5) (prog_vt L 5) (prog_term L 5) (MB8 + MB4 * 4)"

text \<open>\<open>prog6_init\<close> sets the four bits of the user page twice.\<close>

definition prog6_init :: "layout \<Rightarrow> 'a machine_scheme \<Rightarrow> 'a machine_scheme" where
  "prog6_init L = prog_init (prog_pd L 6) (prog_pt L 6) (prog_vt L 6) (prog_term L 6)
     ((MB8 + MB4 * 5) OR PRESENT_BIT OR RW_BIT OR SIZE_BIT OR USER_BIT)"

text \<open>\<open>execute\<close> selects by the process id it has stored in the PCB.\<close>

definition progs_init :: "layout \<Rightarrow> u32 \<Rightarrow> 'a machine_scheme \<Rightarrow> 'a machine_scheme" where
  "progs_init L pid s =
     (if pid = 0 then prog1_init L s
      else if pid = 1 then prog2_init L s
      else if pid = 2 then prog3_init L s
      else if pid = 3 then prog4_init L s
      else if pid = 4 then prog5_init L s
      else if pid = 5 then prog6_init L s
      else s)"

subsection \<open>The tables after initialisation\<close>

definition low_table :: "(nat \<Rightarrow> u32) \<Rightarrow> nat \<Rightarrow> u32" where
  "low_table t i = (if i = 0 then 0 else if i < TABLE_SIZE then of_nat (4096 * i) OR PRWS_BIT else t i)"

definition term_table :: "(nat \<Rightarrow> u32) \<Rightarrow> nat \<Rightarrow> u32" where
  "term_table t i = (if i < TABLE_SIZE then (0x02000000 + of_nat (4096 * i)) OR PRWS_BIT else t i)"

lemma set_entry_simps [simp]:
  "tabs (set_entry b i v s) = (tabs s)(b := (tabs s b)(i := v))"
  "cr0 (set_entry b i v s) = cr0 s" "cr3 (set_entry b i v s) = cr3 s" "cr4 (set_entry b i v s) = cr4 s"
  "mem (set_entry b i v s) = mem s" "dev (set_entry b i v s) = dev s"
  "io_log (set_entry b i v s) = io_log s" "machine.more (set_entry b i v s) = machine.more s"
  "esp (set_entry b i v s) = esp s" "ebp (set_entry b i v s) = ebp s"
  "eflags (set_entry b i v s) = eflags s"
  by (simp_all add: set_entry_def)

definition fill_table :: "u32 \<Rightarrow> nat \<Rightarrow> (nat \<Rightarrow> u32) \<Rightarrow> 'a machine_scheme \<Rightarrow> 'a machine_scheme" where
  "fill_table b n f s = s\<lparr>tabs := (tabs s)(b := (\<lambda>i. if i < n then f i else tabs s b i))\<rparr>"

lemma fill_table_0: "fill_table b 0 f s = s"
  by (simp add: fill_table_def)

lemma set_entry_fill: "set_entry b n (f n) (fill_table b n f s) = fill_table b (Suc n) f s"
  by (simp add: set_entry_def fill_table_def less_Suc_eq fun_eq_iff)

lemma fill_table_simps [simp]:
  "tabs (fill_table b n f s) = (tabs s)(b := (\<lambda>i. if i < n then f i else tabs s b i))"
  "cr0 (fill_table b n f s) = cr0 s" "cr3 (fill_table b n f s) = cr3 s" "cr4 (fill_table b n f s) = cr4 s"
  "mem (fill_table b n f s) = mem s" "dev (fill_table b n f s) = dev s"
  "io_log (fill_table b n f s) = io_log s" "machine.more (fill_table b n f s) = machine.more s"
  "esp (fill_table b n f s) = esp s" "ebp (fill_table b n f s) = ebp s"
  "eflags (fill_table b n f s) = eflags s"
  by (simp_all add: fill_table_def)

lemma low_loop:
  "for_loop 0 n (\<lambda>i (val, s). (val + PAGE_SIZE, set_entry b i (val OR PRWS_BIT) s)) (0, s) =
    (of_nat (4096 * n), fill_table b n (\<lambda>i. of_nat (4096 * i) OR PRWS_BIT) s)"
proof (induction n)
  case 0
  then show ?case by (simp add: fill_table_0)
next
  case (Suc n)
  show ?case
    by (subst for_loop_Suc) (simp_all only: Suc split set_entry_fill [where f = "\<lambda>i. of_nat (4096 * i) OR PRWS_BIT"], simp)
qed

text \<open>Page-aligned words.\<close>

lemma masks:
  "ADDR_MASK = NOT (mask 12)" "(0xFFF :: u32) = mask 12" "(0x3FF :: u32) = mask 10"
  "(0x3FFFFF :: u32) = mask 22" "(0xFFC00000 :: u32) = NOT (mask 22)" "PRWS_BIT = mask 2"
  "(7 :: u32) = mask 3"
  by (simp_all add: mask_eq_exp_minus_1)

lemma page_word: "(of_nat (4096 * i) :: u32) = push_bit 12 (of_nat i)"
  by (simp add: push_bit_eq_mult mult.commute)

lemma page_add: "push_bit 12 w + mask 2 = (push_bit 12 w OR mask 2 :: u32)"
  by (rule disjunctive_add_eq_or) (rule bit_word_eqI, auto simp: bit_simps)

lemma page_masked: "n \<le> 12 \<Longrightarrow> (push_bit 12 w OR mask n) AND NOT (mask 12) = (push_bit 12 w :: u32)"
  by (rule bit_word_eqI) (auto simp: bit_simps)

lemma page_masked_0: "push_bit 12 w AND NOT (mask 12) = (push_bit 12 w :: u32)"
  by (rule bit_word_eqI) (auto simp: bit_simps)

definition page_aligned :: "u32 \<Rightarrow> bool" where
  "page_aligned b \<longleftrightarrow> b AND ADDR_MASK = b"

lemma page_alignedE:
  assumes "page_aligned b"
  obtains w where "b = push_bit 12 w"
proof
  show "b = push_bit 12 (drop_bit 12 b)"
    using assms unfolding page_aligned_def masks(1)
    by (auto simp: bit_eq_iff bit_simps)
qed

lemma term_loop:
  "for_loop 0 n (term_step b) (MB16 + MB16, s) =
    (0x02000000 + of_nat (4096 * n) + (if n = 0 then 0 else PRWS_BIT),
     fill_table b n (\<lambda>i. (0x02000000 + of_nat (4096 * i)) OR PRWS_BIT) s)"
proof (induction n)
  case 0
  then show ?case by (simp add: fill_table_0)
next
  case (Suc n)
  define w :: u32 where "w = 0x2000 + of_nat n"
  have w: "0x02000000 + of_nat (4096 * n) = push_bit 12 w"
    "0x02000000 + of_nat (4096 * Suc n) = push_bit 12 w + PAGE_SIZE"
    by (simp_all add: w_def push_bit_eq_mult algebra_simps)
  have v: "(push_bit 12 w + (if n = 0 then 0 else PRWS_BIT)) AND ADDR_MASK = push_bit 12 w"
    unfolding masks page_add by (simp add: page_add page_masked page_masked_0)
  have f: "(push_bit 12 w OR PRESENT_BIT OR RW_BIT) = push_bit 12 w OR PRWS_BIT"
    by (simp add: or.assoc)
  have e: "push_bit 12 w OR PRWS_BIT = push_bit 12 w + PRWS_BIT"
    unfolding masks page_add ..
  have s: "set_entry b n (push_bit 12 w OR PRWS_BIT)
      (fill_table b n (\<lambda>i. (0x02000000 + of_nat (4096 * i)) OR PRWS_BIT) s) =
    fill_table b (Suc n) (\<lambda>i. (0x02000000 + of_nat (4096 * i)) OR PRWS_BIT) s"
    unfolding w(1) [symmetric]
    by (rule set_entry_fill [where f = "\<lambda>i. (0x02000000 + of_nat (4096 * i)) OR PRWS_BIT"])
  have "term_step b n (push_bit 12 w + (if n = 0 then 0 else PRWS_BIT), t) =
      (push_bit 12 w + PRWS_BIT + PAGE_SIZE, set_entry b n (push_bit 12 w OR PRWS_BIT) t)" for t :: "'a machine_scheme"
    unfolding term_step_def split Let_def v f by (simp only: e)
  then show ?case
    by (subst for_loop_Suc) (simp_all only: Suc w s, simp)
qed

lemma prog_init_tabs:
  assumes "distinct [pd, pt, vt, tm]" and "page_aligned pt" and "page_aligned vt" and "page_aligned tm"
  shows "tabs (prog_init pd pt vt tm base s) = (tabs s)
    (pd := (tabs s pd)(0 := pt OR PRWS_BIT, 1 := 0x00400183, PDENTRY128 := base OR 0x87,
       PDENTRY136 := vt OR 7, PDENTRY144 := tm OR PRWS_BIT),
     pt := low_table (tabs s pt), vt := (tabs s vt)(0 := 0x000B8007), tm := term_table (tabs s tm))"
proof -
  have [simp]: "pt AND ADDR_MASK = pt" "vt AND ADDR_MASK = vt" "tm AND ADDR_MASK = tm"
    using assms by (simp_all add: page_aligned_def)
  have loops: "tabs (fill_table b n f t) b' = (if b' = b then (\<lambda>i. if i < n then f i else tabs t b i) else tabs t b')"
    for b n f b' and t :: "'a machine_scheme" by simp
  show ?thesis
    unfolding prog_init_def low_loop term_loop Let_def split
    using assms(1)
    by (intro ext) (simp add: or.assoc low_table_def term_table_def fun_upd_twist)
qed

lemma prog_init_frame [frame_simps]:
  "mem (prog_init pd pt vt tm base s) = mem s" "dev (prog_init pd pt vt tm base s) = dev s"
  "io_log (prog_init pd pt vt tm base s) = io_log s"
  "cr0 (prog_init pd pt vt tm base s) = cr0 s" "cr4 (prog_init pd pt vt tm base s) = cr4 s"
  "cr3 (prog_init pd pt vt tm base s) = pd"
  "esp (prog_init pd pt vt tm base s) = esp s" "ebp (prog_init pd pt vt tm base s) = ebp s"
  "eflags (prog_init pd pt vt tm base s) = eflags s"
  "machine.more (prog_init pd pt vt tm base s) = machine.more s"
  unfolding prog_init_def low_loop term_loop Let_def split by simp_all

subsection \<open>Address spaces\<close>

text \<open>What user mode can reach: both levels must have the user bit.\<close>

definition user_walk :: "(u32 \<Rightarrow> nat \<Rightarrow> u32) \<Rightarrow> u32 \<Rightarrow> u32 \<Rightarrow> u32 option" where
  "user_walk T dir a =
     (let pde = T (dir AND ADDR_MASK) (unat (drop_bit 22 a)) in
      if \<not> bit pde 2 then None
      else if bit pde 7 then walk T True dir a
      else
        let pte = T (pde AND ADDR_MASK) (unat (drop_bit 12 a AND 0x3FF)) in
        if bit pte 2 then walk T True dir a else None)"

text \<open>
  The tables of a process with the 4MB page \<open>base\<close>; \<open>te\<close> is the entry for 144MB, which
  the boot directory does not have.
\<close>

definition space :: "(u32 \<Rightarrow> nat \<Rightarrow> u32) \<Rightarrow> u32 \<Rightarrow> u32 \<Rightarrow> u32 \<Rightarrow> u32 \<Rightarrow> u32 \<Rightarrow> bool" where
  "space T pd pt vt te base \<longleftrightarrow>
     T pd = (\<lambda>_. 0)(0 := pt OR PRWS_BIT, 1 := 0x00400183, PDENTRY128 := base OR 0x87,
       PDENTRY136 := vt OR 7, PDENTRY144 := te) \<and>
     (\<forall>i < TABLE_SIZE. T pt i = low_table (\<lambda>_. 0) i) \<and>
     T vt = (\<lambda>_. 0)(0 := 0x000B8007)"

text \<open>Entries that no operation writes are zero, as the arrays are when the kernel is loaded.\<close>

definition unused_clear :: "(u32 \<Rightarrow> nat \<Rightarrow> u32) \<Rightarrow> u32 \<Rightarrow> u32 \<Rightarrow> bool" where
  "unused_clear T pd vt \<longleftrightarrow>
     (\<forall>i. i \<notin> {0, 1, PDENTRY128, PDENTRY136, PDENTRY144} \<longrightarrow> T pd i = 0) \<and> (\<forall>i. i \<noteq> 0 \<longrightarrow> T vt i = 0)"

lemma prog_init_space:
  assumes "distinct [pd, pt, vt, tm]" and "page_aligned pt" "page_aligned vt" "page_aligned tm"
    and "unused_clear (tabs s) pd vt"
  shows "space (tabs (prog_init pd pt vt tm base s)) pd pt vt (tm OR PRWS_BIT) base"
    and "\<forall>i < TABLE_SIZE. tabs (prog_init pd pt vt tm base s) tm i = term_table (\<lambda>_. 0) i"
  using assms(1,5) unfolding space_def prog_init_tabs [OF assms(1-4)]
  by (auto simp: unused_clear_def low_table_def term_table_def fun_eq_iff)

lemma unat_32: "unat (32 :: u32) = 32" and unat_34816: "unat (0x8800 :: u32) = 34816"
  by simp_all

lemma low_bits: "(a :: u32) = push_bit k (drop_bit k a) OR (a AND mask k)"
  by (rule bit_word_eqI) (auto simp: bit_simps)

lemma split_word: "(a :: u32) = push_bit k (drop_bit k a) + (a AND mask k)"
proof -
  have "push_bit k (drop_bit k a) AND (a AND mask k) = 0"
    by (rule bit_word_eqI) (auto simp: bit_simps)
  then show ?thesis using low_bits [of a k] by (simp add: disjunctive_add_eq_or)
qed

lemma drop_22_iff:
  fixes a :: u32
  assumes "k < 1023"
  shows "unat (drop_bit 22 a) = k \<longleftrightarrow> of_nat (k * 2 ^ 22) \<le> a \<and> a < of_nat (Suc k * 2 ^ 22)"
proof -
  have "unat (of_nat (k * 2 ^ 22) :: u32) = k * 2 ^ 22"
    "unat (of_nat (Suc k * 2 ^ 22) :: u32) = Suc k * 2 ^ 22"
    by (rule unat_of_nat_u32, use assms in simp)+
  moreover have "unat (drop_bit 22 a) = unat a div 4194304"
    by (subst unat_drop_bit_eq) (simp add: drop_bit_eq_div)
  moreover have "n div 4194304 = k \<longleftrightarrow> k * 4194304 \<le> n \<and> n < Suc k * 4194304" for n
    by auto
  ultimately show ?thesis
    by (simp only: word_le_nat_alt word_less_nat_alt) simp
qed

lemma frame_bits:
  assumes "f \<in> {PRWS_BIT, 7}"
  shows "(push_bit 12 w OR f) AND ADDR_MASK = (push_bit 12 w :: u32)"
    and "bit (push_bit 12 w OR f :: u32) 0" and "\<not> bit (push_bit 12 w OR f :: u32) 7"
    and "bit (push_bit 12 w OR f :: u32) 2 \<longleftrightarrow> f = 7"
proof -
  consider "f = mask 2" | "f = mask 3" using assms by (auto simp: masks)
  then show "(push_bit 12 w OR f) AND ADDR_MASK = (push_bit 12 w :: u32)"
    unfolding masks by cases (simp_all add: page_masked)
  show "bit (push_bit 12 w OR f :: u32) 0" "\<not> bit (push_bit 12 w OR f :: u32) 7"
    "bit (push_bit 12 w OR f :: u32) 2 \<longleftrightarrow> f = 7"
    using assms by (auto simp: bit_simps)
qed

lemma big_bits:
  "((push_bit 22 w OR 0x87) AND 0xFFC00000) = (push_bit 22 w :: u32)"
  "bit (push_bit 22 w OR 0x87 :: u32) 0" "bit (push_bit 22 w OR 0x87 :: u32) 7"
  "bit (push_bit 22 w OR 0x87 :: u32) 2"
proof -
  have "push_bit 22 w AND 0xFFC00000 = (push_bit 22 w :: u32)"
    unfolding masks(5) by (rule bit_word_eqI) (auto simp: bit_simps)
  then show "((push_bit 22 w OR 0x87) AND 0xFFC00000) = (push_bit 22 w :: u32)"
    by (simp add: bit.conj_disj_distrib2)
qed (simp_all add: bit_simps)

lemma page_or_offset: "push_bit k w OR (a AND mask k) = push_bit k w + (a AND mask k :: u32)"
  by (rule disjunctive_add_eq_or [symmetric]) (rule bit_word_eqI, auto simp: bit_simps)

lemma index_10: "unat (drop_bit 12 a AND 0x3FF :: u32) = unat (drop_bit 12 a) mod 1024"
  by (subst masks(3), subst take_bit_eq_mask [symmetric], subst unsigned_take_bit_eq)
    (simp add: take_bit_eq_mod)

text \<open>One lemma for each of the three forms of entry.\<close>

lemma walk_absent: "T (dir AND ADDR_MASK) (unat (drop_bit 22 a)) = 0 \<Longrightarrow> walk T pse dir a = None"
  and user_walk_absent: "T (dir AND ADDR_MASK) (unat (drop_bit 22 a)) = 0 \<Longrightarrow> user_walk T dir a = None"
  by (simp_all add: walk_def user_walk_def Let_def)

lemma walk_big:
  assumes "T (dir AND ADDR_MASK) (unat (drop_bit 22 a)) = push_bit 22 w OR 0x87"
  shows "walk T True dir a = Some (push_bit 22 w + (a AND mask 22))"
    and "user_walk T dir a = walk T True dir a"
  unfolding walk_def user_walk_def Let_def assms masks(4)
  by (simp_all add: big_bits page_or_offset)

lemma walk_small:
  assumes "T (dir AND ADDR_MASK) (unat (drop_bit 22 a)) = push_bit 12 v OR f"
    and "f \<in> {PRWS_BIT, 7}"
  defines "pte \<equiv> T (push_bit 12 v) (unat (drop_bit 12 a) mod 1024)"
  shows "walk T True dir a =
      (if bit pte 0 then Some ((pte AND ADDR_MASK) OR (a AND mask 12)) else None)"
    and "user_walk T dir a = (if f = 7 \<and> bit pte 2 then walk T True dir a else None)"
  unfolding walk_def user_walk_def Let_def assms(1) index_10 pte_def masks(2)
    frame_bits(1) [OF assms(2)]
  using frame_bits(2-4) [OF assms(2), of v] frame_bits(3) [of 7 v] by simp_all

text \<open>The map of a process, region by region.\<close>

lemma space_user_page:
  assumes "space T pd pt vt te (push_bit 22 w)" and "page_aligned pd"
    and "unat (drop_bit 22 a) = PDENTRY128"
  shows "walk T True pd a = Some (push_bit 22 w + (a AND mask 22))"
    and "user_walk T pd a = walk T True pd a"
proof -
  have "T (pd AND ADDR_MASK) (unat (drop_bit 22 a)) = push_bit 22 w OR 0x87"
    using assms by (simp add: space_def page_aligned_def)
  from walk_big [of T pd a w, OF this] show "walk T True pd a = Some (push_bit 22 w + (a AND mask 22))"
    "user_walk T pd a = walk T True pd a" .
qed

lemma space_video_page:
  assumes "space T pd pt vt te base" and "page_aligned pd" and "page_aligned vt"
    and "unat (drop_bit 22 a) = PDENTRY136"
  shows "walk T True pd a =
      (if unat (drop_bit 12 a) mod 1024 = 0 then Some (VIDMEM + (a AND mask 12)) else None)"
    and "user_walk T pd a = walk T True pd a"
proof -
  obtain v where v: "vt = push_bit 12 v" using assms(3) by (rule page_alignedE)
  have e: "T (pd AND ADDR_MASK) (unat (drop_bit 22 a)) = push_bit 12 v OR 7"
    using assms v by (simp add: space_def page_aligned_def)
  have "VIDMEM OR (a AND mask 12) = VIDMEM + (a AND mask 12)"
    using page_or_offset [where k = 12 and w = "0xB8" and a = a] by (simp add: push_bit_eq_mult)
  then show "walk T True pd a =
      (if unat (drop_bit 12 a) mod 1024 = 0 then Some (VIDMEM + (a AND mask 12)) else None)"
    "user_walk T pd a = walk T True pd a"
    using assms(1) walk_small [of T pd a v 7, OF e] v by (auto simp: space_def)
qed

lemma space_kernel_page:
  assumes "space T pd pt vt te base" and "page_aligned pd" and "unat (drop_bit 22 a) = 1"
  shows "walk T True pd a = Some a" and "user_walk T pd a = None"
proof -
  have e: "T (pd AND ADDR_MASK) (unat (drop_bit 22 a)) = 0x00400183"
    using assms by (simp add: space_def page_aligned_def)
  have "drop_bit 22 a = 1" using assms(3) by (metis unat_1 unsigned_word_eqI)
  then have "a = KERNEL_BEGIN + (a AND mask 22)"
    using split_word [of a 22] by (simp add: push_bit_eq_mult)
  moreover have "KERNEL_BEGIN OR (a AND mask 22) = KERNEL_BEGIN + (a AND mask 22)"
    using page_or_offset [where k = 22 and w = 1 and a = a] by (simp add: push_bit_eq_mult)
  ultimately show "walk T True pd a = Some a"
    unfolding walk_def Let_def e masks(4) by (simp add: bit_simps)
  show "user_walk T pd a = None"
    unfolding user_walk_def Let_def e by (simp add: bit_simps)
qed

lemma space_low_pages:
  assumes "space T pd pt vt te base" and "page_aligned pd" and "page_aligned pt"
    and "unat (drop_bit 22 a) = 0"
  shows "walk T True pd a = (if unat a < 4096 then None else Some a)" and "user_walk T pd a = None"
proof -
  obtain v where v: "pt = push_bit 12 v" using assms(3) by (rule page_alignedE)
  have e: "T (pd AND ADDR_MASK) (unat (drop_bit 22 a)) = push_bit 12 v OR PRWS_BIT"
    using assms v by (simp add: space_def page_aligned_def)
  define i where "i = unat (drop_bit 12 a)"
  have i: "i = unat a div 4096" unfolding i_def by (subst unat_drop_bit_eq) (simp add: drop_bit_eq_div)
  have "unat a < 4194304"
    using assms(4) drop_22_iff [of 0 a] by (simp add: word_less_nat_alt)
  then have small: "i < TABLE_SIZE" using i by simp
  then have pte: "T (push_bit 12 v) (unat (drop_bit 12 a) mod 1024) =
      (if i = 0 then 0 else push_bit 12 (drop_bit 12 a) OR PRWS_BIT)"
    using assms(1) v page_word [of i] by (simp add: space_def low_table_def flip: i_def)
      (simp add: i_def)
  have "(push_bit 12 (drop_bit 12 a) OR (a AND mask 12)) = a"
    by (rule low_bits [symmetric])
  then show "walk T True pd a = (if unat a < 4096 then None else Some a)"
    using walk_small(1) [of T pd a v PRWS_BIT, OF e] i frame_bits(1,2) [of PRWS_BIT "drop_bit 12 a"] unfolding pte
    by auto
  show "user_walk T pd a = None"
    using walk_small(2) [of T pd a v PRWS_BIT, OF e] by simp
qed

lemma video_page_index:
  assumes "(n :: nat) div 4194304 = 34"
  shows "n div 4096 mod 1024 = 0 \<longleftrightarrow> n < 142610432"
    and "n < 142610432 \<Longrightarrow> n div 4096 = 34816"
proof -
  have "n div 4096 div 1024 = 34" using assms by (simp flip: div_mult2_eq)
  then have m: "n div 4096 = 34816 + n div 4096 mod 1024"
    using div_mult_mod_eq [of "n div 4096" 1024] by simp
  have "n < 142610432 \<longleftrightarrow> n div 4096 < 34817" by auto
  with m show "n div 4096 mod 1024 = 0 \<longleftrightarrow> n < 142610432" by linarith
  then show "n < 142610432 \<Longrightarrow> n div 4096 = 34816" using m by simp
qed

text \<open>
  Isolation. Whatever the address, user mode of a process reaches only its own 4MB page behind
  128MB and the one video page behind 136MB.
\<close>

lemma space_isolated:
  assumes "space T pd pt vt te (push_bit 22 w)" and "page_aligned pd" "page_aligned pt"
    "page_aligned vt" and "te = 0 \<or> (\<exists>v. te = push_bit 12 v OR PRWS_BIT)"
  shows "user_walk T pd a =
    (if 0x08000000 \<le> a \<and> a < 0x08400000 then Some (push_bit 22 w + (a - 0x08000000))
     else if 0x08800000 \<le> a \<and> a < 0x08801000 then Some (VIDMEM + (a - 0x08800000))
     else None)"
proof -
  have r32: "unat (drop_bit 22 a) = PDENTRY128 \<longleftrightarrow> 0x08000000 \<le> a \<and> a < 0x08400000"
    using drop_22_iff [of 32 a] by simp
  have r34: "unat (drop_bit 22 a) = PDENTRY136 \<longleftrightarrow> 0x08800000 \<le> a \<and> a < 0x08C00000"
    using drop_22_iff [of 34 a] by simp
  have d22: "unat (drop_bit 22 a) = unat a div 4194304" by (subst unat_drop_bit_eq) (simp add: drop_bit_eq_div)
  have d12: "unat (drop_bit 12 a) = unat a div 4096" by (subst unat_drop_bit_eq) (simp add: drop_bit_eq_div)
  show ?thesis
  proof (cases "unat (drop_bit 22 a) = PDENTRY128")
    case True
    then have "drop_bit 22 a = 32" by (metis unsigned_word_eqI unat_32)
    then have "a - 0x08000000 = a AND mask 22"
      using split_word [of a 22] by (simp add: push_bit_eq_mult diff_eq_eq add.commute)
    then show ?thesis
      using space_user_page [OF assms(1,2) True] True r32 by simp
  next
    case not32: False
    show ?thesis
    proof (cases "unat (drop_bit 22 a) = PDENTRY136")
      case True
      then have range: "0x08800000 \<le> a" using r34 by simp
      have page: "unat (drop_bit 12 a) mod 1024 = 0 \<longleftrightarrow> a < 0x08801000"
        using video_page_index(1) [of "unat a"] True unfolding d12 d22 word_less_nat_alt by simp
      have "a - 0x08800000 = a AND mask 12" if "a < 0x08801000"
      proof -
        have "unat (drop_bit 12 a) = 34816"
          using video_page_index(2) [of "unat a"] True that unfolding d12 d22 word_less_nat_alt by simp
        then have "drop_bit 12 a = 0x8800" by (metis unsigned_word_eqI unat_34816)
        then show ?thesis
          using split_word [of a 12] by (simp add: push_bit_eq_mult diff_eq_eq add.commute)
      qed
      then show ?thesis
        using space_video_page [OF assms(1,2,4) True] page range not32 r32 by auto
    next
      case not34: False
      have "user_walk T pd a = None"
      proof -
        consider "unat (drop_bit 22 a) = 0" | "unat (drop_bit 22 a) = 1" | "unat (drop_bit 22 a) = PDENTRY144"
          | "T pd (unat (drop_bit 22 a)) = 0"
          using assms(1) not32 not34 by (force simp: space_def)
        then show ?thesis
        proof cases
          case 1
          then show ?thesis by (rule space_low_pages(2) [OF assms(1,2,3)])
        next
          case 2
          then show ?thesis by (rule space_kernel_page(2) [OF assms(1,2)])
        next
          case 3
          then have "T (pd AND ADDR_MASK) (unat (drop_bit 22 a)) = te"
            using assms(1,2) by (simp add: space_def page_aligned_def)
          then show ?thesis
            using assms(5) walk_small(2) [of T pd a _ PRWS_BIT] user_walk_absent [of T pd a] by auto
        next
          case 4
          then show ?thesis using assms(2) by (intro user_walk_absent) (simp add: page_aligned_def)
        qed
      qed
      moreover have "a < 0x08801000 \<Longrightarrow> a < 0x08C00000" by (simp add: word_less_nat_alt)
      ultimately show ?thesis using not32 not34 r32 r34 by auto
    qed
  qed
qed

text \<open>What every directory gives the kernel: the first 8MB mapped to themselves, except the page at 0.\<close>

lemma space_identity:
  assumes "space T pd pt vt te base" and "page_aligned pd" "page_aligned pt" and "a < 0x00800000"
  shows "walk T True pd a = (if a < 0x1000 then None else Some a)"
proof -
  have "unat (drop_bit 22 a) = unat a div 4194304" by (subst unat_drop_bit_eq) (simp add: drop_bit_eq_div)
  moreover have "unat a < 8388608" using assms(4) by (simp add: word_less_nat_alt)
  ultimately consider "unat (drop_bit 22 a) = 0" | "unat (drop_bit 22 a) = 1" "\<not> unat a < 4096"
    by (cases "unat a < 4194304") auto
  then show ?thesis
    using space_low_pages(1) [OF assms(1-3)] space_kernel_page(1) [OF assms(1,2)]
    by cases (simp_all add: word_less_nat_alt)
qed

text \<open>The background screens of the terminals: the 4MB behind 144MB are at 32MB.\<close>

lemma space_term_pages:
  assumes "space T pd pt vt (tm OR PRWS_BIT) base" and "\<forall>i < TABLE_SIZE. T tm i = term_table (\<lambda>_. 0) i"
    and "page_aligned pd" "page_aligned tm" and "unat (drop_bit 22 a) = PDENTRY144"
  shows "walk T True pd a = Some (a - 0x07000000)"
proof -
  obtain v where v: "tm = push_bit 12 v" using assms(4) by (rule page_alignedE)
  have e: "T (pd AND ADDR_MASK) (unat (drop_bit 22 a)) = push_bit 12 v OR PRWS_BIT"
    using assms v by (simp add: space_def page_aligned_def)
  define i where "i = unat (drop_bit 12 a) mod 1024"
  define w where "w = 0x2000 + (of_nat i :: u32)"
  have pte: "T (push_bit 12 v) i = push_bit 12 w OR PRWS_BIT"
    using assms(2) v by (simp add: term_table_def i_def w_def push_bit_eq_mult algebra_simps)
  have "a = push_bit 12 (drop_bit 12 a) + (a AND mask 12)" by (rule split_word)
  moreover have "drop_bit 12 a = 0x9000 + of_nat i"
  proof -
    have d: "unat (drop_bit 12 a) = unat a div 4096" "unat (drop_bit 22 a) = unat a div 4194304"
      by (subst unat_drop_bit_eq, simp add: drop_bit_eq_div)+
    have "unat a div 4096 div 1024 = 36" using assms(5) d by (simp flip: div_mult2_eq)
    then have "unat (drop_bit 12 a) = 36864 + i"
      using d div_mult_mod_eq [of "unat a div 4096" 1024] by (simp add: i_def)
    then have "(of_nat (unat (drop_bit 12 a)) :: u32) = of_nat (36864 + i)" by (rule arg_cong)
    then show ?thesis by simp
  qed
  ultimately have "a - 0x07000000 = push_bit 12 w + (a AND mask 12)"
    by (simp add: w_def push_bit_eq_mult algebra_simps)
  then show ?thesis
    using walk_small(1) [of T pd a v PRWS_BIT, OF e] frame_bits(1,2) [of PRWS_BIT w]
    by (simp add: page_or_offset flip: i_def add: pte)
qed

subsection \<open>The kernel's address spaces\<close>

definition tables_of :: "layout \<Rightarrow> u32 list" where
  "tables_of L = [page_directory L, page_table L, vid_table L] @
     concat (map (\<lambda>k. [prog_pd L k, prog_pt L k, prog_vt L k, prog_term L k]) [1..<7])"

definition layout_ok :: "layout \<Rightarrow> bool" where
  "layout_ok L \<longleftrightarrow> distinct (tables_of L) \<and> list_all page_aligned (tables_of L)"

lemma layout_okD:
  assumes "layout_ok L" and "1 \<le> k" and "k < 7"
  shows "distinct [prog_pd L k, prog_pt L k, prog_vt L k, prog_term L k]"
    and "page_aligned (prog_pd L k)" and "page_aligned (prog_pt L k)"
    and "page_aligned (prog_vt L k)" and "page_aligned (prog_term L k)"
    and "distinct [page_directory L, page_table L, vid_table L]"
    and "page_aligned (page_directory L)" and "page_aligned (page_table L)"
    and "page_aligned (vid_table L)"
proof -
  have k: "k \<in> set [1..<7]" using assms(2,3) by simp
  have d: "distinct (concat (map (\<lambda>k. [prog_pd L k, prog_pt L k, prog_vt L k, prog_term L k]) [1..<7]))"
    and d0: "distinct [page_directory L, page_table L, vid_table L]"
    using assms(1) unfolding layout_ok_def tables_of_def distinct_append by blast+
  have "[prog_pd L k, prog_pt L k, prog_vt L k, prog_term L k] \<in>
      set (map (\<lambda>k. [prog_pd L k, prog_pt L k, prog_vt L k, prog_term L k]) [1..<7])"
    using k by (simp only: set_map) (rule imageI)
  with d show "distinct [prog_pd L k, prog_pt L k, prog_vt L k, prog_term L k]"
    unfolding distinct_concat_iff by blast
  show "distinct [page_directory L, page_table L, vid_table L]" by (rule d0)
  have al: "\<forall>b \<in> set (tables_of L). page_aligned b"
    using assms(1) unfolding layout_ok_def list_all_iff by blast
  have "{prog_pd L k, prog_pt L k, prog_vt L k, prog_term L k} \<subseteq> set (tables_of L)"
    using k unfolding tables_of_def set_append set_concat set_map by auto
  then show "page_aligned (prog_pd L k)" "page_aligned (prog_pt L k)"
    "page_aligned (prog_vt L k)" "page_aligned (prog_term L k)"
    using al by blast+
  have "{page_directory L, page_table L, vid_table L} \<subseteq> set (tables_of L)"
    unfolding tables_of_def set_append by auto
  then show "page_aligned (page_directory L)" "page_aligned (page_table L)" "page_aligned (vid_table L)"
    using al by blast+
qed

text \<open>The page of process \<open>pid\<close>: \<open>8MB + pid * 4MB\<close>.\<close>

definition user_page :: "nat \<Rightarrow> u32" where
  "user_page pid = push_bit 22 (2 + of_nat pid)"

lemma progs_init_eq:
  assumes "pid < 6"
  shows "\<exists>base. base OR 0x87 = user_page pid OR 0x87 \<and>
    progs_init L (of_nat pid) s =
      prog_init (prog_pd L (Suc pid)) (prog_pt L (Suc pid)) (prog_vt L (Suc pid)) (prog_term L (Suc pid)) base s"
proof -
  have "pid = 0 \<or> pid = 1 \<or> pid = 2 \<or> pid = 3 \<or> pid = 4 \<or> pid = 5" using assms by auto
  then show ?thesis
    by (elim disjE; intro exI conjI; simp add: progs_init_def prog1_init_def prog2_init_def
        prog3_init_def prog4_init_def prog5_init_def prog6_init_def user_page_def push_bit_eq_mult
        numeral_2_eq_2 [symmetric])
qed

text \<open>The tables as the loader leaves them, apart from what the operations here have written.\<close>

definition tables_clear :: "layout \<Rightarrow> (u32 \<Rightarrow> nat \<Rightarrow> u32) \<Rightarrow> bool" where
  "tables_clear L T \<longleftrightarrow> unused_clear T (page_directory L) (vid_table L) \<and>
     T (page_directory L) PDENTRY144 = 0 \<and>
     (\<forall>k. 1 \<le> k \<and> k < 7 \<longrightarrow> unused_clear T (prog_pd L k) (prog_vt L k))"

lemma space_cong: "base OR 0x87 = base' OR 0x87 \<Longrightarrow> space T pd pt vt te base = space T pd pt vt te base'"
  by (simp add: space_def)

lemma progs_init_space:
  assumes "layout_ok L" and "tables_clear L (tabs s)" and "pid < 6"
  defines "k \<equiv> Suc pid" and "s' \<equiv> progs_init L (of_nat pid) s"
  shows "space (tabs s') (prog_pd L k) (prog_pt L k) (prog_vt L k) (prog_term L k OR PRWS_BIT) (user_page pid)"
    and "\<forall>i < TABLE_SIZE. tabs s' (prog_term L k) i = term_table (\<lambda>_. 0) i"
    and "cr3 s' = prog_pd L k" and "cr0 s' = cr0 s" and "cr4 s' = cr4 s" and "mem s' = mem s"
    and "machine.more s' = machine.more s"
proof -
  have k: "1 \<le> k" "k < 7" using assms(3) by (simp_all add: k_def)
  obtain base where base: "base OR 0x87 = user_page pid OR 0x87"
    and s': "s' = prog_init (prog_pd L k) (prog_pt L k) (prog_vt L k) (prog_term L k) base s"
    using progs_init_eq [OF assms(3), of L s] by (auto simp: s'_def k_def)
  have "unused_clear (tabs s) (prog_pd L k) (prog_vt L k)"
    using assms(2) k by (simp add: tables_clear_def)
  note sp = prog_init_space [OF layout_okD(1,3,4,5) [OF assms(1) k] this, of base]
  show "space (tabs s') (prog_pd L k) (prog_pt L k) (prog_vt L k) (prog_term L k OR PRWS_BIT) (user_page pid)"
    using sp(1) space_cong [OF base] by (simp add: s')
  show "\<forall>i < TABLE_SIZE. tabs s' (prog_term L k) i = term_table (\<lambda>_. 0) i"
    using sp(2) by (simp add: s')
  show "cr3 s' = prog_pd L k" "cr0 s' = cr0 s" "cr4 s' = cr4 s" "mem s' = mem s"
    "machine.more s' = machine.more s"
    by (simp_all add: s' prog_init_frame)
qed

text \<open>After the switch to process \<open>pid\<close>, user mode reaches its page and the screen only.\<close>

lemma process_reach:
  assumes "layout_ok L" and "tables_clear L (tabs s)" and "pid < 6"
  defines "s' \<equiv> progs_init L (of_nat pid) s"
  shows "user_walk (tabs s') (cr3 s') a =
    (if 0x08000000 \<le> a \<and> a < 0x08400000 then Some (user_page pid + (a - 0x08000000))
     else if 0x08800000 \<le> a \<and> a < 0x08801000 then Some (VIDMEM + (a - 0x08800000))
     else None)"
proof -
  have k: "1 \<le> Suc pid" "Suc pid < 7" using assms(3) by simp_all
  note sp = progs_init_space [OF assms(1-3)]
  obtain v where "prog_term L (Suc pid) = push_bit 12 v"
    using layout_okD(5) [OF assms(1) k] by (rule page_alignedE)
  then have "prog_term L (Suc pid) OR PRWS_BIT = 0 \<or>
      (\<exists>v. prog_term L (Suc pid) OR PRWS_BIT = push_bit 12 v OR PRWS_BIT)" by auto
  then show ?thesis
    unfolding s'_def sp(3) user_page_def
    by (rule space_isolated [OF sp(1) [unfolded user_page_def] layout_okD(2,3,4) [OF assms(1) k]])
qed

text \<open>The pages of different processes have no byte in common.\<close>

lemma user_pages_disjoint:
  assumes "p < 6" and "q < 6" and "p \<noteq> q" and "x < 0x00400000" and "y < 0x00400000"
  shows "user_page p + x \<noteq> user_page q + y"
proof
  assume eq: "user_page p + x = user_page q + y"
  have page: "unat (user_page r + z) = 8388608 + r * 4194304 + unat z"
    if "r < 6" "z < 0x00400000" for r z
  proof -
    have u: "user_page r = of_nat (8388608 + r * 4194304)"
      by (simp add: user_page_def push_bit_eq_mult algebra_simps)
    have "unat z < 4194304" using that(2) by (simp add: word_less_nat_alt)
    moreover have "unat (of_nat (8388608 + r * 4194304) :: u32) = 8388608 + r * 4194304"
      by (rule unat_of_nat_u32) (use that(1) in simp)
    ultimately show ?thesis
      unfolding u using that(1) by (subst unat_add_lem [THEN iffD1]) simp_all
  qed
  have "unat x < 4194304" "unat y < 4194304" using assms(4,5) by (simp_all add: word_less_nat_alt)
  moreover have "p * 4194304 + unat x = q * 4194304 + unat y"
    using page [OF assms(1,4)] page [OF assms(2,5)] eq by simp
  ultimately show False using assms(3) by (cases p q rule: linorder_cases) linarith+
qed

text \<open>The boot directory, as \<open>paging_init\<close> leaves it.\<close>

lemma paging_init_space:
  assumes "layout_ok L" and "tables_clear L (tabs s)"
  defines "s' \<equiv> paging_init L s"
  shows "space (tabs s') (page_directory L) (page_table L) (vid_table L) 0 MB8"
    and "cr3 s' = page_directory L" and "bit (cr0 s') 31" and "bit (cr4 s') 4" and "mem s' = mem s"
proof -
  have k: "(1 :: nat) \<le> 1" "(1 :: nat) < 7" by simp_all
  note d = layout_okD(6) [OF assms(1) k] and al = layout_okD(8,9) [OF assms(1) k]
  have [simp]: "page_table L AND ADDR_MASK = page_table L" "vid_table L AND ADDR_MASK = vid_table L"
    using al by (simp_all add: page_aligned_def)
  show "space (tabs s') (page_directory L) (page_table L) (vid_table L) 0 MB8"
    using d assms(2) unfolding s'_def paging_init_def low_loop Let_def split space_def
    by (auto simp: tables_clear_def unused_clear_def low_table_def or.assoc fun_eq_iff)
  show "cr3 s' = page_directory L" "bit (cr0 s') 31" "bit (cr4 s') 4" "mem s' = mem s"
    unfolding s'_def paging_init_def low_loop Let_def split by (simp_all add: bit_simps)
qed

lemma paging_init_identity:
  assumes "layout_ok L" and "tables_clear L (tabs s)" and "a < 0x00800000"
  shows "translate (paging_init L s) a = (if a < 0x1000 then None else Some a)"
proof -
  have k: "(1 :: nat) \<le> 1" "(1 :: nat) < 7" by simp_all
  note sp = paging_init_space [OF assms(1,2)]
  show ?thesis
    using space_identity [OF sp(1) layout_okD(7,8) [OF assms(1) k] assms(3)] sp(2-4)
    by (simp add: translate_def)
qed

end
