(* ===== verification/Scancodes.thy ===== *)
theory Scancodes
  imports Kernel_Prelude
begin

text \<open>
  The scan codes of \<open>keyboard.h\<close> and the four tables that \<open>init_arrays\<close>
  (\<open>keyboard.c\<close>) fills, one for each combination of shift and caps lock. The entries that
  \<open>init_arrays\<close> does not assign are zero: the tables are static and nothing else writes
  them, so a table is the list of its assignments.
\<close>

subsection \<open>Scan codes\<close>

abbreviation KEY_A :: u8 where "KEY_A \<equiv> 0x1E"
abbreviation KEY_B :: u8 where "KEY_B \<equiv> 0x30"
abbreviation KEY_C :: u8 where "KEY_C \<equiv> 0x2E"
abbreviation KEY_D :: u8 where "KEY_D \<equiv> 0x20"
abbreviation KEY_E :: u8 where "KEY_E \<equiv> 0x12"
abbreviation KEY_F :: u8 where "KEY_F \<equiv> 0x21"
abbreviation KEY_G :: u8 where "KEY_G \<equiv> 0x22"
abbreviation KEY_H :: u8 where "KEY_H \<equiv> 0x23"
abbreviation KEY_I :: u8 where "KEY_I \<equiv> 0x17"
abbreviation KEY_J :: u8 where "KEY_J \<equiv> 0x24"
abbreviation KEY_K :: u8 where "KEY_K \<equiv> 0x25"
abbreviation KEY_L :: u8 where "KEY_L \<equiv> 0x26"
abbreviation KEY_M :: u8 where "KEY_M \<equiv> 0x32"
abbreviation KEY_N :: u8 where "KEY_N \<equiv> 0x31"
abbreviation KEY_O :: u8 where "KEY_O \<equiv> 0x18"
abbreviation KEY_P :: u8 where "KEY_P \<equiv> 0x19"
abbreviation KEY_Q :: u8 where "KEY_Q \<equiv> 0x10"
abbreviation KEY_R :: u8 where "KEY_R \<equiv> 0x13"
abbreviation KEY_S :: u8 where "KEY_S \<equiv> 0x1F"
abbreviation KEY_T :: u8 where "KEY_T \<equiv> 0x14"
abbreviation KEY_U :: u8 where "KEY_U \<equiv> 0x16"
abbreviation KEY_V :: u8 where "KEY_V \<equiv> 0x2F"
abbreviation KEY_W :: u8 where "KEY_W \<equiv> 0x11"
abbreviation KEY_X :: u8 where "KEY_X \<equiv> 0x2D"
abbreviation KEY_Y :: u8 where "KEY_Y \<equiv> 0x15"
abbreviation KEY_Z :: u8 where "KEY_Z \<equiv> 0x2C"
abbreviation KEY_ONE :: u8 where "KEY_ONE \<equiv> 0x02"
abbreviation KEY_TWO :: u8 where "KEY_TWO \<equiv> 0x03"
abbreviation KEY_THREE :: u8 where "KEY_THREE \<equiv> 0x04"
abbreviation KEY_FOUR :: u8 where "KEY_FOUR \<equiv> 0x05"
abbreviation KEY_FIVE :: u8 where "KEY_FIVE \<equiv> 0x06"
abbreviation KEY_SIX :: u8 where "KEY_SIX \<equiv> 0x07"
abbreviation KEY_SEVEN :: u8 where "KEY_SEVEN \<equiv> 0x08"
abbreviation KEY_EIGHT :: u8 where "KEY_EIGHT \<equiv> 0x09"
abbreviation KEY_NINE :: u8 where "KEY_NINE \<equiv> 0x0A"
abbreviation KEY_ZERO :: u8 where "KEY_ZERO \<equiv> 0x0B"
abbreviation KEY_GRAVEACCENT :: u8 where "KEY_GRAVEACCENT \<equiv> 0x29"
abbreviation KEY_DASH :: u8 where "KEY_DASH \<equiv> 0x0C"
abbreviation KEY_EQUALS :: u8 where "KEY_EQUALS \<equiv> 0x0D"
abbreviation KEY_LEFTBRACKET :: u8 where "KEY_LEFTBRACKET \<equiv> 0x1A"
abbreviation KEY_RIGHTBRACKET :: u8 where "KEY_RIGHTBRACKET \<equiv> 0x1B"
abbreviation KEY_BACKSLASH :: u8 where "KEY_BACKSLASH \<equiv> 0x2B"
abbreviation KEY_SEMICOLON :: u8 where "KEY_SEMICOLON \<equiv> 0x27"
abbreviation KEY_APOSTROPHE :: u8 where "KEY_APOSTROPHE \<equiv> 0x28"
abbreviation KEY_COMMA :: u8 where "KEY_COMMA \<equiv> 0x33"
abbreviation KEY_PERIOD :: u8 where "KEY_PERIOD \<equiv> 0x34"
abbreviation KEY_FORWARDSLASH :: u8 where "KEY_FORWARDSLASH \<equiv> 0x35"
abbreviation KEY_SPACE :: u8 where "KEY_SPACE \<equiv> 0x39"

abbreviation KEY_ALT :: u8 where "KEY_ALT \<equiv> 0x38"
abbreviation KEY_ALTRELEASE :: u8 where "KEY_ALTRELEASE \<equiv> 0xB8"
abbreviation KEY_BACKSPACE :: u8 where "KEY_BACKSPACE \<equiv> 0x0E"
abbreviation KEY_CAPSLOCK :: u8 where "KEY_CAPSLOCK \<equiv> 0x3A"
abbreviation KEY_CTRL :: u8 where "KEY_CTRL \<equiv> 0x1D"
abbreviation KEY_CTRLRELEASE :: u8 where "KEY_CTRLRELEASE \<equiv> 0x9D"
abbreviation KEY_ENTER :: u8 where "KEY_ENTER \<equiv> 0x1C"
abbreviation KEY_ENTERRELEASE :: u8 where "KEY_ENTERRELEASE \<equiv> 0x9C"
abbreviation KEY_LSHIFT :: u8 where "KEY_LSHIFT \<equiv> 0x2A"
abbreviation KEY_LSHIFTRELEASE :: u8 where "KEY_LSHIFTRELEASE \<equiv> 0xAA"
abbreviation KEY_RSHIFT :: u8 where "KEY_RSHIFT \<equiv> 0x36"
abbreviation KEY_RSHIFTRELEASE :: u8 where "KEY_RSHIFTRELEASE \<equiv> 0xB6"
abbreviation KEY_F1 :: u8 where "KEY_F1 \<equiv> 0x3B"
abbreviation KEY_F2 :: u8 where "KEY_F2 \<equiv> 0x3C"
abbreviation KEY_F3 :: u8 where "KEY_F3 \<equiv> 0x3D"
abbreviation KEYRELEASE :: u8 where "KEYRELEASE \<equiv> 0x80"

subsection \<open>Tables\<close>

text \<open>No modifier.\<close>

definition firstarray :: "(u8 \<times> u8) list" where
  "firstarray = [
     (KEY_A, 0x61), (KEY_B, 0x62), (KEY_C, 0x63), (KEY_D, 0x64), (KEY_E, 0x65), (KEY_F, 0x66),
     (KEY_G, 0x67), (KEY_H, 0x68), (KEY_I, 0x69), (KEY_J, 0x6A), (KEY_K, 0x6B), (KEY_L, 0x6C),
     (KEY_M, 0x6D), (KEY_N, 0x6E), (KEY_O, 0x6F), (KEY_P, 0x70), (KEY_Q, 0x71), (KEY_R, 0x72),
     (KEY_S, 0x73), (KEY_T, 0x74), (KEY_U, 0x75), (KEY_V, 0x76), (KEY_W, 0x77), (KEY_X, 0x78),
     (KEY_Y, 0x79), (KEY_Z, 0x7A), (KEY_ONE, 0x31), (KEY_TWO, 0x32), (KEY_THREE, 0x33),
     (KEY_FOUR, 0x34), (KEY_FIVE, 0x35), (KEY_SIX, 0x36), (KEY_SEVEN, 0x37), (KEY_EIGHT, 0x38),
     (KEY_NINE, 0x39), (KEY_ZERO, 0x30), (KEY_GRAVEACCENT, 0x60), (KEY_DASH, 0x2D),
     (KEY_EQUALS, 0x3D), (KEY_LEFTBRACKET, 0x5B), (KEY_RIGHTBRACKET, 0x5D),
     (KEY_BACKSLASH, 0x5C), (KEY_SEMICOLON, 0x3B), (KEY_APOSTROPHE, 0x27), (KEY_COMMA, 0x2C),
     (KEY_PERIOD, 0x2E), (KEY_FORWARDSLASH, 0x2F), (KEY_SPACE, 0x20)]"

text \<open>Shift.\<close>

definition secondarray :: "(u8 \<times> u8) list" where
  "secondarray = [
     (KEY_A, 0x41), (KEY_B, 0x42), (KEY_C, 0x43), (KEY_D, 0x44), (KEY_E, 0x45), (KEY_F, 0x46),
     (KEY_G, 0x47), (KEY_H, 0x48), (KEY_I, 0x49), (KEY_J, 0x4A), (KEY_K, 0x4B), (KEY_L, 0x4C),
     (KEY_M, 0x4D), (KEY_N, 0x4E), (KEY_O, 0x4F), (KEY_P, 0x50), (KEY_Q, 0x51), (KEY_R, 0x52),
     (KEY_S, 0x53), (KEY_T, 0x54), (KEY_U, 0x55), (KEY_V, 0x56), (KEY_W, 0x57), (KEY_X, 0x58),
     (KEY_Y, 0x59), (KEY_Z, 0x5A), (KEY_ONE, 0x21), (KEY_TWO, 0x40), (KEY_THREE, 0x23),
     (KEY_FOUR, 0x24), (KEY_FIVE, 0x25), (KEY_SIX, 0x5E), (KEY_SEVEN, 0x26), (KEY_EIGHT, 0x2A),
     (KEY_NINE, 0x28), (KEY_ZERO, 0x29), (KEY_GRAVEACCENT, 0x7E), (KEY_DASH, 0x5F),
     (KEY_EQUALS, 0x2B), (KEY_LEFTBRACKET, 0x7B), (KEY_RIGHTBRACKET, 0x7D),
     (KEY_BACKSLASH, 0x7C), (KEY_SEMICOLON, 0x3A), (KEY_APOSTROPHE, 0x22), (KEY_COMMA, 0x3C),
     (KEY_PERIOD, 0x3E), (KEY_FORWARDSLASH, 0x3F), (KEY_SPACE, 0x20)]"

text \<open>Caps lock.\<close>

definition thirdarray :: "(u8 \<times> u8) list" where
  "thirdarray = [
     (KEY_A, 0x41), (KEY_B, 0x42), (KEY_C, 0x43), (KEY_D, 0x44), (KEY_E, 0x45), (KEY_F, 0x46),
     (KEY_G, 0x47), (KEY_H, 0x48), (KEY_I, 0x49), (KEY_J, 0x4A), (KEY_K, 0x4B), (KEY_L, 0x4C),
     (KEY_M, 0x4D), (KEY_N, 0x4E), (KEY_O, 0x4F), (KEY_P, 0x50), (KEY_Q, 0x51), (KEY_R, 0x52),
     (KEY_S, 0x53), (KEY_T, 0x54), (KEY_U, 0x55), (KEY_V, 0x56), (KEY_W, 0x57), (KEY_X, 0x58),
     (KEY_Y, 0x59), (KEY_Z, 0x5A), (KEY_ONE, 0x31), (KEY_TWO, 0x32), (KEY_THREE, 0x33),
     (KEY_FOUR, 0x34), (KEY_FIVE, 0x35), (KEY_SIX, 0x36), (KEY_SEVEN, 0x37), (KEY_EIGHT, 0x38),
     (KEY_NINE, 0x39), (KEY_ZERO, 0x30), (KEY_GRAVEACCENT, 0x60), (KEY_DASH, 0x2D),
     (KEY_EQUALS, 0x3D), (KEY_LEFTBRACKET, 0x5B), (KEY_RIGHTBRACKET, 0x5D),
     (KEY_BACKSLASH, 0x5C), (KEY_SEMICOLON, 0x3B), (KEY_APOSTROPHE, 0x27), (KEY_COMMA, 0x2C),
     (KEY_PERIOD, 0x2E), (KEY_FORWARDSLASH, 0x2F), (KEY_SPACE, 0x20)]"

text \<open>Caps lock and shift.\<close>

definition fourtharray :: "(u8 \<times> u8) list" where
  "fourtharray = [
     (KEY_A, 0x61), (KEY_B, 0x62), (KEY_C, 0x63), (KEY_D, 0x64), (KEY_E, 0x65), (KEY_F, 0x66),
     (KEY_G, 0x67), (KEY_H, 0x68), (KEY_I, 0x69), (KEY_J, 0x6A), (KEY_K, 0x6B), (KEY_L, 0x6C),
     (KEY_M, 0x6D), (KEY_N, 0x6E), (KEY_O, 0x6F), (KEY_P, 0x70), (KEY_Q, 0x71), (KEY_R, 0x72),
     (KEY_S, 0x73), (KEY_T, 0x74), (KEY_U, 0x75), (KEY_V, 0x76), (KEY_W, 0x77), (KEY_X, 0x78),
     (KEY_Y, 0x79), (KEY_Z, 0x7A), (KEY_ONE, 0x21), (KEY_TWO, 0x40), (KEY_THREE, 0x23),
     (KEY_FOUR, 0x24), (KEY_FIVE, 0x25), (KEY_SIX, 0x5E), (KEY_SEVEN, 0x26), (KEY_EIGHT, 0x2A),
     (KEY_NINE, 0x28), (KEY_ZERO, 0x29), (KEY_GRAVEACCENT, 0x7E), (KEY_DASH, 0x5F),
     (KEY_EQUALS, 0x2B), (KEY_LEFTBRACKET, 0x7B), (KEY_RIGHTBRACKET, 0x7D),
     (KEY_BACKSLASH, 0x7C), (KEY_SEMICOLON, 0x3A), (KEY_APOSTROPHE, 0x22), (KEY_COMMA, 0x3C),
     (KEY_PERIOD, 0x3E), (KEY_FORWARDSLASH, 0x3F), (KEY_SPACE, 0x20)]"

text \<open>An array access: the assigned value, or the initial zero.\<close>

definition arr_at :: "(u8 \<times> u8) list \<Rightarrow> u8 \<Rightarrow> u8" where
  "arr_at t k = (case map_of t k of None \<Rightarrow> 0 | Some c \<Rightarrow> c)"

subsection \<open>Properties of the tables\<close>

text \<open>All four assign the same keys, each once, and only key presses.\<close>

lemma arrays_keys:
  "map fst secondarray = map fst firstarray" "map fst thirdarray = map fst firstarray"
  "map fst fourtharray = map fst firstarray"
  by (simp_all add: firstarray_def secondarray_def thirdarray_def fourtharray_def)

lemma array_presses: "distinct (map fst firstarray) \<and> list_all (\<lambda>k. \<not> bit k 7) (map fst firstarray)"
  by code_simp

text \<open>What they hold is printable.\<close>

lemma arrays_printable:
  "list_all (\<lambda>(k, c). 0x20 \<le> c \<and> c < 0x7F) (firstarray @ secondarray @ thirdarray @ fourtharray)"
  by code_simp

text \<open>
  Caps lock exchanges the cases of the letters and leaves the other keys alone; shift exchanges
  the cases and selects the upper symbol elsewhere; both together undo the exchange on letters.
\<close>

definition is_letter :: "u8 \<Rightarrow> bool" where
  "is_letter c \<longleftrightarrow> 0x61 \<le> c \<and> c \<le> 0x7A"

lemma arr_at_nth:
  assumes "distinct (map fst t)" and "i < length t"
  shows "arr_at t (fst (t ! i)) = snd (t ! i)"
proof -
  have "map_of t (fst (t ! i)) = Some (snd (t ! i))"
    using assms by (intro map_of_is_SomeI) simp_all
  then show ?thesis by (simp only: arr_at_def option.case)
qed

lemma rows_case:
  "list_all (\<lambda>(a, b, c, d). if is_letter a then b = a - 0x20 \<and> c = b \<and> d = a else c = a \<and> d = b)
     (zip (map snd firstarray) (zip (map snd secondarray) (zip (map snd thirdarray) (map snd fourtharray))))"
  by code_simp

lemma arrays_case:
  "list_all (\<lambda>k. if is_letter (arr_at firstarray k)
     then arr_at secondarray k = arr_at firstarray k - 0x20 \<and>
       arr_at thirdarray k = arr_at secondarray k \<and> arr_at fourtharray k = arr_at firstarray k
     else arr_at thirdarray k = arr_at firstarray k \<and> arr_at fourtharray k = arr_at secondarray k)
   (map fst firstarray)"
proof -
  note d = conjunct1 [OF array_presses]
  have len: "length secondarray = length firstarray" "length thirdarray = length firstarray"
    "length fourtharray = length firstarray"
    using arrays_keys by (metis length_map)+
  have at: "arr_at t (fst (firstarray ! i)) = snd (t ! i)"
    if "map fst t = map fst firstarray" "i < length firstarray" for t i
  proof -
    have "length t = length firstarray" using that(1) by (metis length_map)
    then have "fst (firstarray ! i) = fst (t ! i)" using that by (metis nth_map)
    then show ?thesis using arr_at_nth [of t i] d that \<open>length t = _\<close> by simp
  qed
  note look = at [OF refl] at [OF arrays_keys(1)] at [OF arrays_keys(2)] at [OF arrays_keys(3)]
  show ?thesis
    using rows_case unfolding list_all_length by (auto simp: len look)
qed

end
