(* ===== verification/Keyboard.thy ===== *)
theory Keyboard
  imports File_Ops Paging Scancodes
begin

text \<open>
  The keyboard handler and the terminal driver (\<open>keyboard.c\<close>): three terminals, each with a
  line buffer that the handler fills one scan code at a time, the modifier keys it holds, and the
  output last written to it. Only the current terminal receives keys and shows output.
\<close>

abbreviation KB_ENCODER :: u16 where "KB_ENCODER \<equiv> 0x60"
abbreviation KEYBOARD :: u32 where "KEYBOARD \<equiv> 0x1"
abbreviation BUFFERSIZE :: nat where "BUFFERSIZE \<equiv> 128"
abbreviation CTRLINDEX :: nat where "CTRLINDEX \<equiv> 0"
abbreviation SHIFTINDEX :: nat where "SHIFTINDEX \<equiv> 1"
abbreviation CAPSLOCKINDEX :: nat where "CAPSLOCKINDEX \<equiv> 2"
abbreviation ALTINDEX :: nat where "ALTINDEX \<equiv> 3"
abbreviation FUNCTIONSIZE :: nat where "FUNCTIONSIZE \<equiv> 4"
abbreviation OFF :: int where "OFF \<equiv> 0"
abbreviation ON :: int where "ON \<equiv> 1"
abbreviation LINEATTRIBUTE :: u8 where "LINEATTRIBUTE \<equiv> 0x07"
abbreviation TERM_1 :: nat where "TERM_1 \<equiv> 0"
abbreviation TERM_2 :: nat where "TERM_2 \<equiv> 1"
abbreviation TERM_3 :: nat where "TERM_3 \<equiv> 2"
abbreviation VID_MEM_SIZE :: nat where "VID_MEM_SIZE \<equiv> 0x1000"
abbreviation VID_MEM :: u32 where "VID_MEM \<equiv> 0xB8000"
abbreviation B_BUF_1 :: u32 where "B_BUF_1 \<equiv> 0x09000000"
abbreviation B_BUF_2 :: u32 where "B_BUF_2 \<equiv> 0x09100000"
abbreviation B_BUF_3 :: u32 where "B_BUF_3 \<equiv> 0x09200000"
abbreviation MAX_PROCESSES :: nat where "MAX_PROCESSES \<equiv> 6"
abbreviation KERNEL_DS :: u32 where "KERNEL_DS \<equiv> 0x0018"

subsection \<open>State\<close>

text \<open>The static arrays, indexed by terminal; the two buffers have 128 bytes each.\<close>

record kbd = proc +
  functionflags :: "nat \<Rightarrow> nat \<Rightarrow> int"
  enter_flag :: "nat \<Rightarrow> int"
  read_flag :: "nat \<Rightarrow> int"
  keyboardbuffer :: "nat \<Rightarrow> u8 list"
  bufferindex :: "nat \<Rightarrow> int"
  writebuffer :: "nat \<Rightarrow> u8 list"
  writeindex :: "nat \<Rightarrow> int"

definition set_flag :: "nat \<Rightarrow> nat \<Rightarrow> int \<Rightarrow> 'a kbd_scheme \<Rightarrow> 'a kbd_scheme" where
  "set_flag t i v s = s\<lparr>functionflags := (functionflags s)(t := (functionflags s t)(i := v))\<rparr>"

definition set_enter :: "nat \<Rightarrow> int \<Rightarrow> 'a kbd_scheme \<Rightarrow> 'a kbd_scheme" where
  "set_enter t v s = s\<lparr>enter_flag := (enter_flag s)(t := v)\<rparr>"

definition set_read :: "nat \<Rightarrow> int \<Rightarrow> 'a kbd_scheme \<Rightarrow> 'a kbd_scheme" where
  "set_read t v s = s\<lparr>read_flag := (read_flag s)(t := v)\<rparr>"

definition set_bufferindex :: "nat \<Rightarrow> int \<Rightarrow> 'a kbd_scheme \<Rightarrow> 'a kbd_scheme" where
  "set_bufferindex t v s = s\<lparr>bufferindex := (bufferindex s)(t := v)\<rparr>"

definition set_writeindex :: "nat \<Rightarrow> int \<Rightarrow> 'a kbd_scheme \<Rightarrow> 'a kbd_scheme" where
  "set_writeindex t v s = s\<lparr>writeindex := (writeindex s)(t := v)\<rparr>"

text \<open>Array accesses with their bounds.\<close>

definition kb_get :: "nat \<Rightarrow> int \<Rightarrow> 'a kbd_scheme \<Rightarrow> u8 res" where
  "kb_get t i s =
     (if 0 \<le> i \<and> nat i < length (keyboardbuffer s t) then Ok (keyboardbuffer s t ! nat i)
      else Err OutOfBounds)"

definition kb_put :: "nat \<Rightarrow> int \<Rightarrow> u8 \<Rightarrow> 'a kbd_scheme \<Rightarrow> 'a kbd_scheme res" where
  "kb_put t i c s =
     (if 0 \<le> i \<and> nat i < length (keyboardbuffer s t)
      then Ok (s\<lparr>keyboardbuffer := (keyboardbuffer s)(t := (keyboardbuffer s t)[nat i := c])\<rparr>)
      else Err OutOfBounds)"

definition wb_get :: "nat \<Rightarrow> int \<Rightarrow> 'a kbd_scheme \<Rightarrow> u8 res" where
  "wb_get t i s =
     (if 0 \<le> i \<and> nat i < length (writebuffer s t) then Ok (writebuffer s t ! nat i)
      else Err OutOfBounds)"

definition wb_put :: "nat \<Rightarrow> int \<Rightarrow> u8 \<Rightarrow> 'a kbd_scheme \<Rightarrow> 'a kbd_scheme res" where
  "wb_put t i c s =
     (if 0 \<le> i \<and> nat i < length (writebuffer s t)
      then Ok (s\<lparr>writebuffer := (writebuffer s)(t := (writebuffer s t)[nat i := c])\<rparr>)
      else Err OutOfBounds)"

text \<open>None of these fields takes part in address translation.\<close>

lemma translate_updates [simp]:
  "translate (s\<lparr>io_log := l\<rparr>) = translate s" "translate (s\<lparr>eflags := w\<rparr>) = translate s"
  "translate (c\<lparr>screen_x := x\<rparr>) = translate c" "translate (c\<lparr>screen_y := x\<rparr>) = translate c"
  "translate (p\<lparr>pcbs := y\<rparr>) = translate p"
  "translate (k\<lparr>functionflags := ff\<rparr>) = translate k" "translate (k\<lparr>enter_flag := g\<rparr>) = translate k"
  "translate (k\<lparr>read_flag := g\<rparr>) = translate k" "translate (k\<lparr>keyboardbuffer := b\<rparr>) = translate k"
  "translate (k\<lparr>bufferindex := g\<rparr>) = translate k" "translate (k\<lparr>writebuffer := b\<rparr>) = translate k"
  "translate (k\<lparr>writeindex := g\<rparr>) = translate k"
  by (rule ext, simp add: translate_def)+

subsection \<open>The line buffer\<close>

text \<open>The argument \<open>terminal\<close> is not used: it is always the current terminal that is cleared.\<close>

definition clear_keyboard_buffer :: "nat \<Rightarrow> 'a kbd_scheme \<Rightarrow> 'a kbd_scheme" where
  "clear_keyboard_buffer terminal s =
     (let t = current_terminal s;
          s = for_loop 0 BUFFERSIZE (\<lambda>i s.
            s\<lparr>keyboardbuffer := (keyboardbuffer s)(t := (keyboardbuffer s t)[i := 0])\<rparr>) s
      in set_bufferindex t 0 s)"

text \<open>Backspace: drop the last character, blank a line of the screen, print the rest again.\<close>

definition backspace_echo :: "nat \<Rightarrow> nat \<Rightarrow> 'a kbd_scheme \<Rightarrow> 'a kbd_scheme res" where
  "backspace_echo t i s =
     (let s = (if int i \<ge> NUM_COLS - writeindex s t then
                 if getycoord t s = NUM_ROWS - 1 then scroll t s
                 else setcoords (getxcoord t s) (getycoord t s + 1) t s
               else s) in
      bindE (kb_get t (int i) s) (\<lambda>c.
      let s = putc c s in
      Ok (if int i \<ge> NUM_COLS - writeindex s t
          then setcoords (getxcoord t s) (getycoord t s - 1) t s else s)))"

definition handle_backspace :: "'a kbd_scheme \<Rightarrow> 'a kbd_scheme res" where
  "handle_backspace s =
     (let t = current_terminal s;
          s = (if bufferindex s t \<noteq> 0 then set_bufferindex t (bufferindex s t - 1) s else s) in
      bindE (kb_put t (bufferindex s t) 0 s) (\<lambda>s.
      let s = setcoords (writeindex s t) (getycoord t s) t s;
          s = (if bufferindex s t \<ge> NUM_COLS - writeindex s t
               then clearline 0 (getycoord t s + 1) s
               else clearline (writeindex s t) (getycoord t s) s) in
      bindE (for_loopE 0 (nat (bufferindex s t)) (backspace_echo t) s) (\<lambda>s.
      let s = setcoords (writeindex s t) (getycoord t s) t s
      in Ok (send_eoi KEYBOARD s))))"

definition handle_enter :: "'a kbd_scheme \<Rightarrow> 'a kbd_scheme res" where
  "handle_enter s =
     (let t = current_terminal s in
      bindE (kb_put t (bufferindex s t) CH_NEWLINE s) (\<lambda>s.
      let s = set_bufferindex t (bufferindex s t + 1) s;
          s = set_enter t ON s;
          s = term_putc CH_NEWLINE s;
          s = (if bufferindex s t + writeindex s t > NUM_COLS + 1 then term_putc CH_NEWLINE s else s);
          s = (if read_flag s t = OFF then clear_keyboard_buffer t s else s)
      in Ok (send_eoi KEYBOARD s)))"

text \<open>Control and L: the screen is cleared, the last output and the line are printed at the top.\<close>

definition handle_ctrl_l :: "'a kbd_scheme \<Rightarrow> 'a kbd_scheme res" where
  "handle_ctrl_l s =
     (let t = current_terminal s;
          s = clear s;
          s = setcoords 0 0 t s in
      bindE (for_loopE 0 (nat (writeindex s t)) (\<lambda>i s.
        bindE (wb_get t (int i) s) (\<lambda>c. Ok (putc c s))) s) (\<lambda>s.
      bindE (for_loopE 0 (nat (bufferindex s t + 1)) (\<lambda>i s.
        bindE (kb_get t (int i) s) (\<lambda>c. Ok (putc c s))) s) (\<lambda>s.
      let s = setcoords (getxcoord t s - bufferindex s t - 1) (getycoord t s) t s
      in Ok (send_eoi KEYBOARD s))))"

definition select_ascii :: "u8 \<Rightarrow> 'a kbd_scheme \<Rightarrow> u8" where
  "select_ascii scancode s =
     (let caps = functionflags s (current_terminal s) CAPSLOCKINDEX;
          shift = functionflags s (current_terminal s) SHIFTINDEX in
      if caps = OFF \<and> shift = OFF then arr_at firstarray scancode
      else if caps = OFF \<and> shift = ON then arr_at secondarray scancode
      else if caps = ON \<and> shift = OFF then arr_at thirdarray scancode
      else arr_at fourtharray scancode)"

definition echo :: "nat \<Rightarrow> nat \<Rightarrow> 'a kbd_scheme \<Rightarrow> 'a kbd_scheme res" where
  "echo t i s =
     (let s = (if int i \<ge> NUM_COLS - writeindex s t
               then setcoords (getxcoord t s) (getycoord t s + 1) t s else s) in
      bindE (kb_get t (int i) s) (\<lambda>c.
      let s = putc c s in
      Ok (if int i \<ge> NUM_COLS - writeindex s t
          then setcoords (getxcoord t s) (getycoord t s - 1) t s else s)))"

definition handle_char :: "u8 \<Rightarrow> 'a kbd_scheme \<Rightarrow> 'a kbd_scheme res" where
  "handle_char scancode s =
     (let t = current_terminal s in
      if scancode AND KEYRELEASE \<noteq> 0 then Ok (send_eoi KEYBOARD s)
      else
        let ascii = select_ascii scancode s in
        if ascii = 0 then Ok (send_eoi KEYBOARD s)
        else if bufferindex s t \<ge> int BUFFERSIZE then Ok (send_eoi KEYBOARD s)
        else
          let s = set_writeindex t (getxcoord t s) s in
          bindE (kb_put t (bufferindex s t) ascii s) (\<lambda>s.
          let s = set_bufferindex t (bufferindex s t + 1) s in
          bindE (for_loopE 0 (nat (bufferindex s t)) (echo t) s) (\<lambda>s.
          let s = setcoords (writeindex s t) (getycoord t s) t s
          in Ok (send_eoi KEYBOARD s))))"

subsection \<open>Terminal system calls\<close>

definition terminal_open :: "'a kbd_scheme \<Rightarrow> int \<times> 'a kbd_scheme" where
  "terminal_open s =
     (let s = for_loop 0 FUNCTIONSIZE (\<lambda>i s. set_flag (current_terminal s) i OFF s) s
      in (0, clear_keyboard_buffer (current_terminal s) s))"

text \<open>Copy up to and including a newline; the first argument is what is left of \<open>nbytes\<close>.\<close>

fun read_line :: "nat \<Rightarrow> u32 \<Rightarrow> nat \<Rightarrow> nat \<Rightarrow> 'a kbd_scheme \<Rightarrow> (nat \<times> 'a kbd_scheme) res" where
  "read_line t buf 0 i s = Ok (i, s)"
| "read_line t buf (Suc left) i s =
     bindE (kb_get t (int i) s) (\<lambda>c.
     bindE (ptr_wr buf i c s) (\<lambda>s.
     if c = CH_NEWLINE then Ok (Suc i, s) else read_line t buf left (Suc i) s))"

definition terminal_read ::
    "('a kbd_scheme \<Rightarrow> 'a kbd_scheme res) list \<Rightarrow> u32 \<Rightarrow> int \<Rightarrow> 'a kbd_scheme \<Rightarrow> (int \<times> 'a kbd_scheme) res" where
  "terminal_read irqs buf nbytes s =
     (let t = current_terminal s in
      if buf = 0 then Ok (-1, s)
      else if nbytes < 0 then Ok (-1, s)
      else
        let s = sti s;
            s = set_enter t OFF s;
            s = set_read t ON s in
        bindE (spin_until (\<lambda>s. enter_flag s t \<noteq> OFF) irqs s) (\<lambda>s.
        bindE (for_loopE 0 (nat nbytes) (\<lambda>i. ptr_wr buf i 0) s) (\<lambda>s.
        bindE (read_line t buf (nat nbytes) 0 s) (\<lambda>(bytes_read, s).
        let s = clear_keyboard_buffer (current_terminal s) s
        in Ok (int bytes_read, set_read t OFF s)))))"

text \<open>The byte is loaded from the caller's buffer each time it is used.\<close>

definition write_char :: "u32 \<Rightarrow> nat \<Rightarrow> 'a kbd_scheme \<Rightarrow> 'a kbd_scheme res" where
  "write_char buf i s =
     (let t = current_terminal s in
      bindE (ptr_rd buf i s) (\<lambda>c.
      bindE (wb_put t (int i) c s) (\<lambda>s.
      let s = set_writeindex t (writeindex s t + 1) s in
      if c \<noteq> CH_NEWLINE \<or> getxcoord t s \<noteq> 0
      then bindE (ptr_rd buf i s) (\<lambda>c. Ok (term_putc c s))
      else Ok s)))"

definition terminal_write :: "u32 \<Rightarrow> int \<Rightarrow> 'a kbd_scheme \<Rightarrow> (int \<times> 'a kbd_scheme) res" where
  "terminal_write buf nbytes s =
     (if buf = 0 then Ok (-1, s)
      else if nbytes < 0 then Ok (-1, s)
      else
        bindE (for_loopE 0 (nat nbytes) (\<lambda>i s. wb_put (current_terminal s) (int i) 0 s) s) (\<lambda>s.
        let s = set_writeindex (current_terminal s) 0 s in
        bindE (for_loopE 0 (nat nbytes) (write_char buf) s) (\<lambda>s.
        Ok (nbytes + 1, s))))"

definition terminal_close :: int where
  "terminal_close = -1"

subsection \<open>Switching terminals\<close>

definition background :: "nat \<Rightarrow> u32" where
  "background t = (if t = TERM_1 then B_BUF_1 else if t = TERM_2 then B_BUF_2 else B_BUF_3)"

text \<open>
  \<open>memcpy\<close> between two virtual ranges. The ranges here do not overlap, where the routine of
  \<open>lib.c\<close> is a byte-by-byte copy (\<open>memcpy_copied\<close>).
\<close>

definition copy_virtual :: "u32 \<Rightarrow> u32 \<Rightarrow> nat \<Rightarrow> 'a machine_scheme \<Rightarrow> 'a machine_scheme res" where
  "copy_virtual dest src n s =
     for_loopE 0 n (\<lambda>i s. bindE (ptr_rd src i s) (\<lambda>v. ptr_wr dest i v s)) s"

definition set_attributes :: "'a machine_scheme \<Rightarrow> 'a machine_scheme res" where
  "set_attributes s = for_loopE 0 VID_MEM_SIZE (\<lambda>i s. st (VID_MEM + of_nat (2 * i) + 1) LINEATTRIBUTE s) s"

definition total_count :: "'a proc_scheme \<Rightarrow> int" where
  "total_count s = prog_count s TERM_1 + prog_count s TERM_2 + prog_count s TERM_3"

definition keyboard_helper :: "'a console_scheme \<Rightarrow> 'a console_scheme" where
  "keyboard_helper s =
     (let s = snd (printk (bytes_of ''\<newline>\<newline>\<newline>\<newline>      Okay, let me put it this way. You done messed up A-A-RON. \<newline>\<newline>'') s);
          s = snd (printk (bytes_of ''      You clearly, CLEARLY, state in the doc that at max, only four processes\<newline>'') s);
          s = snd (printk (bytes_of ''      are supported on one terminal.\<newline>'') s);
          s = snd (printk (bytes_of ''      But guess what? You didn't follow the doc. And now we're going to be\<newline>'') s);
          s = snd (printk (bytes_of ''      penalized, for YOUR mistakes.\<newline>\<newline>'') s);
          s = snd (printk (bytes_of ''      Does that seem fair to you?\<newline>\<newline>'') s);
          s = snd (printk (bytes_of ''      I mean, why would you do this to us? WHY?!\<newline>'') s);
          s = snd (printk (bytes_of ''      All we wanted, was to see our OS grow into something beautiful.\<newline>'') s);
          s = snd (printk (bytes_of ''      But instead, it's going to page fault, and the worst part is,\<newline>'') s);
          s = snd (printk (bytes_of ''      it's     N E V E R    E V E R    E V E R     going to recover.\<newline>'') s)
      in snd (printk (bytes_of ''\<newline>      THANK YOU, AND HAVE A NICE DAY.\<newline>\<newline>\<newline>'') s))"

text \<open>
  How \<open>terminal_switch\<close> ends: it returns on the stack it was called on, without a switch or
  because no process can be started; it starts a shell, and does not return; or it continues on
  the stack of the process of the other terminal.
\<close>

datatype switch_end = SameTerminal | NoRoom | StartShell | Resumed

definition terminal_switch :: "nat \<Rightarrow> 'a kbd_scheme \<Rightarrow> (switch_end \<times> 'a kbd_scheme) res" where
  "terminal_switch term s =
     (if current_terminal s = term then Ok (SameTerminal, s)
      else
        bindE (copy_virtual (background (current_terminal s)) VID_MEM VID_MEM_SIZE s) (\<lambda>s.
        bindE (copy_virtual VID_MEM (background term) VID_MEM_SIZE s) (\<lambda>s.
        bindE (set_attributes s) (\<lambda>s.
        bindE (upd_pcb (cur_loc s) (\<lambda>p. p\<lparr>curr_esp := esp s\<rparr>) s) (\<lambda>s.
        bindE (upd_pcb (cur_loc s) (\<lambda>p. p\<lparr>curr_ebp := ebp s\<rparr>) s) (\<lambda>s.
        let s = s\<lparr>current_terminal := term\<rparr>;
            s = send_eoi KEYBOARD s in
        if prog_count s (current_terminal s) = 0 then
          if total_count s < int MAX_PROCESSES then Ok (StartShell, s)
          else Ok (NoRoom, keyboard_helper (clear s))
        else
          let s = s\<lparr>tss_ss0 := KERNEL_DS\<rparr> in
          bindE (cur_pcb s) (\<lambda>p.
          let s = s\<lparr>tss_esp0 := 0x00800000 - (pid p + 1) * MAX_STACK\<rparr>
          in Ok (Resumed, s\<lparr>ebp := curr_ebp p, esp := curr_esp p, cr3 := curr_pd p\<rparr>))))))))"

subsection \<open>The handler\<close>

text \<open>After a switch that returns, the handler acknowledges the interrupt a second time.\<close>

definition handle_switch :: "nat \<Rightarrow> 'a kbd_scheme \<Rightarrow> (switch_end \<times> 'a kbd_scheme) res" where
  "handle_switch term s =
     bindE (terminal_switch term s) (\<lambda>(e, s).
     Ok (e, if e = StartShell then s else send_eoi KEYBOARD s))"

definition handle_default :: "u8 \<Rightarrow> 'a kbd_scheme \<Rightarrow> (switch_end \<times> 'a kbd_scheme) res" where
  "handle_default scancode s =
     (let t = current_terminal s in
      if functionflags s t ALTINDEX = ON \<and> scancode = KEY_F1 then handle_switch TERM_1 s
      else if functionflags s t ALTINDEX = ON \<and> scancode = KEY_F2 then handle_switch TERM_2 s
      else if functionflags s t ALTINDEX = ON \<and> scancode = KEY_F3 then handle_switch TERM_3 s
      else if functionflags s t CTRLINDEX = ON \<and> scancode = KEY_L then
        bindE (handle_ctrl_l s) (\<lambda>s. Ok (SameTerminal, s))
      else bindE (handle_char scancode s) (\<lambda>s. Ok (SameTerminal, s)))"

definition keyboard_handler :: "'a kbd_scheme \<Rightarrow> (switch_end \<times> 'a kbd_scheme) res" where
  "keyboard_handler s =
     (let (v, s) = inb KB_ENCODER s;
          scancode = (ucast v :: u8);
          t = current_terminal s in
      if scancode = KEY_ALT then Ok (SameTerminal, send_eoi KEYBOARD (set_flag t ALTINDEX ON s))
      else if scancode = KEY_ALTRELEASE then
        Ok (SameTerminal, send_eoi KEYBOARD (set_flag t ALTINDEX OFF s))
      else if scancode = KEY_LSHIFT \<or> scancode = KEY_RSHIFT then
        Ok (SameTerminal, send_eoi KEYBOARD (set_flag t SHIFTINDEX ON s))
      else if scancode = KEY_LSHIFTRELEASE \<or> scancode = KEY_RSHIFTRELEASE then
        Ok (SameTerminal, send_eoi KEYBOARD (set_flag t SHIFTINDEX OFF s))
      else if scancode = KEY_CTRL then
        Ok (SameTerminal, send_eoi KEYBOARD (set_flag t CTRLINDEX ON s))
      else if scancode = KEY_CTRLRELEASE then
        Ok (SameTerminal, send_eoi KEYBOARD (set_flag t CTRLINDEX OFF s))
      else if scancode = KEY_CAPSLOCK then
        Ok (SameTerminal, send_eoi KEYBOARD
          (if functionflags s t CAPSLOCKINDEX = ON then set_flag t CAPSLOCKINDEX OFF s
           else if functionflags s t CAPSLOCKINDEX = OFF then set_flag t CAPSLOCKINDEX ON s
           else s))
      else if scancode = KEY_BACKSPACE then bindE (handle_backspace s) (\<lambda>s. Ok (SameTerminal, s))
      else if scancode = KEY_ENTER then bindE (handle_enter s) (\<lambda>s. Ok (SameTerminal, s))
      else if scancode = KEY_ENTERRELEASE then
        Ok (SameTerminal, send_eoi KEYBOARD (set_enter t OFF s))
      else handle_default scancode s)"

end
