(* ===== verification/Syscall.thy ===== *)
theory Syscall
  imports Keyboard
begin

text \<open>
  The system calls (\<open>syscall.c\<close>): descriptors and their dispatch through the jump tables, and
  the life of a process from \<open>execute\<close> to \<open>halt\<close>. \<open>execute\<close> does not return when
  it succeeds: it enters user mode, and its caller gets a result only when the new process halts
  and continues it behind the label \<open>halt_ret\<close>. The model cuts it there in two operations.
\<close>

abbreviation SYS_HALT :: nat where "SYS_HALT \<equiv> 1"
abbreviation SYS_EXECUTE :: nat where "SYS_EXECUTE \<equiv> 2"
abbreviation SYS_READ :: nat where "SYS_READ \<equiv> 3"
abbreviation SYS_WRITE :: nat where "SYS_WRITE \<equiv> 4"
abbreviation SYS_OPEN :: nat where "SYS_OPEN \<equiv> 5"
abbreviation SYS_CLOSE :: nat where "SYS_CLOSE \<equiv> 6"
abbreviation SYS_GETARGS :: nat where "SYS_GETARGS \<equiv> 7"
abbreviation SYS_VIDMAP :: nat where "SYS_VIDMAP \<equiv> 8"
abbreviation SYS_SET_HANDLER :: nat where "SYS_SET_HANDLER \<equiv> 9"
abbreviation SYS_SIGRETURN :: nat where "SYS_SIGRETURN \<equiv> 10"
abbreviation PROGADDR :: u32 where "PROGADDR \<equiv> 0x08048000"
abbreviation ELF_SIZE :: nat where "ELF_SIZE \<equiv> 4"
abbreviation MAGIC0 :: u8 where "MAGIC0 \<equiv> 0x7F"
abbreviation MAGIC1 :: u8 where "MAGIC1 \<equiv> 0x45"
abbreviation MAGIC2 :: u8 where "MAGIC2 \<equiv> 0x4C"
abbreviation MAGIC3 :: u8 where "MAGIC3 \<equiv> 0x46"
abbreviation BUFFASIZE :: nat where "BUFFASIZE \<equiv> 128"
abbreviation BIT_A :: nat where "BIT_A \<equiv> 24"
abbreviation BIT_B :: nat where "BIT_B \<equiv> 25"
abbreviation BIT_C :: nat where "BIT_C \<equiv> 26"
abbreviation BIT_D :: nat where "BIT_D \<equiv> 27"
abbreviation SHIFT :: nat where "SHIFT \<equiv> 8"
abbreviation STACKBOT :: u32 where "STACKBOT \<equiv> 0x08400000"
abbreviation TEXTSCREENVIDMEM :: u32 where "TEXTSCREENVIDMEM \<equiv> 0x8800000"
abbreviation MIN_FDENTRY :: int where "MIN_FDENTRY \<equiv> 0"
abbreviation MAX_FDENTRY :: int where "MAX_FDENTRY \<equiv> 7"
abbreviation FIRST_FDENTRY :: nat where "FIRST_FDENTRY \<equiv> 2"

subsection \<open>Descriptors\<close>

definition sys_close :: "int \<Rightarrow> 'a proc_scheme \<Rightarrow> (int \<times> 'a proc_scheme) res" where
  "sys_close fd s =
     (if fd < int FIRST_FDENTRY \<or> fd > MAX_FDENTRY then Ok (-1, s)
      else
        bindE (get_fd fd s) (\<lambda>e.
        if flags e = 0 then Ok (-1, s)
        else
          bindE (upd_fd fd (\<lambda>e. e\<lparr>fops_ptr := NoTable, inode_ptr := 0, file_pos := 0, flags := 0\<rparr>) s)
            (\<lambda>s. Ok (0, s))))"

text \<open>\<open>fops_ptr[CALL_READ]\<close> and \<open>fops_ptr[CALL_WRITE]\<close>: the entries of the jump tables.\<close>

definition call_read :: "('a kbd_scheme \<Rightarrow> 'a kbd_scheme res) list \<Rightarrow> jmp_table \<Rightarrow> int \<Rightarrow> u32 \<Rightarrow> int \<Rightarrow>
    'a kbd_scheme \<Rightarrow> (int \<times> 'a kbd_scheme) res" where
  "call_read irqs table fd buf nbytes s =
     (case table of
        NoTable \<Rightarrow> Err NullCall
      | FsTable \<Rightarrow> fs_read fd buf nbytes s
      | StdinTable \<Rightarrow> terminal_read irqs buf nbytes s
      | StdoutTable \<Rightarrow> terminal_read irqs buf nbytes s
      | DirTable \<Rightarrow> dir_read fd buf nbytes s
      | RtcTable \<Rightarrow> rtc_read irqs s)"

definition call_write :: "jmp_table \<Rightarrow> u32 \<Rightarrow> int \<Rightarrow> 'a kbd_scheme \<Rightarrow> (int \<times> 'a kbd_scheme) res" where
  "call_write table buf nbytes s =
     (case table of
        NoTable \<Rightarrow> Err NullCall
      | FsTable \<Rightarrow> Ok (fs_write, s)
      | StdinTable \<Rightarrow> terminal_write buf nbytes s
      | StdoutTable \<Rightarrow> terminal_write buf nbytes s
      | DirTable \<Rightarrow> Ok (dir_write, s)
      | RtcTable \<Rightarrow> rtc_write buf s)"

definition sys_read :: "('a kbd_scheme \<Rightarrow> 'a kbd_scheme res) list \<Rightarrow> int \<Rightarrow> u32 \<Rightarrow> int \<Rightarrow>
    'a kbd_scheme \<Rightarrow> (int \<times> 'a kbd_scheme) res" where
  "sys_read irqs fd buf nbytes s =
     (if fd < MIN_FDENTRY \<or> fd > MAX_FDENTRY then Ok (-1, s)
      else
        bindE (get_fd fd s) (\<lambda>e.
        if flags e = 0 then Ok (-1, s)
        else if fd = int STDOUT_NUM then Ok (-1, s)
        else call_read irqs (fops_ptr e) fd buf nbytes s))"

definition sys_write :: "int \<Rightarrow> u32 \<Rightarrow> int \<Rightarrow> 'a kbd_scheme \<Rightarrow> (int \<times> 'a kbd_scheme) res" where
  "sys_write fd buf nbytes s =
     (if fd < MIN_FDENTRY \<or> fd > MAX_FDENTRY then Ok (-1, s)
      else
        bindE (get_fd fd s) (\<lambda>e.
        if flags e = 0 then Ok (-1, s)
        else if fd = int STDIN_NUM then Ok (-1, s)
        else call_write (fops_ptr e) buf nbytes s))"

text \<open>
  The search for a free descriptor ends with the pair of the loop variable and \<open>empty\<close>. The
  variable \<open>empty\<close> is not initialised: the first argument is what it holds.
\<close>

function find_free :: "int \<Rightarrow> nat \<Rightarrow> 'a proc_scheme \<Rightarrow> (int \<times> int) res" where
  "find_free garbage i s =
     (if i < FOPS_NUM then
        bindE (get_fd (int i) s) (\<lambda>e.
        if flags e = 0 then Ok (int i, int i) else find_free garbage (Suc i) s)
      else Ok (int i, garbage))"
  by pat_completeness auto
termination by (relation "measure (\<lambda>(g, i, s). FOPS_NUM - i)") auto

declare find_free.simps [simp del]

text \<open>The switch on the type of the file; \<open>None\<close> is the default case, which returns \<open>-1\<close>.\<close>

definition open_entry :: "int \<Rightarrow> dentry \<Rightarrow> 'a proc_scheme \<Rightarrow> 'a proc_scheme option res" where
  "open_entry slot d s =
     (if dentry_type d = 0 then
        bindE (upd_fd slot (\<lambda>e. e\<lparr>fops_ptr := RtcTable, inode_ptr := 0\<rparr>) s) (\<lambda>s.
        Ok (Some (snd (rtc_open s))))
      else if dentry_type d = 1 then
        bindE (upd_fd slot (\<lambda>e. e\<lparr>fops_ptr := DirTable, inode_ptr := 0\<rparr>) s) (\<lambda>s. Ok (Some s))
      else if dentry_type d = 2 then
        bindE (upd_fd slot (\<lambda>e. e\<lparr>fops_ptr := FsTable, inode_ptr := dentry_inode d\<rparr>) s) (\<lambda>s.
        Ok (Some s))
      else Ok None)"

definition sys_open :: "int \<Rightarrow> u32 \<Rightarrow> 'a proc_scheme \<Rightarrow> (int \<times> 'a proc_scheme) res" where
  "sys_open garbage filename s =
     bindE (strlen (\<lambda>i. ptr_rd filename i s)) (\<lambda>len.
     if len = 0 then Ok (-1, s)
     else
       bindE (find_free garbage FIRST_FDENTRY s) (\<lambda>(i, slot).
       if slot \<noteq> i then Ok (-1, s)
       else
         bindE (read_dentry_by_name (\<lambda>a. ld a s) (boot s) (\<lambda>i. ptr_rd filename i s)) (\<lambda>(check, d).
         case d of
           None \<Rightarrow> Ok (-1, s)
         | Some d \<Rightarrow>
             bindE (open_entry slot d s) (\<lambda>r.
             case r of
               None \<Rightarrow> Ok (-1, s)
             | Some s \<Rightarrow>
                 bindE (upd_fd slot (\<lambda>e. e\<lparr>file_pos := 0, flags := 1\<rparr>) s) (\<lambda>s. Ok (slot, s))))))"

subsection \<open>Arguments and video memory\<close>

text \<open>The \<open>memcpy\<close> reads the array \<open>args\<close> of 128 bytes, whatever \<open>nbytes\<close> is.\<close>

definition getargs :: "u32 \<Rightarrow> int \<Rightarrow> 'a proc_scheme \<Rightarrow> (int \<times> 'a proc_scheme) res" where
  "getargs buf nbytes s =
     (if nbytes = 0 then Ok (-1, s)
      else
        bindE (cur_pcb s) (\<lambda>p.
        if args p ! 0 = 0 \<or> args p ! 0 = 0x25 then Ok (-1, s)
        else
          let n = unat (word_of_int nbytes :: u32) in
          if n \<le> length (args p)
          then bindE (copy_out buf (take n (args p)) s) (\<lambda>s. Ok (0, s))
          else Err OutOfBounds))"

text \<open>A store of a 32-bit value.\<close>

definition st_word :: "u32 \<Rightarrow> u32 \<Rightarrow> 'a machine_scheme \<Rightarrow> 'a machine_scheme res" where
  "st_word a w s =
     bindE (st a (byte_at w 0) s) (\<lambda>s. bindE (st (a + 1) (byte_at w 1) s) (\<lambda>s.
     bindE (st (a + 2) (byte_at w 2) s) (\<lambda>s. st (a + 3) (byte_at w 3) s)))"

definition vidmap :: "u32 \<Rightarrow> 'a machine_scheme \<Rightarrow> (int \<times> 'a machine_scheme) res" where
  "vidmap screen_start s =
     (if screen_start = 0 then Ok (-1, s)
      else if screen_start < PROGADDR \<or> screen_start > PROGADDR + MB4 then Ok (-1, s)
      else bindE (st_word screen_start TEXTSCREENVIDMEM s) (\<lambda>s. Ok (0, s)))"

definition set_handler :: int where "set_handler = -1"
definition sigreturn :: int where "sigreturn = -1"

subsection \<open>Starting a process\<close>

text \<open>
  What the stack frame of \<open>execute\<close> and of \<open>pcb_init\<close> holds before the local variables are
  assigned: three buffers and the PCB.
\<close>

record frame =
  elfbuf :: "u8 list"
  addrbuf :: "u8 list"
  prgname :: "u8 list"
  frame_pcb :: pcb

definition frame_ok :: "frame \<Rightarrow> bool" where
  "frame_ok f \<longleftrightarrow> length (elfbuf f) = ELF_SIZE \<and> length (addrbuf f) = BUFFASIZE \<and>
     length (prgname f) = BUFFASIZE \<and> pcb_shape (frame_pcb f)"

text \<open>The loop that copies the command up to its first blank; the second result is \<open>namelength\<close>.\<close>

function copy_name :: "reader \<Rightarrow> nat \<Rightarrow> u8 list \<Rightarrow> nat \<Rightarrow> (u8 list \<times> nat) res" where
  "copy_name command i buf namelength =
     (if i < BUFFASIZE then
        bindE (command i) (\<lambda>c.
        if c = CH_SPACE \<or> c = 0 then bindE (arr_wr i 0 buf) (\<lambda>buf. Ok (buf, namelength))
        else bindE (arr_wr i c buf) (\<lambda>buf. copy_name command (Suc i) buf (Suc namelength)))
      else Ok (buf, namelength))"
  by pat_completeness auto
termination by (relation "measure (\<lambda>(c, i, b, n). BUFFASIZE - i)") auto

declare copy_name.simps [simp del]

text \<open>The first process slot that is free; \<open>None\<close> when the loop ends without one.\<close>

fun find_slot :: "(nat \<Rightarrow> int) \<Rightarrow> nat list \<Rightarrow> nat option" where
  "find_slot ms [] = None"
| "find_slot ms (i # is) = (if ms i = 0 then Some i else find_slot ms is)"

text \<open>
  From the check of the command to the entry point: \<open>None\<close> is the early return of \<open>-1\<close>,
  otherwise the directory entry, the length of the name and the entry point.
\<close>

definition load_header :: "frame \<Rightarrow> u32 \<Rightarrow> 'a fs_scheme \<Rightarrow> (dentry \<times> nat \<times> u32) option res" where
  "load_header f command s =
     bindE (ld command s) (\<lambda>c0.
     if c0 = 0 then Ok None
     else
       bindE (copy_name (\<lambda>i. ptr_rd command i s) 0 (prgname f) 0) (\<lambda>(name, namelength).
       bindE (read_dentry_by_name (\<lambda>a. ld a s) (boot s) (\<lambda>i. arr_rd i name)) (\<lambda>(check, d).
       case d of
         None \<Rightarrow> Ok None
       | Some d \<Rightarrow>
           bindE (read_data (\<lambda>_ a. ld a s) arr_wr False (boot s) (data s) (dentry_inode d) 0
             (of_nat ELF_SIZE) (elfbuf f)) (\<lambda>(n, elf).
           if n = -1 then Ok None
           else if elf ! 0 \<noteq> MAGIC0 \<or> elf ! 1 \<noteq> MAGIC1 \<or> elf ! 2 \<noteq> MAGIC2 \<or> elf ! 3 \<noteq> MAGIC3 then Ok None
           else
             bindE (read_data (\<lambda>_ a. ld a s) arr_wr False (boot s) (data s) (dentry_inode d) 0
               (of_nat BUFFASIZE) (addrbuf f)) (\<lambda>(n, addr).
             if n = -1 then Ok None
             else
               let entryaddr = ucast (addr ! BIT_A) OR push_bit SHIFT (ucast (addr ! BIT_B)) OR
                 push_bit (2 * SHIFT) (ucast (addr ! BIT_C)) OR push_bit (3 * SHIFT) (ucast (addr ! BIT_D))
               in Ok (Some (d, namelength, entryaddr)))))))"

text \<open>
  The new PCB: a slot is claimed (slot 0 when there is none), the PCB of the slot becomes the
  current one of the terminal, and the registers of the caller are saved in it.
\<close>

definition new_process :: "pcb \<Rightarrow> 'a proc_scheme \<Rightarrow> 'a proc_scheme res" where
  "new_process g s =
     (let t = current_terminal s;
          s = s\<lparr>prog_count := (prog_count s)(t := prog_count s t + 1)\<rparr>;
          new_pcb = pcb_init g;
          (new_pcb, s) = (case find_slot (memoryspace s) [0..<MAX_PROCESSES] of
              None \<Rightarrow> (new_pcb, s)
            | Some i \<Rightarrow> (new_pcb\<lparr>pid := of_nat i\<rparr>, s\<lparr>memoryspace := (memoryspace s)(i := 1)\<rparr>));
          temp = pcb_loc s t;
          s = s\<lparr>pcb_loc := (pcb_loc s)(t := PCB0_LOC - pid new_pcb * EIGHT_KB)\<rparr>;
          s = s\<lparr>prev_pcb := (prev_pcb s)(t := if prog_count s t = 1 then pcb_loc s t else temp)\<rparr>;
          (_, s) = setup_pcb new_pcb (pcb_loc s t) (prev_pcb s t) s in
      bindE (upd_pcb (cur_loc s) (\<lambda>p. p\<lparr>pcb_ebp := ebp s\<rparr>) s) (\<lambda>s.
      bindE (upd_pcb (cur_loc s) (\<lambda>p. p\<lparr>pcb_esp := esp s\<rparr>) s) (\<lambda>s.
      upd_pcb (cur_loc s) (\<lambda>p. p\<lparr>pagedir := cr3 s\<rparr>) s)))"

text \<open>
  The loop that saves the arguments: index \<open>i\<close> of the command goes to index
  \<open>i - namelength - 1\<close>. The copy in \<open>argbuf\<close> is not used.
\<close>

function save_args :: "reader \<Rightarrow> nat \<Rightarrow> nat \<Rightarrow> 'a proc_scheme \<Rightarrow> 'a proc_scheme res" where
  "save_args command namelength i s =
     (if i < BUFFASIZE then
        bindE (command i) (\<lambda>c.
        if c = 0 then Ok s
        else
          bindE (upd_pcb (cur_loc s) (\<lambda>p. p\<lparr>args := (args p)[i - namelength - 1 := c]\<rparr>) s)
            (save_args command namelength (Suc i)))
      else Ok s)"
  by pat_completeness auto
termination by (relation "measure (\<lambda>(c, n, i, s). BUFFASIZE - i)") auto

declare save_args.simps [simp del]

text \<open>The program is copied to \<open>PROGADDR\<close> through the page tables of the new process.\<close>

definition load_program :: "layout \<Rightarrow> u32 \<Rightarrow> 'a proc_scheme \<Rightarrow> 'a proc_scheme res" where
  "load_program L ino s =
     bindE (cur_pcb s) (\<lambda>p.
     let s = progs_init L (pid p) s in
     bindE (inode_length (\<lambda>a. ld a s) (boot s) ino) (\<lambda>filelen.
     bindE (read_data (\<lambda>s a. ld a s) (ptr_wr PROGADDR) False (boot s) (data s) ino 0 filelen s) (\<lambda>(_, s).
     Ok s)))"

definition enter_program :: "'a proc_scheme \<Rightarrow> 'a proc_scheme res" where
  "enter_program s =
     (let s = s\<lparr>tss_ss0 := KERNEL_DS\<rparr> in
      bindE (cur_pcb s) (\<lambda>p.
      let kern = 0x00800000 - (pid p + 1) * MAX_STACK;
          s = s\<lparr>tss_esp0 := kern\<rparr> in
      bindE (upd_pcb (cur_loc s) (\<lambda>p. p\<lparr>curr_pd := cr3 s\<rparr>) s) (\<lambda>s.
      bindE (upd_pcb (cur_loc s) (\<lambda>p. p\<lparr>curr_esp := kern\<rparr>) s) (\<lambda>s.
      bindE (upd_pcb (cur_loc s) (\<lambda>p. p\<lparr>curr_ebp := kern\<rparr>) s) (\<lambda>s.
      bindE (upd_pcb (cur_loc s) (\<lambda>p. p\<lparr>term_num := of_nat (current_terminal s)\<rparr>) s) (\<lambda>s.
      let s = cli s
      in Ok (s\<lparr>eflags := eflags s OR 0x200, esp := STACKBOT\<rparr>)))))))"

text \<open>Either a result for the caller, or the entry point that \<open>iret\<close> continues at in user mode.\<close>

datatype exec_end = Returns int | Enters u32

definition execute :: "layout \<Rightarrow> frame \<Rightarrow> u32 \<Rightarrow> 'a proc_scheme \<Rightarrow> (exec_end \<times> 'a proc_scheme) res" where
  "execute L f command s =
     (if total_count s \<ge> int MAX_PROCESSES
      then Ok (Returns 0, snd (printk (bytes_of ''MAX PROCESSES REACHED! \<newline>'') s))
      else
        bindE (load_header f command s) (\<lambda>h.
        case h of
          None \<Rightarrow> Ok (Returns (-1), s)
        | Some (d, namelength, entryaddr) \<Rightarrow>
            bindE (new_process (frame_pcb f) s) (\<lambda>s.
            bindE (save_args (\<lambda>i. ptr_rd command i s) namelength (namelength + 1) s) (\<lambda>s.
            bindE (load_program L (dentry_inode d) s) (\<lambda>s.
            bindE (enter_program s) (\<lambda>s.
            Ok (Enters entryaddr, s)))))))"

subsection \<open>Ending a process\<close>

definition free_slot :: "u32 \<Rightarrow> 'a proc_scheme \<Rightarrow> 'a proc_scheme res" where
  "free_slot i s =
     (if unat i < MAX_PROCESSES then Ok (s\<lparr>memoryspace := (memoryspace s)(unat i := 0)\<rparr>)
      else Err OutOfBounds)"

text \<open>\<open>halt\<close> ends with a jump into the frame of the \<open>execute\<close> that started the process.\<close>

definition halt :: "u8 \<Rightarrow> 'a proc_scheme \<Rightarrow> 'a proc_scheme res" where
  "halt status_code s =
     bindE (for_loopE 2 FOPS_NUM (\<lambda>i s. bindE (sys_close (int i) s) (\<lambda>(_, s). Ok s)) s) (\<lambda>s.
     let t = current_terminal s;
         s = s\<lparr>prog_count := (prog_count s)(t := prog_count s t - 1)\<rparr> in
     bindE (cur_pcb s) (\<lambda>p.
     bindE (free_slot (pid p) s) (\<lambda>s.
     let s = s\<lparr>tss_ss0 := KERNEL_DS\<rparr> in
     bindE (upd_pcb (cur_loc s) (\<lambda>p. p\<lparr>status := status_code\<rparr>) s) (\<lambda>s.
     bindE (cur_pcb s) (\<lambda>p.
     bindE (get_pcb (lastpcb_ptr p) s) (\<lambda>parent.
     let s = s\<lparr>tss_esp0 := MB8 - (pid parent + 1) * MAX_STACK\<rparr> in
     Ok (s\<lparr>ebp := pcb_ebp p, esp := pcb_esp p, cr3 := pagedir p\<rparr>)))))))"

text \<open>The rest of \<open>execute\<close>, behind \<open>halt_ret\<close>: what the parent gets.\<close>

definition halt_ret :: "'a proc_scheme \<Rightarrow> (int \<times> 'a proc_scheme) res" where
  "halt_ret s =
     bindE (cur_pcb s) (\<lambda>p.
     let ret = sint (status p);
         ret = (if ret > 0 then 0 else ret);
         t = current_terminal s
     in Ok (ret, if prog_count s t \<noteq> 0 then s\<lparr>pcb_loc := (pcb_loc s)(t := lastpcb_ptr p)\<rparr> else s))"

end
