(* ===== verification/Fd_Table.thy ===== *)
theory Fd_Table
  imports Syscall
begin

text \<open>
  The descriptor table of the current process: the invariant of its entries, what \<open>sys_open\<close>
  and \<open>sys_close\<close> do to it, and what \<open>sys_read\<close> and \<open>sys_write\<close> dispatch to. The
  locale \<open>fd_store\<close> is the interface of a table of entries inside a larger state.
\<close>

subsection \<open>A table inside a state\<close>

locale fd_store =
  fixes tab :: "'s \<Rightarrow> 'e list"
    and put :: "nat \<Rightarrow> 'e \<Rightarrow> 's \<Rightarrow> 's"
    and free :: 'e
  assumes tab_put: "tab (put i e s) = (tab s)[i := e]"
    and put_put: "put i e (put i e' s) = put i e s"
    and put_same: "put i (tab s ! i) s = s"
begin

lemma put_free_again: "tab s ! i = free \<Longrightarrow> put i free (put i e s) = s"
  by (metis put_put put_same)

lemma tab_put_same: "i < length (tab s) \<Longrightarrow> tab (put i e s) ! i = e"
  by (simp add: tab_put)

text \<open>Freeing the entries from \<open>a\<close> on.\<close>

lemma tab_free_all:
  "a \<le> n \<Longrightarrow> n \<le> length (tab s) \<Longrightarrow>
   tab (for_loop a n (\<lambda>i. put i free) s) = take a (tab s) @ replicate (n - a) free @ drop n (tab s)"
proof (induction n rule: dec_induct)
  case (step n)
  then have "drop n (tab s) = tab s ! n # drop (Suc n) (tab s)"
    by (intro Cons_nth_drop_Suc [symmetric]) simp
  then show ?case
    using step by (simp add: for_loop_Suc tab_put list_update_append replicate_append_same Suc_diff_le)
qed simp

end

subsection \<open>The table of the current process\<close>

definition fds :: "'a proc_scheme \<Rightarrow> fd_entry list" where
  "fds s = file_desc (pcbs s (cur_loc s))"

definition put_fd :: "nat \<Rightarrow> fd_entry \<Rightarrow> 'a proc_scheme \<Rightarrow> 'a proc_scheme" where
  "put_fd i e s = s\<lparr>pcbs := (pcbs s)(cur_loc s :=
     (pcbs s (cur_loc s))\<lparr>file_desc := (file_desc (pcbs s (cur_loc s)))[i := e]\<rparr>)\<rparr>"

lemma put_fd_frame [frame_simps]:
  "cur_loc (put_fd i e s) = cur_loc s" "mem (put_fd i e s) = mem s" "boot (put_fd i e s) = boot s"
  "data (put_fd i e s) = data s" "translate (put_fd i e s) = translate s"
  "pcb_loc (put_fd i e s) = pcb_loc s" "current_terminal (put_fd i e s) = current_terminal s"
  "dev (put_fd i e s) = dev s" "io_log (put_fd i e s) = io_log s"
  "memoryspace (put_fd i e s) = memoryspace s" "prog_count (put_fd i e s) = prog_count s"
  by (simp_all add: put_fd_def cur_loc_def)

lemma ld_put_fd [simp]: "ld a (put_fd i e s) = ld a s"
  by (simp add: frame_simps ld_def cong: option.case_cong)

interpretation fd: fd_store fds put_fd free_fd
  by unfold_locales (simp_all add: fds_def put_fd_def cur_loc_def)

lemmas fds_put [simp] = fd.tab_put

lemma get_fd_fds:
  "cur_loc s \<noteq> 0 \<Longrightarrow> 0 \<le> i \<Longrightarrow> i < int (length (fds s)) \<Longrightarrow> get_fd i s = Ok (fds s ! nat i)"
  by (simp add: get_fd_def cur_pcb_def get_pcb_def fds_def)

lemma upd_fd_put:
  "cur_loc s \<noteq> 0 \<Longrightarrow> 0 \<le> i \<Longrightarrow> i < int (length (fds s)) \<Longrightarrow>
   upd_fd i f s = Ok (put_fd (nat i) (f (fds s ! nat i)) s)"
  by (simp add: upd_fd_def get_fd_fds upd_pcb_def put_fd_def fds_def)

text \<open>
  An entry is free or in use with a jump table; the first two are always in use. This holds of a
  new process (\<open>pcb_init_fields\<close>).
\<close>

definition fd_ok :: "fd_entry \<Rightarrow> bool" where
  "fd_ok e \<longleftrightarrow> e = free_fd \<or> flags e = 1 \<and> fops_ptr e \<noteq> NoTable"

definition table_ok :: "fd_entry list \<Rightarrow> bool" where
  "table_ok l \<longleftrightarrow> length l = FOPS_NUM \<and> list_all fd_ok l \<and>
     fops_ptr (l ! STDIN_NUM) = StdinTable \<and> fops_ptr (l ! STDOUT_NUM) = StdoutTable"

definition fds_ok :: "'a proc_scheme \<Rightarrow> bool" where
  "fds_ok s \<longleftrightarrow> cur_loc s \<noteq> 0 \<and> table_ok (fds s)"

lemma stdio_ok: "table_ok stdio_fds"
  by (simp add: table_ok_def stdio_fds_def fd_ok_def eval_nat_numeral)

lemma table_ok_nth: "table_ok l \<Longrightarrow> i < FOPS_NUM \<Longrightarrow> fd_ok (l ! i)"
  by (simp add: table_ok_def list_all_length)

lemma fd_ok_flags: "fd_ok e \<Longrightarrow> flags e = 0 \<longleftrightarrow> e = free_fd"
  by (auto simp: fd_ok_def free_fd_def)

lemma table_ok_update:
  "table_ok l \<Longrightarrow> fd_ok e \<Longrightarrow> 2 \<le> i \<Longrightarrow> table_ok (l[i := e])"
proof -
  assume l: "table_ok l" "fd_ok e" "2 \<le> i"
  have "fd_ok (l[i := e] ! n)" if "n < length l" for n
    using l that by (cases "n = i") (simp_all add: table_ok_def list_all_length)
  then show ?thesis using l by (auto simp: table_ok_def list_all_length)
qed

lemma fds_ok_put: "fds_ok s \<Longrightarrow> fd_ok e \<Longrightarrow> 2 \<le> i \<Longrightarrow> fds_ok (put_fd i e s)"
  by (simp add: fds_ok_def table_ok_update frame_simps)

lemma fds_okD:
  assumes "fds_ok s"
  shows "cur_loc s \<noteq> 0" and "length (fds s) = FOPS_NUM" and "table_ok (fds s)"
  using assms by (simp_all add: fds_ok_def table_ok_def)

subsection \<open>Closing\<close>

lemma sys_close_eq:
  assumes "fds_ok s"
  shows "sys_close i s =
    (if 2 \<le> i \<and> i \<le> 7 \<and> fds s ! nat i \<noteq> free_fd then Ok (0, put_fd (nat i) free_fd s) else Ok (-1, s))"
proof (cases "2 \<le> i \<and> i \<le> 7")
  case True
  then have get: "get_fd i s = Ok (fds s ! nat i)"
    and upd: "\<And>f. upd_fd i f s = Ok (put_fd (nat i) (f (fds s ! nat i)) s)"
    using fds_okD [OF assms] by (simp_all add: get_fd_fds upd_fd_put)
  have "fd_ok (fds s ! nat i)"
    using True fds_okD [OF assms] by (intro table_ok_nth) auto
  then show ?thesis
    using True by (cases "fds s ! nat i") (auto simp: sys_close_def get upd fd_ok_def free_fd_def)
qed (auto simp: sys_close_def)

text \<open>The loop of \<open>halt\<close> that closes everything but standard input and output.\<close>

lemma close_all:
  assumes "fds_ok s"
  shows "\<exists>s'. for_loopE 2 FOPS_NUM (\<lambda>i s. bindE (sys_close (int i) s) (\<lambda>(_, s). Ok s)) s = Ok s' \<and>
    s' = for_loop 2 FOPS_NUM (\<lambda>i. put_fd i free_fd) s \<and> fds_ok s'"
proof -
  define P where "P i t \<longleftrightarrow> fds_ok t \<and> t = for_loop 2 i (\<lambda>i. put_fd i free_fd) s" for i t
  have "\<exists>t. for_loopE 2 FOPS_NUM (\<lambda>i s. bindE (sys_close (int i) s) (\<lambda>(_, s). Ok s)) s = Ok t \<and> P FOPS_NUM t"
  proof (rule for_loopE_induct)
    show "P 2 s" using assms by (simp add: P_def)
  next
    fix i t
    assume i: "2 \<le> i" "i < FOPS_NUM" and t: "P i t"
    have ok: "fds_ok t" using t unfolding P_def by (rule conjunct1)
    have "fds_ok (put_fd i free_fd t)"
      using i by (intro fds_ok_put ok) (simp_all add: fd_ok_def)
    then have "P (Suc i) (put_fd i free_fd t)"
      using t i by (simp add: P_def for_loop_Suc)
    moreover have "put_fd i free_fd t = t" if "fds t ! i = free_fd"
      using that fd.put_same [of i t] by simp
    ultimately show "\<exists>t'. bindE (sys_close (int i) t) (\<lambda>(_, s). Ok s) = Ok t' \<and> P (Suc i) t'"
      using i ok sys_close_eq [of t "int i"] by auto
  qed simp
  then show ?thesis by (auto simp: P_def)
qed

subsection \<open>Opening\<close>

definition first_free :: "fd_entry list \<Rightarrow> nat \<Rightarrow> nat \<Rightarrow> bool" where
  "first_free l i k \<longleftrightarrow> i \<le> k \<and> k < length l \<and> l ! k = free_fd \<and> (\<forall>j. i \<le> j \<and> j < k \<longrightarrow> l ! j \<noteq> free_fd)"

lemma find_free_step:
  assumes "fds_ok s" and "i < FOPS_NUM"
  shows "find_free g i s = (if fds s ! i = free_fd then Ok (int i, int i) else find_free g (Suc i) s)"
  using assms fds_okD [OF assms(1)]
  by (subst find_free.simps) (simp add: get_fd_fds fd_ok_flags [OF table_ok_nth])

lemma find_free_first:
  assumes "fds_ok s" and "first_free (fds s) i k"
  shows "find_free g i s = Ok (int k, int k)"
proof -
  have k: "k < FOPS_NUM" "i \<le> k" "fds s ! k = free_fd"
    using assms fds_okD(2) [OF assms(1)] by (auto simp: first_free_def)
  have "\<forall>j. i \<le> j \<and> j < k \<longrightarrow> fds s ! j \<noteq> free_fd"
    using assms(2) by (simp add: first_free_def)
  with k(2) show ?thesis
  proof (induction i rule: inc_induct)
    case base
    then show ?case using k find_free_step [OF assms(1), of k] by simp
  next
    case (step n)
    then show ?case using k find_free_step [OF assms(1), of n] by auto
  qed
qed

lemma find_free_full:
  assumes "fds_ok s" and "\<forall>j. i \<le> j \<and> j < FOPS_NUM \<longrightarrow> fds s ! j \<noteq> free_fd" and "i \<le> FOPS_NUM"
  shows "find_free g i s = Ok (int FOPS_NUM, g)"
  using assms(3,2)
proof (induction i rule: inc_induct)
  case base
  then show ?case by (simp add: find_free.simps)
next
  case (step n)
  then show ?case using find_free_step [OF assms(1), of n] by auto
qed

text \<open>The entry for a file of each type, and the devices' part of opening it.\<close>

definition opened :: "dentry \<Rightarrow> fd_entry" where
  "opened d =
     (if dentry_type d = 0 then \<lparr>fops_ptr = RtcTable, inode_ptr = 0, file_pos = 0, flags = 1\<rparr>
      else if dentry_type d = 1 then \<lparr>fops_ptr = DirTable, inode_ptr = 0, file_pos = 0, flags = 1\<rparr>
      else \<lparr>fops_ptr = FsTable, inode_ptr = dentry_inode d, file_pos = 0, flags = 1\<rparr>)"

definition device_opened :: "dentry \<Rightarrow> 'a machine_scheme \<Rightarrow> 'a machine_scheme" where
  "device_opened d s = (if dentry_type d = 0 then snd (rtc_open s) else s)"

lemma opened_ok: "fd_ok (opened d)"
  by (simp add: fd_ok_def opened_def)

text \<open>Programming the clock touches no field of the processes.\<close>

lemma rtc_open_frame [frame_simps]:
  "machine.more (snd (rtc_open s)) = machine.more s" "mem (snd (rtc_open s)) = mem s"
  by (simp_all add: rtc_open_rmw rtc_init_rmw frame_simps)

lemma rtc_open_log: "snd (rtc_open s) = s\<lparr>io_log := io_log (snd (rtc_open s))\<rparr>"
  by (simp add: rtc_open_def rtc_init_def outb_def inb_def port_out_def port_in_def Let_def)

lemma rtc_open_procs:
  "cur_loc (snd (rtc_open s)) = cur_loc s" "fds (snd (rtc_open s)) = fds s"
  "boot (snd (rtc_open s)) = boot s"
proof -
  obtain l where "snd (rtc_open s) = s\<lparr>io_log := l\<rparr>" by (rule that [OF rtc_open_log])
  then show "cur_loc (snd (rtc_open s)) = cur_loc s" "fds (snd (rtc_open s)) = fds s"
    "boot (snd (rtc_open s)) = boot s"
    by (simp_all add: cur_loc_def fds_def)
qed

lemma device_opened_procs [simp]:
  "cur_loc (device_opened d s) = cur_loc s" "fds (device_opened d s) = fds s"
  by (simp_all add: device_opened_def rtc_open_procs)

lemma device_opened_ok: "fds_ok s \<Longrightarrow> fds_ok (device_opened d s)"
  by (simp add: fds_ok_def)

lemma device_opened_put: "device_opened d (put_fd i e s) = put_fd i e (device_opened d s)"
proof (cases s)
  case (fields)
  then show ?thesis
    by (simp add: device_opened_def put_fd_def cur_loc_def rtc_open_def rtc_init_def outb_def inb_def
        port_out_def port_in_def Let_def)
qed

text \<open>
  Opening an existing name takes the lowest free descriptor; every other descriptor keeps its
  entry.
\<close>

lemma open_entry_opened:
  assumes "fds_ok s" and "k < FOPS_NUM" and "dentry_type d \<le> 2"
  shows "\<exists>e. open_entry (int k) d s = Ok (Some (device_opened d (put_fd k e s))) \<and>
    e\<lparr>file_pos := 0, flags := 1\<rparr> = opened d"
proof -
  have upd: "\<And>f. upd_fd (int k) f s = Ok (put_fd k (f (fds s ! k)) s)"
    using fds_okD [OF assms(1)] assms(2) by (simp add: upd_fd_put)
  consider "dentry_type d = 0" | "dentry_type d = 1" | "dentry_type d = 2"
    using assms(3) by (auto simp: u32_le_2_cases)
  then show ?thesis
    by cases (auto simp: open_entry_def upd device_opened_def opened_def)
qed

definition opens :: "u32 \<Rightarrow> 'a proc_scheme \<Rightarrow> dentry option \<Rightarrow> bool" where
  "opens filename s d \<longleftrightarrow>
     (\<exists>n. c_string (\<lambda>i. ptr_rd filename i s) n \<and> 0 < n \<and> n < 2 ^ 32) \<and>
     read_dentry_by_name (\<lambda>a. ld a s) (boot s) (\<lambda>i. ptr_rd filename i s) = Ok (if d = None then -1 else 0, d)"

lemma opens_strlen:
  assumes "opens filename s d"
  obtains n where "strlen (\<lambda>i. ptr_rd filename i s) = Ok n" and "n \<noteq> 0"
  using assms strlen_c_string unfolding opens_def by blast

lemma sys_open_file:
  assumes "fds_ok s" and "opens filename s (Some d)" and "dentry_type d \<le> 2"
    and "first_free (fds s) 2 k"
  shows "sys_open g filename s = Ok (int k, put_fd k (opened d) (device_opened d s))"
proof -
  obtain n where n: "strlen (\<lambda>i. ptr_rd filename i s) = Ok n" "n \<noteq> 0"
    using opens_strlen [OF assms(2)] .
  have k: "k < FOPS_NUM" using assms(4) fds_okD(2) [OF assms(1)] by (simp add: first_free_def)
  obtain e where e: "open_entry (int k) d s = Ok (Some (device_opened d (put_fd k e s)))"
    "e\<lparr>file_pos := 0, flags := 1\<rparr> = opened d"
    using open_entry_opened [OF assms(1) k assms(3)] by blast
  have "sys_open g filename s =
      bindE (upd_fd (int k) (\<lambda>e. e\<lparr>file_pos := 0, flags := 1\<rparr>) (device_opened d (put_fd k e s)))
        (\<lambda>s. Ok (int k, s))"
    using assms(2) n find_free_first [OF assms(1,4), of g] e(1) by (simp add: sys_open_def opens_def)
  also have "\<dots> = Ok (int k, put_fd k (opened d) (device_opened d s))"
    using fds_okD [OF assms(1)] k e(2)
    by (simp add: device_opened_put upd_fd_put fd.put_put device_opened_procs frame_simps)
  finally show ?thesis .
qed

lemma sys_open_missing:
  assumes "fds_ok s" and "opens filename s None" and "first_free (fds s) 2 k"
  shows "sys_open g filename s = Ok (-1, s)"
proof -
  obtain n where n: "strlen (\<lambda>i. ptr_rd filename i s) = Ok n" "n \<noteq> 0"
    using opens_strlen [OF assms(2)] .
  then show ?thesis
    using assms(2) find_free_first [OF assms(1,3), of g] by (simp add: sys_open_def opens_def)
qed

text \<open>
  Without a free descriptor the result depends on what the uninitialised variable holds: if it is
  8, the entry behind the table is written.
\<close>

lemma sys_open_full:
  assumes "fds_ok s" and "opens filename s d" and "\<forall>j. 2 \<le> j \<and> j < FOPS_NUM \<longrightarrow> fds s ! j \<noteq> free_fd"
  shows "g \<noteq> 8 \<Longrightarrow> sys_open g filename s = Ok (-1, s)"
    and "d = Some e \<Longrightarrow> dentry_type e \<le> 2 \<Longrightarrow> sys_open 8 filename s = Err OutOfBounds"
proof -
  obtain n where n: "strlen (\<lambda>i. ptr_rd filename i s) = Ok n" "n \<noteq> 0"
    using opens_strlen [OF assms(2)] .
  show "sys_open g filename s = Ok (-1, s)" if "g \<noteq> 8"
    using that n find_free_full [OF assms(1,3), of g] by (simp add: sys_open_def)
  have "upd_fd 8 f s = Err OutOfBounds" for f
    using fds_okD [OF assms(1)] by (simp add: upd_fd_def get_fd_def cur_pcb_def get_pcb_def fds_def)
  moreover assume d: "d = Some e" "dentry_type e \<le> 2"
  moreover have "dentry_type e = 0 \<or> dentry_type e = 1 \<or> dentry_type e = 2"
    using d(2) by (simp add: u32_le_2_cases)
  ultimately have "open_entry 8 e s = Err OutOfBounds"
    by (auto simp: open_entry_def)
  then show "sys_open 8 filename s = Err OutOfBounds"
    using assms(2) n d(1) find_free_full [OF assms(1,3), of 8] by (simp add: sys_open_def opens_def)
qed

text \<open>Closing what was opened restores the table; for a file, the whole state.\<close>

lemma open_close:
  assumes "fds_ok s" and "opens filename s (Some d)" and "dentry_type d \<in> {1, 2}"
    and "first_free (fds s) 2 k"
  shows "bindE (sys_open g filename s) (\<lambda>(fd, s). sys_close fd s) = Ok (0, s)"
proof -
  have k: "2 \<le> k" "k < FOPS_NUM" "fds s ! k = free_fd"
    using assms(4) fds_okD(2) [OF assms(1)] by (auto simp: first_free_def)
  have "dentry_type d \<le> 2" "device_opened d s = s"
    using assms(3) by (auto simp: device_opened_def)
  then have "sys_open g filename s = Ok (int k, put_fd k (opened d) s)"
    using sys_open_file [OF assms(1,2) _ assms(4)] by simp
  moreover have "fds_ok (put_fd k (opened d) s)"
    using k by (intro fds_ok_put assms(1) opened_ok)
  moreover have "opened d \<noteq> free_fd" by (simp add: opened_def free_fd_def)
  ultimately show ?thesis
    using k fds_okD(2) [OF assms(1)] fd.put_free_again [of s k]
    by (simp add: sys_close_eq)
qed

subsection \<open>Dispatch\<close>

text \<open>
  A call on a descriptor that is free, out of range or of the wrong direction returns \<open>-1\<close>;
  every other goes through a jump table, never through a null pointer.
\<close>

lemma sys_read_dispatch:
  assumes "fds_ok s"
  shows "sys_read irqs i buf n s =
    (if i < 0 \<or> 7 < i \<or> i = 1 \<or> fds s ! nat i = free_fd then Ok (-1, s)
     else call_read irqs (fops_ptr (fds s ! nat i)) i buf n s)"
proof (cases "i < 0 \<or> 7 < i")
  case False
  then have "get_fd i s = Ok (fds s ! nat i)" "fd_ok (fds s ! nat i)"
    using fds_okD [OF assms] table_ok_nth [of "fds s" "nat i"] by (auto simp: get_fd_fds)
  with False show ?thesis by (simp add: sys_read_def fd_ok_flags)
qed (auto simp: sys_read_def)

lemma sys_write_dispatch:
  assumes "fds_ok s"
  shows "sys_write i buf n s =
    (if i < 0 \<or> 7 < i \<or> i = 0 \<or> fds s ! nat i = free_fd then Ok (-1, s)
     else call_write (fops_ptr (fds s ! nat i)) buf n s)"
proof (cases "i < 0 \<or> 7 < i")
  case False
  then have "get_fd i s = Ok (fds s ! nat i)" "fd_ok (fds s ! nat i)"
    using fds_okD [OF assms] table_ok_nth [of "fds s" "nat i"] by (auto simp: get_fd_fds)
  with False show ?thesis by (simp add: sys_write_def fd_ok_flags)
qed (auto simp: sys_write_def)

lemma table_not_null:
  assumes "fds_ok s" and "0 \<le> i" and "i \<le> 7" and "fds s ! nat i \<noteq> free_fd"
  shows "fops_ptr (fds s ! nat i) \<noteq> NoTable"
  using table_ok_nth [of "fds s" "nat i"] fds_okD [OF assms(1)] assms(2-4) by (auto simp: fd_ok_def)

subsection \<open>Reading what was opened\<close>

text \<open>
  Opening a file and reading from the new descriptor delivers the beginning of the file.
\<close>

lemma open_read:
  assumes "fds_ok s" and "opens filename s (Some d)" and "dentry_type d = 2" and "first_free (fds s) 2 k"
    and "has_image A M s" and "apart A buf n s" and "mapped buf n s" and "buf \<noteq> 0"
    and "file_in A M (boot s) (data s) (dentry_inode d)"
    and "0 < n" and "n < 2 ^ 31" and "n \<le> unat (file_length M (boot s) (dentry_inode d))"
  shows "\<exists>s'. bindE (sys_open g filename s) (\<lambda>(fd, s). sys_read irqs fd buf (int n) s) = Ok (int n, s') \<and>
    (\<forall>i < n. ld (buf + of_nat i) s' = Ok (file_byte M (boot s) (data s) (dentry_inode d) i))"
proof -
  let ?t = "put_fd k (opened d) s"
  have k: "2 \<le> k" "k < FOPS_NUM"
    using assms(4) fds_okD(2) [OF assms(1)] by (auto simp: first_free_def)
  have op: "sys_open g filename s = Ok (int k, ?t)"
    using sys_open_file [OF assms(1,2) _ assms(4)] assms(3) by (simp add: device_opened_def)
  have ok: "fds_ok ?t" using k by (intro fds_ok_put assms(1) opened_ok)
  have e: "fds ?t ! k = opened d" "get_fd (int k) ?t = Ok (opened d)"
    using k fds_okD [OF ok] fds_okD(2) [OF assms(1)] by (simp_all add: get_fd_fds)
  have "\<exists>s'. fs_read (int k) buf (int n) ?t = Ok (int n, s') \<and>
    (\<forall>i < n. ld (buf + of_nat i) s' =
      Ok (file_byte M (boot ?t) (data ?t) (inode_ptr (opened d)) (unat (file_pos (opened d)) + i)))"
    using fs_read_bytes [of A M ?t buf n "opened d" "int k"] assms(3,5-12) e(2)
    by (auto simp: has_image_def apart_def mapped_def opened_def frame_simps)
  then show ?thesis
    using sys_read_dispatch [OF ok, of irqs "int k" buf "int n"] k e(1) op assms(3)
    by (simp add: call_read_def opened_def free_fd_def frame_simps)
qed

end
