(* ===== verification/Process_Table.thy ===== *)
theory Process_Table
  imports Fd_Table
begin

text \<open>
  The processes of the three terminals against an abstract process table: a stack of process
  numbers per terminal. \<open>execute\<close> pushes the lowest number that no terminal uses on the stack
  of the current terminal, \<open>halt\<close> pops it.
\<close>

subsection \<open>The abstract table\<close>

type_synonym stacks = "nat \<Rightarrow> nat list"

definition live :: "stacks \<Rightarrow> nat list" where
  "live S = S TERM_1 @ S TERM_2 @ S TERM_3"

definition stacks_ok :: "stacks \<Rightarrow> bool" where
  "stacks_ok S \<longleftrightarrow> distinct (live S) \<and> set (live S) \<subseteq> {..<MAX_PROCESSES} \<and> (\<forall>t \<ge> 3. S t = [])"

definition push :: "nat \<Rightarrow> nat \<Rightarrow> stacks \<Rightarrow> stacks" where
  "push t p S = S(t := p # S t)"

definition pop :: "nat \<Rightarrow> stacks \<Rightarrow> stacks" where
  "pop t S = S(t := tl (S t))"

lemma less_3_cases: "t < 3 \<Longrightarrow> t = 0 \<or> t = 1 \<or> t = (2 :: nat)"
  by auto

lemma set_live: "stacks_ok S \<Longrightarrow> p \<in> set (live S) \<longleftrightarrow> (\<exists>t. p \<in> set (S t))"
  using less_3_cases by (auto simp: live_def stacks_ok_def not_less) (metis empty_iff empty_set not_le)

lemma stacks_push:
  assumes "stacks_ok S" and "t < 3" and "p < MAX_PROCESSES" and "p \<notin> set (live S)"
  shows "stacks_ok (push t p S)" and "set (live (push t p S)) = insert p (set (live S))"
  using less_3_cases [OF assms(2)] assms by (auto simp: stacks_ok_def push_def live_def)

lemma stacks_pop:
  assumes "stacks_ok S" and "t < 3" and "S t = p # ps"
  shows "stacks_ok (pop t S)" and "set (live (pop t S)) = set (live S) - {p}"
  using less_3_cases [OF assms(2)] assms by (auto simp: stacks_ok_def pop_def live_def)

text \<open>The number of live processes; a free number exists while it is below six.\<close>

lemma free_number:
  assumes "stacks_ok S" and "length (live S) < MAX_PROCESSES"
  shows "\<exists>p < MAX_PROCESSES. p \<notin> set (live S)"
proof (rule ccontr)
  assume "\<not> ?thesis"
  then have "{..<MAX_PROCESSES} \<subseteq> set (live S)" by auto
  then have "MAX_PROCESSES \<le> card (set (live S))"
    using card_mono [of "set (live S)" "{..<MAX_PROCESSES}"] by simp
  then show False using assms by (simp add: stacks_ok_def distinct_card)
qed

lemma live_bound: "stacks_ok S \<Longrightarrow> length (live S) \<le> MAX_PROCESSES"
  using card_mono [of "{..<MAX_PROCESSES}" "set (live S)"] by (simp add: stacks_ok_def distinct_card)

subsection \<open>The table of the kernel\<close>

definition slot_loc :: "nat \<Rightarrow> u32" where
  "slot_loc p = PCB0_LOC - of_nat p * EIGHT_KB"

lemma slot_loc_list: "map slot_loc [0..<6] = [0x7FE000, 0x7FC000, 0x7FA000, 0x7F8000, 0x7F6000, 0x7F4000]"
  by (simp add: slot_loc_def upt_conv_Cons)

lemma slot_loc_nonzero: "p < 6 \<Longrightarrow> slot_loc p \<noteq> 0"
  and slot_loc_inject: "p < 6 \<Longrightarrow> q < 6 \<Longrightarrow> slot_loc p = slot_loc q \<longleftrightarrow> p = q"
proof -
  have d: "distinct (map slot_loc [0..<6])" "0 \<notin> set (map slot_loc [0..<6])"
    unfolding slot_loc_list by simp_all
  then show "p < 6 \<Longrightarrow> slot_loc p \<noteq> 0" by force
  show "p < 6 \<Longrightarrow> q < 6 \<Longrightarrow> slot_loc p = slot_loc q \<longleftrightarrow> p = q"
    using d(1) by (auto simp: distinct_map inj_on_def)
qed

text \<open>The parent pointers along a stack; the last process is its own parent.\<close>

fun chain :: "(u32 \<Rightarrow> pcb) \<Rightarrow> nat list \<Rightarrow> bool" where
  "chain P [] = True"
| "chain P [p] = (lastpcb_ptr (P (slot_loc p)) = slot_loc p)"
| "chain P (p # q # ps) = (lastpcb_ptr (P (slot_loc p)) = slot_loc q \<and> chain P (q # ps))"

lemma chain_cong:
  "(\<And>p. p \<in> set ps \<Longrightarrow> lastpcb_ptr (P (slot_loc p)) = lastpcb_ptr (Q (slot_loc p))) \<Longrightarrow>
   chain P ps = chain Q ps"
  by (induction P ps rule: chain.induct) auto

lemma chain_tl: "chain P (p # ps) \<Longrightarrow> chain P ps"
  by (cases ps) auto

definition process_table :: "'a proc_scheme \<Rightarrow> stacks \<Rightarrow> bool" where
  "process_table s S \<longleftrightarrow> stacks_ok S \<and> current_terminal s < 3 \<and>
     (\<forall>t < 3. prog_count s t = int (length (S t))) \<and>
     (\<forall>i < MAX_PROCESSES. memoryspace s i = (if i \<in> set (live S) then 1 else 0)) \<and>
     (\<forall>t < 3. \<forall>p ps. S t = p # ps \<longrightarrow> pcb_loc s t = slot_loc p) \<and>
     (\<forall>t < 3. chain (pcbs s) (S t)) \<and>
     (\<forall>p < MAX_PROCESSES. pcb_shape (pcbs s (slot_loc p)) \<and> flags_small (pcbs s (slot_loc p))) \<and>
     (\<forall>p \<in> set (live S). pid (pcbs s (slot_loc p)) = of_nat p \<and> table_ok (file_desc (pcbs s (slot_loc p))))"

text \<open>What the relation looks at.\<close>

definition same_table :: "'a proc_scheme \<Rightarrow> 'b proc_scheme \<Rightarrow> bool" where
  "same_table s s' \<longleftrightarrow> current_terminal s' = current_terminal s \<and> prog_count s' = prog_count s \<and>
     memoryspace s' = memoryspace s \<and> pcb_loc s' = pcb_loc s \<and>
     (\<forall>a. pid (pcbs s' a) = pid (pcbs s a) \<and> lastpcb_ptr (pcbs s' a) = lastpcb_ptr (pcbs s a) \<and>
       file_desc (pcbs s' a) = file_desc (pcbs s a) \<and> length (args (pcbs s' a)) = length (args (pcbs s a)))"

lemma same_table_refl: "same_table s s"
  by (simp add: same_table_def)

lemma same_table_trans: "same_table s t \<Longrightarrow> same_table t u \<Longrightarrow> same_table s u"
  by (simp add: same_table_def)

lemma process_table_same:
  assumes "process_table s S" and "same_table s s'"
  shows "process_table s' S"
proof -
  have "chain (pcbs s') ps = chain (pcbs s) ps" for ps
    using assms(2) by (intro chain_cong) (simp add: same_table_def)
  then show ?thesis
    using assms by (simp add: process_table_def same_table_def pcb_shape_def flags_small_def)
qed

lemma process_tableD:
  assumes "process_table s S"
  shows "stacks_ok S" and "current_terminal s < 3"
    and "t < 3 \<Longrightarrow> prog_count s t = int (length (S t))"
    and "total_count s = int (length (live S))"
    and "i < MAX_PROCESSES \<Longrightarrow> memoryspace s i = (if i \<in> set (live S) then 1 else 0)"
    and "t < 3 \<Longrightarrow> chain (pcbs s) (S t)"
    and "t < 3 \<Longrightarrow> S t = p # ps \<Longrightarrow> pcb_loc s t = slot_loc p"
  using assms by (simp_all add: process_table_def total_count_def live_def)

lemma current_process:
  assumes "process_table s S" and "S (current_terminal s) = p # ps"
  shows "cur_loc s = slot_loc p" and "p < MAX_PROCESSES" and "p \<in> set (live S)"
    and "pid (pcbs s (slot_loc p)) = of_nat p" and "fds_ok s" and "cur_loc s \<noteq> 0"
proof -
  note D = process_tableD [OF assms(1)]
  show p: "p \<in> set (live S)" using set_live [OF D(1)] assms(2) by (metis list.set_intros(1))
  then show p6: "p < MAX_PROCESSES" using D(1) by (auto simp: stacks_ok_def)
  show loc: "cur_loc s = slot_loc p" "pid (pcbs s (slot_loc p)) = of_nat p"
    using assms D(2) p by (simp_all add: process_table_def cur_loc_def)
  show "cur_loc s \<noteq> 0" using loc slot_loc_nonzero [OF p6] by simp
  then show "fds_ok s"
    using assms(1) p loc by (simp add: fds_ok_def fds_def process_table_def)
qed

text \<open>What a slot in use holds.\<close>

lemma slot_contents:
  assumes "process_table s S" and "p < MAX_PROCESSES" and "memoryspace s p \<noteq> 0"
  shows "pid (pcbs s (slot_loc p)) = of_nat p" and "table_ok (file_desc (pcbs s (slot_loc p)))"
    and "length (args (pcbs s (slot_loc p))) = ARG_SIZE"
proof -
  have "p \<in> set (live S)" using process_tableD(5) [OF assms(1,2)] assms(3) by (simp split: if_splits)
  then show "pid (pcbs s (slot_loc p)) = of_nat p" "table_ok (file_desc (pcbs s (slot_loc p)))"
    "length (args (pcbs s (slot_loc p))) = ARG_SIZE"
    using assms(1,2) by (simp_all add: process_table_def pcb_shape_def)
qed

subsection \<open>A new process\<close>

lemma find_slot_find: "find_slot ms is = find (\<lambda>i. ms i = 0) is"
  by (induction "is") auto

lemma find_slot_first:
  assumes "p < n" and "ms p = 0" and "\<forall>j < p. ms j \<noteq> 0"
  shows "find_slot ms [0..<n] = Some p"
  unfolding find_slot_find find_Some_iff
  using assms by (intro exI [of _ p]) simp

lemma flags_small_pcb_init: "pcb_shape g \<Longrightarrow> flags_small (pcb_init g)"
  by (simp add: flags_small_def pcb_init_fields stdio_fds_def free_fd_def)

text \<open>The new PCB, as the caller of \<open>new_process\<close> finds it.\<close>

definition fresh_pcb :: "pcb \<Rightarrow> nat \<Rightarrow> u32 \<Rightarrow> 'a machine_scheme \<Rightarrow> pcb" where
  "fresh_pcb g p parent s =
     (pcb_init g)\<lparr>pid := of_nat p, lastpcb_ptr := parent, pcb_ebp := ebp s, pcb_esp := esp s, pagedir := cr3 s\<rparr>"

lemma new_process_eq:
  assumes "process_table s S" and "pcb_shape g" and "p < MAX_PROCESSES" and "p \<notin> set (live S)"
    and "\<forall>j < p. j \<in> set (live S)"
  defines "t \<equiv> current_terminal s"
  defines "parent \<equiv> (if S t = [] then slot_loc p else pcb_loc s t)"
  shows "new_process g s = Ok (s\<lparr>prog_count := (prog_count s)(t := prog_count s t + 1),
      memoryspace := (memoryspace s)(p := 1), pcb_loc := (pcb_loc s)(t := slot_loc p),
      prev_pcb := (prev_pcb s)(t := parent),
      pcbs := (pcbs s)(slot_loc p := fresh_pcb g p parent s)\<rparr>)"
proof -
  note D = process_tableD [OF assms(1)]
  have slot: "find_slot (memoryspace s) [0..<MAX_PROCESSES] = Some p"
    using assms(3-5) D(5) by (intro find_slot_first) simp_all
  have count: "prog_count s t = 0 \<longleftrightarrow> S t = []"
    using D(2,3) by (simp add: t_def)
  have old: "pcb_shape (pcbs s (slot_loc p))" "flags_small (pcbs s (slot_loc p))"
    using assms(1,3) by (simp_all add: process_table_def)
  have copy: "copy_pcb ((pcb_init g)\<lparr>pid := of_nat p\<rparr>) (pcbs s (slot_loc p)) = (pcb_init g)\<lparr>pid := of_nat p\<rparr>"
    using pcb_init_fields(5) [OF assms(2)] flags_small_pcb_init [OF assms(2)] old
    by (intro copy_pcb_exact) (simp_all add: pcb_shape_def flags_small_def)
  have nz: "slot_loc p \<noteq> 0" by (rule slot_loc_nonzero [OF assms(3)])
  show ?thesis
    using nz
    by (simp add: new_process_def Let_def slot count copy setup_pcb_def upd_pcb_def cur_loc_def
        slot_loc_def [symmetric] t_def [symmetric] parent_def fresh_pcb_def)
qed

lemma new_process_table:
  assumes "process_table s S" and "pcb_shape g" and "p < MAX_PROCESSES" and "p \<notin> set (live S)"
    and "\<forall>j < p. j \<in> set (live S)"
  defines "t \<equiv> current_terminal s"
  shows "\<exists>s'. new_process g s = Ok s' \<and> process_table s' (push t p S) \<and>
    pcbs s' (slot_loc p) = fresh_pcb g p (if S t = [] then slot_loc p else pcb_loc s t) s \<and>
    (\<forall>a. a \<noteq> slot_loc p \<longrightarrow> pcbs s' a = pcbs s a) \<and>
    current_terminal s' = t \<and> cur_loc s' = slot_loc p \<and> boot s' = boot s \<and> data s' = data s \<and>
    tabs s' = tabs s \<and> cr0 s' = cr0 s \<and> cr3 s' = cr3 s \<and> cr4 s' = cr4 s \<and> mem s' = mem s"
proof -
  note D = process_tableD [OF assms(1)]
  define parent where "parent = (if S t = [] then slot_loc p else pcb_loc s t)"
  define s' where "s' = s\<lparr>prog_count := (prog_count s)(t := prog_count s t + 1),
      memoryspace := (memoryspace s)(p := 1), pcb_loc := (pcb_loc s)(t := slot_loc p),
      prev_pcb := (prev_pcb s)(t := parent),
      pcbs := (pcbs s)(slot_loc p := fresh_pcb g p parent s)\<rparr>"
  have t: "t < 3" using D(2) by (simp add: t_def)
  have run: "new_process g s = Ok s'"
    using new_process_eq [OF assms(1-5)] by (simp add: s'_def t_def parent_def)
  note P = stacks_push [OF D(1) t assms(3,4)]
  have other: "slot_loc q \<noteq> slot_loc p" if "q \<in> set (live S)" for q
  proof -
    have "q < MAX_PROCESSES" "q \<noteq> p" using that assms(4) D(1) by (auto simp: stacks_ok_def)
    then show ?thesis using slot_loc_inject [OF _ assms(3)] by simp
  qed
  have kept: "pcbs s' (slot_loc q) = pcbs s (slot_loc q)" if "q \<in> set (S u)" for q u
  proof -
    have "q \<in> set (live S)" using that set_live [OF D(1)] by auto
    then show ?thesis using other by (simp add: s'_def)
  qed
  have "chain (pcbs s') (S u) = chain (pcbs s) (S u)" for u
    by (rule chain_cong) (simp add: kept)
  moreover have "chain (pcbs s') (p # S t)"
  proof (cases "S t")
    case Nil
    then show ?thesis by (simp add: s'_def fresh_pcb_def parent_def)
  next
    case (Cons q qs)
    with D(6,7) [OF t] calculation [of t] show ?thesis by (simp add: s'_def fresh_pcb_def parent_def)
  qed
  ultimately have chains: "\<forall>u < 3. chain (pcbs s') (push t p S u)"
    using assms(1) by (simp add: push_def process_table_def)
  have fresh: "pcb_shape (fresh_pcb g p parent s)" "flags_small (fresh_pcb g p parent s)"
    "table_ok (file_desc (fresh_pcb g p parent s))"
    using pcb_init_fields [OF assms(2)] flags_small_pcb_init [OF assms(2)]
    by (simp_all add: fresh_pcb_def pcb_shape_def flags_small_def stdio_ok)
  have "process_table s' (push t p S)"
    unfolding process_table_def
  proof (intro conjI)
    show "\<forall>q < MAX_PROCESSES. pcb_shape (pcbs s' (slot_loc q)) \<and> flags_small (pcbs s' (slot_loc q))"
      using assms(1) fresh by (simp add: s'_def process_table_def)
    show "\<forall>q \<in> set (live (push t p S)). pid (pcbs s' (slot_loc q)) = of_nat q \<and>
        table_ok (file_desc (pcbs s' (slot_loc q)))"
    proof
      fix q
      assume "q \<in> set (live (push t p S))"
      then consider "q = p" | "q \<in> set (live S)" using P(2) by auto
      then show "pid (pcbs s' (slot_loc q)) = of_nat q \<and> table_ok (file_desc (pcbs s' (slot_loc q)))"
      proof cases
        case 1
        then show ?thesis using fresh(3) by (simp add: s'_def) (simp add: fresh_pcb_def)
      next
        case 2
        then show ?thesis using assms(1) other [OF 2] by (simp add: s'_def process_table_def)
      qed
    qed
    show "\<forall>i < MAX_PROCESSES. memoryspace s' i = (if i \<in> set (live (push t p S)) then 1 else 0)"
      using D(5) P(2) by (simp add: s'_def)
    show "\<forall>u < 3. prog_count s' u = int (length (push t p S u))"
      using D(3) by (simp add: s'_def push_def)
    show "\<forall>u < 3. \<forall>q qs. push t p S u = q # qs \<longrightarrow> pcb_loc s' u = slot_loc q"
      using assms(1) by (simp add: s'_def push_def process_table_def)
    show "current_terminal s' < 3" using t by (simp add: s'_def t_def)
  qed (use P chains in auto)
  then show ?thesis
    using run by (intro exI [of _ s']) (simp add: s'_def t_def parent_def cur_loc_def)
qed

subsection \<open>The rest of \<open>execute\<close>\<close>

lemma upd_pcb_same_table:
  assumes "upd_pcb a f s = Ok s'"
    and "\<And>p. pid (f p) = pid p \<and> lastpcb_ptr (f p) = lastpcb_ptr p \<and> file_desc (f p) = file_desc p \<and>
      length (args (f p)) = length (args p)"
  shows "same_table s s'"
  using assms by (auto simp: upd_pcb_def same_table_def split: if_splits)

lemma more_same_table: "machine.more s' = machine.more s \<Longrightarrow> same_table s s'"
  by (cases s; cases s'; simp add: same_table_def)

lemma same_procs_table: "same_procs s s' \<Longrightarrow> same_table s s'"
  unfolding same_procs_def by (rule more_same_table) (metis machine.select_convs(11) machine.surjective machine.update_convs(1))

text \<open>What the current process keeps while its start is completed.\<close>

definition same_return :: "'a proc_scheme \<Rightarrow> 'a proc_scheme \<Rightarrow> bool" where
  "same_return s s' \<longleftrightarrow> same_table s s' \<and>
     (\<forall>a. pcb_ebp (pcbs s' a) = pcb_ebp (pcbs s a) \<and> pcb_esp (pcbs s' a) = pcb_esp (pcbs s a) \<and>
       pagedir (pcbs s' a) = pagedir (pcbs s a))"

lemma same_return_refl: "same_return s s"
  by (simp add: same_return_def same_table_def)

lemma same_return_trans: "same_return s t \<Longrightarrow> same_return t u \<Longrightarrow> same_return s u"
  by (simp add: same_return_def same_table_def)

lemma more_same_return: "machine.more s' = machine.more s \<Longrightarrow> same_return s s'"
  using more_same_table [of s' s] by (cases s; cases s'; simp add: same_return_def)

lemma upd_pcb_same_return:
  assumes "upd_pcb a f s = Ok s'"
    and "\<And>p. pid (f p) = pid p \<and> lastpcb_ptr (f p) = lastpcb_ptr p \<and> file_desc (f p) = file_desc p \<and>
      length (args (f p)) = length (args p) \<and> pcb_ebp (f p) = pcb_ebp p \<and> pcb_esp (f p) = pcb_esp p \<and>
      pagedir (f p) = pagedir p"
  shows "same_return s s'"
  using assms by (auto simp: upd_pcb_def same_return_def same_table_def split: if_splits)

text \<open>The address spaces: the tables, the control registers and the directories that the PCBs name.\<close>

definition same_spaces :: "'a proc_scheme \<Rightarrow> 'b proc_scheme \<Rightarrow> bool" where
  "same_spaces s s' \<longleftrightarrow> tabs s' = tabs s \<and> cr0 s' = cr0 s \<and> cr3 s' = cr3 s \<and> cr4 s' = cr4 s \<and>
     (\<forall>a. pagedir (pcbs s' a) = pagedir (pcbs s a) \<and> curr_pd (pcbs s' a) = curr_pd (pcbs s a))"

lemma same_spaces_refl: "same_spaces s s"
  by (simp add: same_spaces_def)

lemma same_spaces_trans: "same_spaces s t \<Longrightarrow> same_spaces t u \<Longrightarrow> same_spaces s u"
  by (simp add: same_spaces_def)

lemma save_args_same_return:
  "save_args command nl i s = Ok s' \<Longrightarrow> same_return s s' \<and> same_spaces s s'"
proof (induction command nl i s arbitrary: s' rule: save_args.induct)
  case (1 command nl i s)
  show ?case
  proof (cases "\<exists>c. i < BUFFASIZE \<and> command i = Ok c \<and> c \<noteq> 0")
    case True
    then obtain c t where c: "command i = Ok c" "c \<noteq> 0" "i < BUFFASIZE"
      and t: "upd_pcb (cur_loc s) (\<lambda>p. p\<lparr>args := (args p)[i - nl - 1 := c]\<rparr>) s = Ok t"
        "save_args command nl (Suc i) t = Ok s'"
      using 1(2) by (subst (asm) save_args.simps) (auto simp: bindE_eq_Ok)
    have "same_return s t" using t(1) by (rule upd_pcb_same_return) simp
    moreover have "same_spaces s t" using t(1) by (auto simp: upd_pcb_def same_spaces_def split: if_splits)
    moreover have "same_return t s' \<and> same_spaces t s'"
      using 1(1) [OF c(3,2) t(2)] .
    ultimately show ?thesis using same_return_trans same_spaces_trans by metis
  next
    case False
    then have "s' = s" using 1(2) by (subst (asm) save_args.simps) (auto simp: bindE_eq_Ok split: if_splits)
    then show ?thesis by (simp add: same_return_refl same_spaces_refl)
  qed
qed

lemma ptr_wr_same_procs: "ptr_wr p i v s = Ok s' \<Longrightarrow> same_procs s s'"
  by (auto simp: ptr_wr_def st_def same_procs_def split: option.splits)

lemma same_procs_trans: "same_procs s t \<Longrightarrow> same_procs t u \<Longrightarrow> same_procs s u"
  unfolding same_procs_def by (cases s; cases t; cases u) simp

lemma read_loop_same_procs:
  "read_loop img (ptr_wr p) bt dt ino mb fl left pos k s = Ok (n, s') \<Longrightarrow> same_procs s s'"
proof (induction left arbitrary: pos k s)
  case (Suc left)
  show ?case
  proof (cases "s' = s")
    case False
    then obtain v t where "ptr_wr p k v s = Ok t"
      "read_loop img (ptr_wr p) bt dt ino mb fl left (pos + 1) (Suc k) t = Ok (n, s')"
      using Suc.prems by (auto simp: Let_def bindE_eq_Ok split: if_splits)
    then show ?thesis by (rule same_procs_trans [OF ptr_wr_same_procs Suc.IH])
  qed (simp add: same_procs_refl)
qed (simp add: same_procs_refl)

lemma read_data_same_procs:
  "read_data img (ptr_wr p) null bt dt ino off len s = Ok (n, s') \<Longrightarrow> same_procs s s'"
  using read_loop_same_procs
  by (auto simp: read_data_def Let_def bindE_eq_Ok same_procs_refl split: if_splits)

lemma progs_init_more [simp]: "machine.more (progs_init L i s) = machine.more s"
  by (simp add: progs_init_def prog1_init_def prog2_init_def prog3_init_def prog4_init_def
      prog5_init_def prog6_init_def frame_simps)

lemma same_procs_more: "same_procs s s' \<Longrightarrow> machine.more s' = machine.more s"
  unfolding same_procs_def by (metis machine.select_convs(11) machine.surjective machine.update_convs(1))

lemma load_program_more: "load_program L ino s = Ok s' \<Longrightarrow> machine.more s' = machine.more s"
  by (auto simp: load_program_def Let_def bindE_eq_Ok dest!: read_data_same_procs same_procs_more)

definition kernel_stack :: "u32 \<Rightarrow> u32" where
  "kernel_stack p = 0x00800000 - (p + 1) * MAX_STACK"

lemma enter_program_eq:
  assumes "cur_loc s \<noteq> 0"
  defines "kern \<equiv> kernel_stack (pid (pcbs s (cur_loc s)))"
  shows "enter_program s = Ok (s\<lparr>tss_ss0 := KERNEL_DS, tss_esp0 := kern,
     pcbs := (pcbs s)(cur_loc s := (pcbs s (cur_loc s))\<lparr>curr_pd := cr3 s, curr_esp := kern,
       curr_ebp := kern, term_num := of_nat (current_terminal s)\<rparr>),
     eflags := (eflags s AND NOT IF_MASK) OR 0x200, esp := STACKBOT\<rparr>)"
  using assms(1)
  by (simp add: enter_program_def Let_def cur_pcb_def get_pcb_def upd_pcb_def cur_loc_def cli_def
      kern_def kernel_stack_def)

lemma enter_program_same_return: "cur_loc s \<noteq> 0 \<Longrightarrow> enter_program s = Ok s' \<Longrightarrow> same_return s s'"
  by (auto simp: enter_program_eq same_return_def same_table_def)

subsection \<open>Starting a process\<close>

lemma least_free:
  assumes "stacks_ok S" and "length (live S) < MAX_PROCESSES"
  obtains p where "p < MAX_PROCESSES" and "p \<notin> set (live S)" and "\<forall>j < p. j \<in> set (live S)"
proof -
  let ?P = "\<lambda>p. p < MAX_PROCESSES \<and> p \<notin> set (live S)"
  obtain q where q: "?P q" using free_number [OF assms] by blast
  have "?P (LEAST p. ?P p)" using q by (rule LeastI)
  moreover have "j \<in> set (live S)" if "j < (LEAST p. ?P p)" for j
    using not_less_Least [OF that] that calculation by auto
  ultimately show thesis using that by blast
qed

text \<open>The states that a successful \<open>execute\<close> runs through.\<close>

lemma execute_stages:
  assumes "process_table s S" and "frame_ok f" and "execute L f command s = Ok (Enters e, s')"
  obtains p d nl s1 s2 s3 where "p < MAX_PROCESSES" and "p \<notin> set (live S)" and "\<forall>j < p. j \<in> set (live S)"
    and "new_process (frame_pcb f) s = Ok s1"
    and "save_args (\<lambda>i. ptr_rd command i s1) nl (nl + 1) s1 = Ok s2"
    and "load_program L (dentry_inode d) s2 = Ok s3" and "enter_program s3 = Ok s'"
    and "process_table s1 (push (current_terminal s) p S)"
    and "pcbs s1 (slot_loc p) = fresh_pcb (frame_pcb f) p
      (if S (current_terminal s) = [] then slot_loc p else pcb_loc s (current_terminal s)) s"
    and "\<forall>a. a \<noteq> slot_loc p \<longrightarrow> pcbs s1 a = pcbs s a" and "current_terminal s1 = current_terminal s"
    and "tabs s1 = tabs s" and "cr0 s1 = cr0 s" and "cr4 s1 = cr4 s"
    and "same_return s1 s3" and "same_spaces s1 s2" and "cur_loc s2 = slot_loc p" and "cur_loc s3 = slot_loc p"
proof -
  note D = process_tableD [OF assms(1)]
  have "total_count s < int MAX_PROCESSES"
    using assms(3) by (auto simp: execute_def split: if_splits)
  then have "length (live S) < MAX_PROCESSES" using D(4) by simp
  then obtain p where p: "p < MAX_PROCESSES" "p \<notin> set (live S)" "\<forall>j < p. j \<in> set (live S)"
    using least_free [OF D(1)] by blast
  obtain d nl s1 s2 s3 where run: "new_process (frame_pcb f) s = Ok s1"
    "save_args (\<lambda>i. ptr_rd command i s1) nl (nl + 1) s1 = Ok s2"
    "load_program L (dentry_inode d) s2 = Ok s3" "enter_program s3 = Ok s'"
    using assms(3) by (auto simp: execute_def bindE_eq_Ok split: if_splits option.splits prod.splits)
  have g: "pcb_shape (frame_pcb f)" using assms(2) by (simp add: frame_ok_def)
  obtain u where u: "new_process (frame_pcb f) s = Ok u"
    "process_table u (push (current_terminal s) p S)"
    "pcbs u (slot_loc p) = fresh_pcb (frame_pcb f) p
      (if S (current_terminal s) = [] then slot_loc p else pcb_loc s (current_terminal s)) s"
    "\<forall>a. a \<noteq> slot_loc p \<longrightarrow> pcbs u a = pcbs s a" "current_terminal u = current_terminal s"
    "cur_loc u = slot_loc p" "tabs u = tabs s" "cr0 u = cr0 s" "cr4 u = cr4 s"
    using new_process_table [OF assms(1) g p] by blast
  have "u = s1" using run(1) u(1) by simp
  note s1 = u(2-9) [unfolded this]
  have r: "same_return s1 s2" "same_spaces s1 s2" using save_args_same_return [OF run(2)] by simp_all
  moreover have "same_return s2 s3" using load_program_more [OF run(3)] by (rule more_same_return)
  ultimately have r3: "same_return s1 s3" by (metis same_return_trans)
  have "cur_loc s2 = slot_loc p" "cur_loc s3 = slot_loc p"
    using r(1) r3 s1(5) by (simp_all add: same_return_def same_table_def cur_loc_def)
  then show thesis
    using that [OF p run s1(1-4) s1(6-8) r3 r(2)] by blast
qed

text \<open>
  A successful \<open>execute\<close> pushes the lowest free number, and the new PCB remembers the registers
  of the caller and its PCB.
\<close>

lemma execute_pushes:
  assumes "process_table s S" and "frame_ok f" and "execute L f command s = Ok (Enters e, s')"
  defines "t \<equiv> current_terminal s"
  obtains p where "p < MAX_PROCESSES" and "p \<notin> set (live S)" and "\<forall>j < p. j \<in> set (live S)"
    and "process_table s' (push t p S)" and "current_terminal s' = t"
    and "pcb_ebp (pcbs s' (slot_loc p)) = ebp s" and "pcb_esp (pcbs s' (slot_loc p)) = esp s"
    and "pagedir (pcbs s' (slot_loc p)) = cr3 s"
proof -
  obtain p s1 s3 where p: "p < MAX_PROCESSES" "p \<notin> set (live S)" "\<forall>j < p. j \<in> set (live S)"
    and s1: "process_table s1 (push t p S)" "current_terminal s1 = t"
      "pcbs s1 (slot_loc p) = fresh_pcb (frame_pcb f) p (if S t = [] then slot_loc p else pcb_loc s t) s"
    and s3: "same_return s1 s3" "cur_loc s3 = slot_loc p" "enter_program s3 = Ok s'"
    using execute_stages [OF assms(1-3)] unfolding t_def by metis
  have "same_return s3 s'"
    using slot_loc_nonzero [OF p(1)] by (intro enter_program_same_return [OF _ s3(3)]) (simp add: s3(2))
  with s3(1) have r: "same_return s1 s'" by (rule same_return_trans)
  have "same_table s1 s'" using r by (simp add: same_return_def)
  then have "process_table s' (push t p S)" "current_terminal s' = t"
    using process_table_same [OF s1(1)] s1(2) by (simp_all add: same_table_def)
  moreover have "pcb_ebp (pcbs s' (slot_loc p)) = ebp s" "pcb_esp (pcbs s' (slot_loc p)) = esp s"
    "pagedir (pcbs s' (slot_loc p)) = cr3 s"
    using r s1(3) by (simp_all add: same_return_def fresh_pcb_def)
  ultimately show thesis using that p by blast
qed

text \<open>An \<open>execute\<close> that returns leaves the table alone.\<close>

lemma execute_returns:
  assumes "execute L f command s = Ok (Returns r, s')"
  shows "r = -1 \<and> s' = s \<or> r = 0 \<and> quiet s' = quiet s \<and> int MAX_PROCESSES \<le> total_count s"
  using assms by (auto simp: execute_def bindE_eq_Ok split: if_splits option.splits prod.splits)

lemma quiet_same_table: "quiet s' = quiet s \<Longrightarrow> same_table s s'"
  using quiet_eqD(12,13) [of s' s] by (cases s; cases s'; simp add: same_table_def)

subsection \<open>Ending a process\<close>

definition closed_fds :: "'a proc_scheme \<Rightarrow> fd_entry list" where
  "closed_fds s = take 2 (fds s) @ replicate 6 free_fd"

lemma close_loop:
  assumes "fds_ok s"
  shows "for_loopE 2 FOPS_NUM (\<lambda>i s. bindE (sys_close (int i) s) (\<lambda>(_, s). Ok s)) s =
      Ok (s\<lparr>pcbs := (pcbs s)(cur_loc s := (pcbs s (cur_loc s))\<lparr>file_desc := closed_fds s\<rparr>)\<rparr>)"
    and "table_ok (closed_fds s)"
proof -
  define s' where "s' = for_loop 2 FOPS_NUM (\<lambda>i. put_fd i free_fd) s"
  have run: "for_loopE 2 FOPS_NUM (\<lambda>i s. bindE (sys_close (int i) s) (\<lambda>(_, s). Ok s)) s = Ok s'"
    and ok: "fds_ok s'"
    using close_all [OF assms] by (auto simp: s'_def)
  have F: "fds s' = closed_fds s"
    using fd.tab_free_all [of 2 FOPS_NUM s] fds_okD(2) [OF assms] by (simp add: s'_def closed_fds_def)
  define P where "P t \<longleftrightarrow> (\<exists>F. t = s\<lparr>pcbs := (pcbs s)(cur_loc s := (pcbs s (cur_loc s))\<lparr>file_desc := F\<rparr>)\<rparr>)" for t
  have "P s'"
    unfolding s'_def
  proof (rule for_loop_preserves)
    have "s = s\<lparr>pcbs := (pcbs s)(cur_loc s := (pcbs s (cur_loc s))\<lparr>file_desc := fds s\<rparr>)\<rparr>"
      by (simp add: fds_def)
    then show "P s" unfolding P_def by (rule exI)
  next
    fix i t
    assume "P t"
    then obtain F where "t = s\<lparr>pcbs := (pcbs s)(cur_loc s := (pcbs s (cur_loc s))\<lparr>file_desc := F\<rparr>)\<rparr>"
      unfolding P_def by blast
    then have "put_fd i free_fd t =
        s\<lparr>pcbs := (pcbs s)(cur_loc s := (pcbs s (cur_loc s))\<lparr>file_desc := F[i := free_fd]\<rparr>)\<rparr>"
      by (simp add: put_fd_def cur_loc_def)
    then show "P (put_fd i free_fd t)" unfolding P_def by (rule exI)
  qed
  then have "s' = s\<lparr>pcbs := (pcbs s)(cur_loc s := (pcbs s (cur_loc s))\<lparr>file_desc := fds s'\<rparr>)\<rparr>"
    by (auto simp: P_def fds_def cur_loc_def)
  then show "for_loopE 2 FOPS_NUM (\<lambda>i s. bindE (sys_close (int i) s) (\<lambda>(_, s). Ok s)) s =
      Ok (s\<lparr>pcbs := (pcbs s)(cur_loc s := (pcbs s (cur_loc s))\<lparr>file_desc := closed_fds s\<rparr>)\<rparr>)"
    using run F by simp
  show "table_ok (closed_fds s)" using fds_okD(3) [OF ok] F by simp
qed

text \<open>The parent of the current process, which is the process itself at the end of a stack.\<close>

lemma parent_loc:
  assumes "process_table s S" and "S (current_terminal s) = p # ps"
  shows "lastpcb_ptr (pcbs s (slot_loc p)) = slot_loc (if ps = [] then p else hd ps)"
    and "lastpcb_ptr (pcbs s (slot_loc p)) \<noteq> 0"
proof -
  note D = process_tableD [OF assms(1)]
  show l: "lastpcb_ptr (pcbs s (slot_loc p)) = slot_loc (if ps = [] then p else hd ps)"
    using D(6) [OF D(2)] assms(2) by (cases ps) auto
  have "(if ps = [] then p else hd ps) \<in> set (S (current_terminal s))" using assms(2) by simp
  then have "(if ps = [] then p else hd ps) \<in> set (live S)" using set_live [OF D(1)] by blast
  then have "(if ps = [] then p else hd ps) < MAX_PROCESSES" using D(1) by (auto simp: stacks_ok_def)
  then show "lastpcb_ptr (pcbs s (slot_loc p)) \<noteq> 0" unfolding l by (rule slot_loc_nonzero)
qed

lemma halt_run:
  assumes "fds_ok s" and "unat (pid (pcbs s (cur_loc s))) < MAX_PROCESSES"
    and "lastpcb_ptr (pcbs s (cur_loc s)) \<noteq> 0"
  defines "t \<equiv> current_terminal s" and "q \<equiv> pcbs s (cur_loc s)"
  shows "halt c s = Ok (s\<lparr>pcbs := (pcbs s)(cur_loc s := q\<lparr>file_desc := closed_fds s, status := c\<rparr>),
      prog_count := (prog_count s)(t := prog_count s t - 1),
      memoryspace := (memoryspace s)(unat (pid q) := 0),
      tss_ss0 := KERNEL_DS, tss_esp0 := kernel_stack (pid (pcbs s (lastpcb_ptr q))),
      ebp := pcb_ebp q, esp := pcb_esp q, cr3 := pagedir q\<rparr>)"
proof -
  have "pcb_loc s (current_terminal s) \<noteq> 0" using fds_okD(1) [OF assms(1)] by (simp add: cur_loc_def)
  then show ?thesis
    using assms(2,3) unfolding halt_def close_loop(1) [OF assms(1)] bindE_simps
    by (simp add: Let_def cur_pcb_def get_pcb_def upd_pcb_def free_slot_def cur_loc_def t_def q_def
        kernel_stack_def)
qed

lemma halt_pops:
  assumes "process_table s S" and "S (current_terminal s) = p # ps"
  defines "t \<equiv> current_terminal s" and "q \<equiv> pcbs s (slot_loc p)"
  shows "\<exists>s1 s2. halt c s = Ok s1 \<and> halt_ret s1 = Ok (if sint c > 0 then 0 else sint c, s2) \<and>
    process_table s2 (pop t S) \<and> current_terminal s2 = t \<and>
    ebp s2 = pcb_ebp q \<and> esp s2 = pcb_esp q \<and> cr3 s2 = pagedir q"
proof -
  note C = current_process [OF assms(1,2)]
  note D = process_tableD [OF assms(1)]
  note parent = parent_loc [OF assms(1,2)]
  have t: "t < 3" "S t = p # ps" using D(2) assms(2) by (simp_all add: t_def)
  have count: "prog_count s t = 1 + int (length ps)" using D(3) [OF t(1)] t(2) by simp
  define s1 where "s1 = s\<lparr>pcbs := (pcbs s)(slot_loc p := q\<lparr>file_desc := closed_fds s, status := c\<rparr>),
      prog_count := (prog_count s)(t := prog_count s t - 1), memoryspace := (memoryspace s)(p := 0),
      tss_ss0 := KERNEL_DS, tss_esp0 := kernel_stack (pid (pcbs s (lastpcb_ptr q))),
      ebp := pcb_ebp q, esp := pcb_esp q, cr3 := pagedir q\<rparr>"
  have "unat (of_nat p :: u32) = p" using C(2) by (simp add: unat_of_nat_u32)
  then have run: "halt c s = Ok s1"
    using halt_run [OF C(5)] C(1,2,4) parent(2) by (simp add: s1_def t_def q_def)
  define s2 where "s2 = s1\<lparr>pcb_loc := (pcb_loc s)(t := if ps = [] then slot_loc p else slot_loc (hd ps))\<rparr>"
  have loc: "pcb_loc s t = slot_loc p" using C(1) by (simp add: cur_loc_def t_def)
  have view: "pcb_loc s1 = pcb_loc s" "current_terminal s1 = t" "prog_count s1 t = int (length ps)"
    "pcbs s1 (slot_loc p) = q\<lparr>file_desc := closed_fds s, status := c\<rparr>"
    using count by (simp_all add: s1_def t_def)
  have "halt_ret s1 = Ok (if sint c > 0 then 0 else sint c, s2)"
  proof (cases ps)
    case Nil
    then have "s2 = s1" using loc by (simp add: s2_def view(1) [symmetric] fun_upd_idem)
    then show ?thesis
      using Nil loc view slot_loc_nonzero [OF C(2)]
      by (simp add: halt_ret_def cur_pcb_def get_pcb_def cur_loc_def Let_def)
  next
    case (Cons r rs)
    then show ?thesis
      using loc view slot_loc_nonzero [OF C(2)] parent(1)
      by (simp add: halt_ret_def cur_pcb_def get_pcb_def cur_loc_def Let_def s2_def q_def)
  qed
  moreover have "process_table s2 (pop t S)"
  proof -
    note P = stacks_pop [OF D(1) t]
    have pcbs: "pcbs s2 = (pcbs s)(slot_loc p := q\<lparr>file_desc := closed_fds s, status := c\<rparr>)"
      by (simp add: s2_def s1_def)
    have keep: "pid (pcbs s2 a) = pid (pcbs s a)" "lastpcb_ptr (pcbs s2 a) = lastpcb_ptr (pcbs s a)"
      "args (pcbs s2 a) = args (pcbs s a)" for a
      by (simp_all add: pcbs q_def)
    have files: "file_desc (pcbs s2 a) = (if a = slot_loc p then closed_fds s else file_desc (pcbs s a))" for a
      by (simp add: pcbs)
    have closed: "table_ok (closed_fds s)" by (rule close_loop(2) [OF C(5)])
    then have small: "length (closed_fds s) = FOPS_NUM" "\<forall>e \<in> set (closed_fds s). flags e AND 0xFFFF0000 = 0"
      by (auto simp: table_ok_def list_all_iff fd_ok_def free_fd_def)
    have chains: "chain (pcbs s2) ls = chain (pcbs s) ls" for ls
      by (rule chain_cong) (rule keep(2))
    have pops: "pop t S u = (if u = t then ps else S u)" for u
      using t(2) by (simp add: pop_def)
    show ?thesis
      unfolding process_table_def
    proof (intro conjI)
      show "\<forall>u < 3. chain (pcbs s2) (pop t S u)"
        using D(6) t chain_tl [of "pcbs s" p ps] by (auto simp: chains pops dest: D(6))
      show "\<forall>r < MAX_PROCESSES. pcb_shape (pcbs s2 (slot_loc r)) \<and> flags_small (pcbs s2 (slot_loc r))"
        using assms(1) small by (simp add: process_table_def pcb_shape_def flags_small_def keep files)
      show "\<forall>r \<in> set (live (pop t S)). pid (pcbs s2 (slot_loc r)) = of_nat r \<and>
          table_ok (file_desc (pcbs s2 (slot_loc r)))"
        using assms(1) closed P(2) by (simp add: process_table_def keep files)
      show "\<forall>i < MAX_PROCESSES. memoryspace s2 i = (if i \<in> set (live (pop t S)) then 1 else 0)"
        using D(5) P(2) by (simp add: s2_def s1_def)
      show "\<forall>u < 3. prog_count s2 u = int (length (pop t S u))"
        using D(3) count by (simp add: s2_def s1_def pops)
      show "\<forall>u < 3. \<forall>r rs. pop t S u = r # rs \<longrightarrow> pcb_loc s2 u = slot_loc r"
        using D(7) by (auto simp: s2_def pops)
      show "current_terminal s2 < 3" using t by (simp add: s2_def s1_def t_def)
    qed (rule P(1))
  qed
  moreover have "current_terminal s2 = t" "ebp s2 = pcb_ebp q" "esp s2 = pcb_esp q" "cr3 s2 = pagedir q"
    by (simp_all add: s2_def s1_def t_def)
  ultimately show ?thesis using run by blast
qed

text \<open>
  From \<open>execute\<close> to \<open>halt\<close>: the caller's registers come back, and the table is the one
  before.
\<close>

lemma pop_push: "pop t (push t p S) = S"
  by (simp add: pop_def push_def)

lemma execute_halt:
  assumes "process_table s S" and "frame_ok f" and "execute L f command s = Ok (Enters e, s')"
    and "same_return s' u"
  shows "\<exists>u1 u2. halt c u = Ok u1 \<and> halt_ret u1 = Ok (if sint c > 0 then 0 else sint c, u2) \<and>
    process_table u2 S \<and> current_terminal u2 = current_terminal s \<and>
    ebp u2 = ebp s \<and> esp u2 = esp s \<and> cr3 u2 = cr3 s"
proof -
  let ?t = "current_terminal s"
  obtain p where p: "process_table s' (push ?t p S)" "current_terminal s' = ?t"
    "pcb_ebp (pcbs s' (slot_loc p)) = ebp s" "pcb_esp (pcbs s' (slot_loc p)) = esp s"
    "pagedir (pcbs s' (slot_loc p)) = cr3 s"
    using execute_pushes [OF assms(1-3)] by metis
  have same: "same_table s' u" "pcb_ebp (pcbs u a) = pcb_ebp (pcbs s' a)"
    "pcb_esp (pcbs u a) = pcb_esp (pcbs s' a)" "pagedir (pcbs u a) = pagedir (pcbs s' a)" for a
    using assms(4) by (simp_all add: same_return_def)
  have table: "process_table u (push ?t p S)" and t: "current_terminal u = ?t"
    using process_table_same [OF p(1) same(1)] same(1) p(2) by (simp_all add: same_table_def)
  have "push ?t p S (current_terminal u) = p # S ?t" by (simp add: t push_def)
  from halt_pops [OF table this, of c] show ?thesis
    by (simp add: t pop_push same(2-4) p(3-5))
qed

end
