(* ===== verification/Line_Discipline.thy ===== *)
theory Line_Discipline
  imports Keyboard
begin

text \<open>
  What the keyboard handler does to the line buffers, against an abstract line editor: the line
  is a list of characters, a key appends one, backspace drops the last, enter ends the line. The
  editor does not know about the screen; the first part shows that printing does not touch the
  state the editor is about.
\<close>

subsection \<open>Printing and the driver's state\<close>

text \<open>How many scan codes have been read from the keyboard.\<close>

fun is_kb_read :: "io_event \<Rightarrow> bool" where
  "is_kb_read (In w p v) = (p = KB_ENCODER)"
| "is_kb_read (Out w p v) = False"

definition kb_reads :: "'a machine_scheme \<Rightarrow> nat" where
  "kb_reads s = length (filter is_kb_read (io_log s))"

definition kbd_view where
  "kbd_view s = (current_terminal s, functionflags s, enter_flag s, read_flag s, keyboardbuffer s,
     bufferindex s, writebuffer s, writeindex s, dev s, kb_reads s, (tabs s, cr0 s, cr3 s, cr4 s))"

lemma quiet_view: "quiet s = quiet t \<Longrightarrow> kbd_view s = kbd_view t"
  by (cases s; cases t; simp add: quiet_def kbd_view_def kb_reads_def)

lemma quiet_clearline [simp]: "quiet (clearline x y s) = quiet s"
  unfolding clearline_def
  by (rule for_loop_preserves [where P = "\<lambda>t. quiet t = quiet s"]) (simp_all add: Let_def)

lemma quiet_scroll [simp]: "quiet (scroll t s) = quiet s"
  by (simp add: scroll_mem)

lemmas view_quiet [simp] = quiet_view [OF quiet_putc] quiet_view [OF quiet_term_putc]
  quiet_view [OF quiet_setcoords] quiet_view [OF quiet_clearline] quiet_view [OF quiet_scroll]
  quiet_view [OF quiet_clear]

lemma view_eoi [simp]: "kbd_view (send_eoi n s) = kbd_view s"
  by (simp add: kbd_view_def kb_reads_def send_eoi_def outb_def port_out_def)

lemma view_eqD:
  assumes "kbd_view s = kbd_view t"
  shows "current_terminal s = current_terminal t" "functionflags s = functionflags t"
    "enter_flag s = enter_flag t" "read_flag s = read_flag t" "keyboardbuffer s = keyboardbuffer t"
    "bufferindex s = bufferindex t" "writebuffer s = writebuffer t" "writeindex s = writeindex t"
    "dev s = dev t" "kb_reads s = kb_reads t" "tabs s = tabs t" "cr0 s = cr0 t" "cr3 s = cr3 t"
    "cr4 s = cr4 t"
  using assms by (simp_all add: kbd_view_def)

lemma view_translate: "kbd_view s = kbd_view t \<Longrightarrow> translate s = translate t"
  using view_eqD(11-14) [of s t] by (intro ext) (simp add: translate_def)

text \<open>Columns stay at most 128, which is all that the output buffer needs.\<close>

definition columns_ok :: "'a console_scheme \<Rightarrow> bool" where
  "columns_ok s \<longleftrightarrow> (\<forall>t. screen_x s t \<le> 128)"

lemma smod_column: "(x :: int) smod NUM_COLS \<le> 128"
proof -
  have "x mod NUM_COLS < NUM_COLS" "0 \<le> - x mod NUM_COLS" by simp_all
  then have "x mod NUM_COLS \<le> 128" "- (- x mod NUM_COLS) \<le> 128" by linarith+
  then show ?thesis by (simp add: signed_modulo_int_def signed_divide_int_def sgn_if)
qed

lemma columns_ops [simp]:
  "columns_ok s \<Longrightarrow> columns_ok (putc c s)" "columns_ok s \<Longrightarrow> columns_ok (term_putc c s)"
  "columns_ok s \<Longrightarrow> x \<le> 128 \<Longrightarrow> columns_ok (setcoords x y t s)"
  "columns_ok s \<Longrightarrow> columns_ok (scroll t s)" "columns_ok s \<Longrightarrow> columns_ok (clear s)"
  "columns_ok s \<Longrightarrow> columns_ok (send_eoi n s)"
  using smod_column
  by (simp_all add: columns_ok_def putc_def term_putc_def Let_def send_eoi_def outb_def port_out_def)

lemma columns_clearline [simp]: "columns_ok s \<Longrightarrow> columns_ok (clearline x y s)"
  unfolding clearline_def
  by (rule for_loop_preserves [where P = columns_ok]) (simp_all add: Let_def columns_ok_def)

subsection \<open>The invariant of the driver\<close>

definition kbd_ok :: "'a kbd_scheme \<Rightarrow> bool" where
  "kbd_ok s \<longleftrightarrow> columns_ok s \<and>
     (\<forall>t. length (keyboardbuffer s t) = BUFFERSIZE \<and> length (writebuffer s t) = BUFFERSIZE \<and>
       0 \<le> bufferindex s t \<and> bufferindex s t \<le> int BUFFERSIZE \<and> writeindex s t \<le> 128 \<and>
       (\<forall>i. functionflags s t i \<in> {OFF, ON}))"

definition line :: "nat \<Rightarrow> 'a kbd_scheme \<Rightarrow> u8 list" where
  "line t s = take (nat (bufferindex s t)) (keyboardbuffer s t)"

lemma view_line: "kbd_view s = kbd_view s' \<Longrightarrow> line t s = line t s'"
  using view_eqD(5,6) [of s s'] by (simp add: line_def)

lemma view_kbd_ok: "kbd_view s' = kbd_view s \<Longrightarrow> columns_ok s' \<Longrightarrow> kbd_ok s \<Longrightarrow> kbd_ok s'"
  using view_eqD [of s' s] by (simp add: kbd_ok_def)

text \<open>A loop whose body prints keeps the view.\<close>

lemma view_loop:
  assumes "columns_ok s" and "a \<le> b"
    and "\<And>i t. a \<le> i \<Longrightarrow> i < b \<Longrightarrow> kbd_view t = kbd_view s \<Longrightarrow> columns_ok t \<Longrightarrow>
      \<exists>t'. f i t = Ok t' \<and> kbd_view t' = kbd_view s \<and> columns_ok t'"
  shows "\<exists>t. for_loopE a b f s = Ok t \<and> kbd_view t = kbd_view s \<and> columns_ok t"
  by (rule for_loopE_induct [where P = "\<lambda>_ t. kbd_view t = kbd_view s \<and> columns_ok t"])
    (use assms in auto)

text \<open>Echoing and reprinting, for indices inside the buffer.\<close>

lemma kb_get_ok: "i < length (keyboardbuffer s t) \<Longrightarrow> kb_get t (int i) s = Ok (keyboardbuffer s t ! i)"
  by (simp add: kb_get_def)

lemma getxcoord_le: "columns_ok s \<Longrightarrow> getxcoord t s \<le> 128"
  by (simp add: getxcoord_def columns_ok_def)

lemma echo_view:
  assumes "columns_ok s" and "i < length (keyboardbuffer s t)"
  shows "\<exists>s'. echo t i s = Ok s' \<and> kbd_view s' = kbd_view s \<and> columns_ok s'"
proof -
  define s1 where "s1 = (if int i \<ge> NUM_COLS - writeindex s t
    then setcoords (getxcoord t s) (getycoord t s + 1) t s else s)"
  have s1: "kbd_view s1 = kbd_view s" "columns_ok s1"
    using assms(1) getxcoord_le [OF assms(1)] by (simp_all add: s1_def)
  have "kb_get t (int i) s1 = Ok (keyboardbuffer s t ! i)"
    using assms(2) view_eqD(5) [OF s1(1)] by (simp add: kb_get_ok)
  then show ?thesis
    unfolding echo_def Let_def s1_def [symmetric] using s1 by (simp add: getxcoord_le)
qed

lemma backspace_echo_view:
  assumes "columns_ok s" and "i < length (keyboardbuffer s t)"
  shows "\<exists>s'. backspace_echo t i s = Ok s' \<and> kbd_view s' = kbd_view s \<and> columns_ok s'"
proof -
  define s1 where "s1 = (if int i \<ge> NUM_COLS - writeindex s t then
      if getycoord t s = NUM_ROWS - 1 then scroll t s
      else setcoords (getxcoord t s) (getycoord t s + 1) t s
    else s)"
  have s1: "kbd_view s1 = kbd_view s" "columns_ok s1"
    using assms(1) getxcoord_le [OF assms(1)] by (simp_all add: s1_def)
  have "kb_get t (int i) s1 = Ok (keyboardbuffer s t ! i)"
    using assms(2) view_eqD(5) [OF s1(1)] by (simp add: kb_get_ok)
  then show ?thesis
    unfolding backspace_echo_def Let_def s1_def [symmetric] using s1 by (simp add: getxcoord_le)
qed

lemma echo_loop:
  assumes "columns_ok s" and "n \<le> length (keyboardbuffer s t)"
  shows "\<exists>s'. for_loopE 0 n (echo t) s = Ok s' \<and> kbd_view s' = kbd_view s \<and> columns_ok s'"
proof (rule view_loop [OF assms(1)])
  fix i u
  assume "i < n" "kbd_view u = kbd_view s" "columns_ok u"
  then show "\<exists>t'. echo t i u = Ok t' \<and> kbd_view t' = kbd_view s \<and> columns_ok t'"
    using echo_view [of u i t] assms(2) view_eqD(5) [of u s] by simp
qed simp

lemma backspace_loop:
  assumes "columns_ok s" and "n \<le> length (keyboardbuffer s t)"
  shows "\<exists>s'. for_loopE 0 n (backspace_echo t) s = Ok s' \<and> kbd_view s' = kbd_view s \<and> columns_ok s'"
proof (rule view_loop [OF assms(1)])
  fix i u
  assume "i < n" "kbd_view u = kbd_view s" "columns_ok u"
  then show "\<exists>t'. backspace_echo t i u = Ok t' \<and> kbd_view t' = kbd_view s \<and> columns_ok t'"
    using backspace_echo_view [of u i t] assms(2) view_eqD(5) [of u s] by simp
qed simp

subsection \<open>The operations on the line\<close>

lemma kbd_updates [simp]:
  "columns_ok (set_bufferindex t v s) = columns_ok s" "columns_ok (set_writeindex t v s) = columns_ok s"
  "columns_ok (set_enter t v s) = columns_ok s" "columns_ok (set_read t v s) = columns_ok s"
  "columns_ok (set_flag t i v s) = columns_ok s"
  by (simp_all add: columns_ok_def set_bufferindex_def set_writeindex_def set_enter_def set_read_def set_flag_def)

lemma kb_put_ok:
  "0 \<le> i \<Longrightarrow> i < int BUFFERSIZE \<Longrightarrow> length (keyboardbuffer s t) = BUFFERSIZE \<Longrightarrow>
   kb_put t i c s = Ok (s\<lparr>keyboardbuffer := (keyboardbuffer s)(t := (keyboardbuffer s t)[nat i := c])\<rparr>)"
  by (simp add: kb_put_def)

text \<open>
  What an operation on the current line may change: its own line, the flags of the terminal and
  the screen. \<open>keeps_others\<close> is about everything else the driver has.
\<close>

definition keeps_others :: "nat \<Rightarrow> 'a kbd_scheme \<Rightarrow> 'a kbd_scheme \<Rightarrow> bool" where
  "keeps_others t s s' \<longleftrightarrow> current_terminal s' = current_terminal s \<and> dev s' = dev s \<and>
     read_flag s' = read_flag s \<and> writebuffer s' = writebuffer s \<and> kb_reads s' = kb_reads s \<and>
     translate s' = translate s \<and>
     (\<forall>u. u \<noteq> t \<longrightarrow> keyboardbuffer s' u = keyboardbuffer s u \<and> bufferindex s' u = bufferindex s u \<and>
       functionflags s' u = functionflags s u \<and> enter_flag s' u = enter_flag s u)"

lemma take_snoc_update:
  "n < length xs \<Longrightarrow> take (Suc n) (xs[n := c]) = take n xs @ [c]"
  by (simp add: take_Suc_conv_app_nth)

lemma char_line:
  assumes "kbd_ok s" and "scancode AND KEYRELEASE = 0" and "select_ascii scancode s \<noteq> 0"
  defines "t \<equiv> current_terminal s"
  assumes "bufferindex s t < int BUFFERSIZE"
  shows "\<exists>s'. handle_char scancode s = Ok s' \<and> kbd_ok s' \<and> keeps_others t s s' \<and>
    line t s' = line t s @ [select_ascii scancode s] \<and>
    functionflags s' = functionflags s \<and> enter_flag s' = enter_flag s"
proof -
  let ?c = "select_ascii scancode s"
  let ?n = "nat (bufferindex s t)"
  define s1 where "s1 = set_writeindex t (getxcoord t s) s"
  define s2 where "s2 = s1\<lparr>keyboardbuffer := (keyboardbuffer s1)(t := (keyboardbuffer s1 t)[?n := ?c])\<rparr>"
  define s3 where "s3 = set_bufferindex t (bufferindex s2 t + 1) s2"
  have ok: "length (keyboardbuffer s t) = BUFFERSIZE" "0 \<le> bufferindex s t" "columns_ok s"
    using assms(1) by (simp_all add: kbd_ok_def)
  have put: "kb_put t (bufferindex s1 t) ?c s1 = Ok s2"
    using ok assms(5) by (simp add: s1_def s2_def set_writeindex_def kb_put_ok)
  have s3: "kbd_ok s3" "keeps_others t s s3" "functionflags s3 = functionflags s"
    "enter_flag s3 = enter_flag s" "line t s3 = line t s @ [?c]"
    "nat (bufferindex s3 t) \<le> length (keyboardbuffer s3 t)"
    using assms(1,5) getxcoord_le [OF ok(3), of t]
    by (auto simp: s1_def s2_def s3_def set_writeindex_def set_bufferindex_def kbd_ok_def columns_ok_def
        keeps_others_def kb_reads_def line_def nat_add_distrib take_snoc_update getxcoord_def)
  have "columns_ok s3" using s3(1) by (simp add: kbd_ok_def)
  then obtain s4 where s4: "for_loopE 0 (nat (bufferindex s3 t)) (echo t) s3 = Ok s4"
    "kbd_view s4 = kbd_view s3" "columns_ok s4"
    using echo_loop s3(6) by blast
  define s5 where "s5 = send_eoi KEYBOARD (setcoords (writeindex s4 t) (getycoord t s4) t s4)"
  have v: "kbd_view s5 = kbd_view s3" by (simp add: s5_def s4(2))
  have "writeindex s4 t \<le> 128" using s3(1) view_eqD(8) [OF s4(2)] by (simp add: kbd_ok_def)
  then have "columns_ok s5" using s4(3) by (simp add: s5_def)
  then have "kbd_ok s5" using view_kbd_ok [OF v] s3(1) by simp
  moreover have "handle_char scancode s = Ok s5"
    unfolding handle_char_def t_def [symmetric] Let_def s1_def [symmetric]
    using assms(2,3,5) put s4(1) by (simp add: s3_def [symmetric] s5_def)
  moreover have "keeps_others t s s5" using s3(2) view_eqD [OF v] view_translate [OF v] by (simp add: keeps_others_def)
  ultimately show ?thesis using s3(3-5) view_eqD [OF v] view_line [OF v] by auto
qed

text \<open>Keys that are not characters, and characters for which there is no room.\<close>

lemma char_ignored:
  assumes "scancode AND KEYRELEASE \<noteq> 0 \<or> select_ascii scancode s = 0 \<or>
    bufferindex s (current_terminal s) \<ge> int BUFFERSIZE"
  shows "handle_char scancode s = Ok (send_eoi KEYBOARD s)"
  using assms by (auto simp: handle_char_def Let_def)

lemma backspace_line:
  assumes "kbd_ok s"
  defines "t \<equiv> current_terminal s"
  shows "\<exists>s'. handle_backspace s = Ok s' \<and> kbd_ok s' \<and> keeps_others t s s' \<and>
    line t s' = butlast (line t s) \<and>
    functionflags s' = functionflags s \<and> enter_flag s' = enter_flag s"
proof -
  define s1 where "s1 = (if bufferindex s t \<noteq> 0 then set_bufferindex t (bufferindex s t - 1) s else s)"
  let ?n = "nat (bufferindex s1 t)"
  define s2 where "s2 = s1\<lparr>keyboardbuffer := (keyboardbuffer s1)(t := (keyboardbuffer s1 t)[?n := 0])\<rparr>"
  have ok: "length (keyboardbuffer s t) = BUFFERSIZE" "0 \<le> bufferindex s t"
    "bufferindex s t \<le> int BUFFERSIZE" "columns_ok s"
    using assms(1) by (simp_all add: kbd_ok_def)
  have put: "kb_put t (bufferindex s1 t) 0 s1 = Ok s2"
    using ok unfolding s2_def by (intro kb_put_ok) (auto simp: s1_def set_bufferindex_def)
  have line: "line t s2 = butlast (line t s)"
  proof -
    have "?n = nat (bufferindex s t) - 1"
      using ok(2) by (auto simp: s1_def set_bufferindex_def nat_diff_distrib)
    moreover have "nat (bufferindex s t) \<le> length (keyboardbuffer s t)" using ok by simp
    moreover have "keyboardbuffer s1 = keyboardbuffer s" by (simp add: s1_def set_bufferindex_def)
    ultimately show ?thesis by (simp add: line_def s2_def butlast_take)
  qed
  have nz: "bufferindex s t \<noteq> 0 \<Longrightarrow> 0 < bufferindex s t" "bufferindex s t \<le> 128" "bufferindex s t \<le> 129"
    using ok(2,3) by simp_all
  have s2: "kbd_ok s2" "keeps_others t s s2" "functionflags s2 = functionflags s"
    "enter_flag s2 = enter_flag s" "nat (bufferindex s2 t) \<le> length (keyboardbuffer s2 t)"
    using assms(1) nz by (auto simp: s1_def s2_def set_bufferindex_def kbd_ok_def columns_ok_def keeps_others_def kb_reads_def)
  define s3 where "s3 = setcoords (writeindex s2 t) (getycoord t s2) t s2"
  define s4 where "s4 = (if bufferindex s3 t \<ge> NUM_COLS - writeindex s3 t
    then clearline 0 (getycoord t s3 + 1) s3 else clearline (writeindex s3 t) (getycoord t s3) s3)"
  have "writeindex s2 t \<le> 128" "columns_ok s2" using s2(1) by (simp_all add: kbd_ok_def)
  then have s4: "columns_ok s4" "kbd_view s4 = kbd_view s2" by (simp_all add: s4_def s3_def)
  then obtain s5 where s5: "for_loopE 0 (nat (bufferindex s4 t)) (backspace_echo t) s4 = Ok s5"
    "kbd_view s5 = kbd_view s4" "columns_ok s5"
    using backspace_loop [OF s4(1), of "nat (bufferindex s4 t)" t] s2(5) view_eqD(5,6) [OF s4(2)] by auto
  define s6 where "s6 = send_eoi KEYBOARD (setcoords (writeindex s5 t) (getycoord t s5) t s5)"
  have v: "kbd_view s6 = kbd_view s2" by (simp add: s6_def s5(2) s4(2))
  have "writeindex s5 t \<le> 128"
    using s2(1) view_eqD(8) [OF s5(2)] view_eqD(8) [OF s4(2)] by (simp add: kbd_ok_def)
  then have "columns_ok s6" using s5(3) by (simp add: s6_def)
  then have "kbd_ok s6" using view_kbd_ok [OF v] s2(1) by simp
  moreover have "handle_backspace s = Ok s6"
    unfolding handle_backspace_def t_def [symmetric] Let_def s1_def [symmetric]
    by (simp only: put bindE_simps s3_def [symmetric] s4_def [symmetric] s5(1) s6_def [symmetric])
  moreover have "keeps_others t s s6" using s2(2) view_eqD [OF v] view_translate [OF v] by (simp add: keeps_others_def)
  ultimately show ?thesis using s2(3,4) line view_eqD [OF v] view_line [OF v] by auto
qed

text \<open>Enter, while a read is waiting for the line.\<close>

lemma enter_line:
  assumes "kbd_ok s"
  defines "t \<equiv> current_terminal s"
  assumes "bufferindex s t < int BUFFERSIZE" and "read_flag s t \<noteq> OFF"
  shows "\<exists>s'. handle_enter s = Ok s' \<and> kbd_ok s' \<and> keeps_others t s s' \<and>
    line t s' = line t s @ [CH_NEWLINE] \<and>
    functionflags s' = functionflags s \<and> enter_flag s' t = ON"
proof -
  let ?n = "nat (bufferindex s t)"
  define s1 where "s1 = s\<lparr>keyboardbuffer := (keyboardbuffer s)(t := (keyboardbuffer s t)[?n := CH_NEWLINE])\<rparr>"
  define s2 where "s2 = set_enter t ON (set_bufferindex t (bufferindex s1 t + 1) s1)"
  have ok: "length (keyboardbuffer s t) = BUFFERSIZE" "0 \<le> bufferindex s t" "columns_ok s"
    using assms(1) by (simp_all add: kbd_ok_def)
  have put: "kb_put t (bufferindex s t) CH_NEWLINE s = Ok s1"
    using ok assms(3) by (simp add: s1_def kb_put_ok)
  have s2: "kbd_ok s2" "keeps_others t s s2" "functionflags s2 = functionflags s" "enter_flag s2 t = ON"
    "line t s2 = line t s @ [CH_NEWLINE]" "read_flag s2 = read_flag s"
    using assms(1,3)
    by (auto simp: s1_def s2_def set_enter_def set_bufferindex_def kbd_ok_def columns_ok_def
        keeps_others_def kb_reads_def line_def nat_add_distrib take_snoc_update)
  define s3 where "s3 = term_putc CH_NEWLINE s2"
  define s4 where "s4 = (if bufferindex s3 t + writeindex s3 t > NUM_COLS + 1
    then term_putc CH_NEWLINE s3 else s3)"
  define s5 where "s5 = send_eoi KEYBOARD s4"
  have "columns_ok s2" using s2(1) by (simp add: kbd_ok_def)
  then have v: "kbd_view s4 = kbd_view s2" "kbd_view s5 = kbd_view s2" "columns_ok s5"
    by (simp_all add: s3_def s4_def s5_def)
  have "read_flag s4 t \<noteq> OFF" using view_eqD(4) [OF v(1)] s2(6) assms(4) by simp
  then have "handle_enter s = Ok s5"
    unfolding handle_enter_def t_def [symmetric] Let_def
    by (simp only: put bindE_simps s2_def [symmetric] s3_def [symmetric] s4_def [symmetric] s5_def if_False)
  moreover have "kbd_ok s5" using view_kbd_ok [OF v(2,3)] s2(1) by simp
  moreover have "keeps_others t s s5" using s2(2) view_eqD [OF v(2)] view_translate [OF v(2)] by (simp add: keeps_others_def)
  ultimately show ?thesis using s2(3-5) view_eqD [OF v(2)] view_line [OF v(2)] by auto
qed

text \<open>A full line has no room for the newline: the handler writes behind its buffer.\<close>

lemma enter_overflow:
  "kbd_ok s \<Longrightarrow> bufferindex s (current_terminal s) = int BUFFERSIZE \<Longrightarrow> handle_enter s = Err OutOfBounds"
  by (simp add: handle_enter_def kb_put_def kbd_ok_def Let_def)

lemma ctrl_l_line:
  assumes "kbd_ok s"
  defines "t \<equiv> current_terminal s"
  assumes "bufferindex s t < int BUFFERSIZE"
  shows "\<exists>s'. handle_ctrl_l s = Ok s' \<and> kbd_view s' = kbd_view s \<and> columns_ok s'"
proof -
  define s1 where "s1 = setcoords 0 0 t (clear s)"
  have ok: "columns_ok s" "length (writebuffer s t) = BUFFERSIZE" "length (keyboardbuffer s t) = BUFFERSIZE"
    "writeindex s t \<le> 128"
    using assms(1) by (simp_all add: kbd_ok_def)
  have v1: "kbd_view s1 = kbd_view s" "columns_ok s1" using ok(1) by (simp_all add: s1_def)
  let ?w = "\<lambda>i s. bindE (wb_get t (int i) s) (\<lambda>c. Ok (putc c s))"
  let ?k = "\<lambda>i s. bindE (kb_get t (int i) s) (\<lambda>c. Ok (putc c s))"
  have "\<exists>s2. for_loopE 0 (nat (writeindex s1 t)) ?w s1 = Ok s2 \<and> kbd_view s2 = kbd_view s1 \<and> columns_ok s2"
  proof (rule view_loop [OF v1(2)])
    fix i u
    assume "i < nat (writeindex s1 t)" "kbd_view u = kbd_view s1" "columns_ok u"
    then show "\<exists>t'. ?w i u = Ok t' \<and> kbd_view t' = kbd_view s1 \<and> columns_ok t'"
      using ok view_eqD [OF v1(1)] view_eqD(7) [of u s1] by (simp add: wb_get_def)
  qed simp
  then obtain s2 where s2: "for_loopE 0 (nat (writeindex s1 t)) ?w s1 = Ok s2"
    "kbd_view s2 = kbd_view s" "columns_ok s2" using v1(1) by auto
  have "\<exists>s3. for_loopE 0 (nat (bufferindex s2 t + 1)) ?k s2 = Ok s3 \<and> kbd_view s3 = kbd_view s2 \<and> columns_ok s3"
  proof (rule view_loop [OF s2(3)])
    fix i u
    assume "i < nat (bufferindex s2 t + 1)" "kbd_view u = kbd_view s2" "columns_ok u"
    then show "\<exists>t'. ?k i u = Ok t' \<and> kbd_view t' = kbd_view s2 \<and> columns_ok t'"
      using ok assms(3) view_eqD [OF s2(2)] view_eqD(5) [of u s2] by (simp add: kb_get_ok)
  qed simp
  then obtain s3 where s3: "for_loopE 0 (nat (bufferindex s2 t + 1)) ?k s2 = Ok s3"
    "kbd_view s3 = kbd_view s2" "columns_ok s3" by blast
  define s4 where "s4 = send_eoi KEYBOARD
    (setcoords (getxcoord t s3 - bufferindex s3 t - 1) (getycoord t s3) t s3)"
  have "0 \<le> bufferindex s3 t"
    using assms(1) view_eqD(6) [OF s3(2)] view_eqD(6) [OF s2(2)] by (simp add: kbd_ok_def)
  then have "getxcoord t s3 - bufferindex s3 t - 1 \<le> 128" using getxcoord_le [OF s3(3), of t] by simp
  then have "kbd_view s4 = kbd_view s" "columns_ok s4"
    using s3(2,3) s2(2) by (simp_all add: s4_def)
  moreover have "handle_ctrl_l s = Ok s4"
    unfolding handle_ctrl_l_def t_def [symmetric] Let_def s1_def [symmetric]
    by (simp only: s2(1) s3(1) bindE_simps s4_def)
  ultimately show ?thesis by blast
qed

text \<open>With a full line, control and L reads one element behind the buffer.\<close>

lemma ctrl_l_overflow:
  assumes "kbd_ok s"
  defines "t \<equiv> current_terminal s"
  assumes "bufferindex s t = int BUFFERSIZE" and "writeindex s t \<le> 0"
  shows "handle_ctrl_l s = Err OutOfBounds"
proof -
  define s1 where "s1 = setcoords 0 0 t (clear s)"
  have ok: "columns_ok s" "length (keyboardbuffer s t) = BUFFERSIZE"
    using assms(1) by (simp_all add: kbd_ok_def)
  have v1: "kbd_view s1 = kbd_view s" "columns_ok s1" using ok(1) by (simp_all add: s1_def)
  let ?k = "\<lambda>i s. bindE (kb_get t (int i) s) (\<lambda>c. Ok (putc c s))"
  have "\<exists>s3. for_loopE 0 128 ?k s1 = Ok s3 \<and> kbd_view s3 = kbd_view s1 \<and> columns_ok s3"
  proof (rule view_loop [OF v1(2)])
    fix i :: nat and u
    assume "i < 128" "kbd_view u = kbd_view s1" "columns_ok u"
    then show "\<exists>t'. ?k i u = Ok t' \<and> kbd_view t' = kbd_view s1 \<and> columns_ok t'"
      using ok view_eqD [OF v1(1)] view_eqD(5) [of u s1] by (simp add: kb_get_ok)
  qed simp
  then obtain s3 where s3: "for_loopE 0 128 ?k s1 = Ok s3" "kbd_view s3 = kbd_view s1" by blast
  have "?k 128 s3 = Err OutOfBounds"
    using ok(2) view_eqD(5) [OF s3(2)] view_eqD(5) [OF v1(1)] by (simp add: kb_get_def)
  then have "for_loopE 0 (Suc 128) ?k s1 = Err OutOfBounds"
    by (subst for_loopE_Suc) (simp_all only: s3(1) bindE_simps zero_le)
  moreover have "nat (bufferindex s1 t + 1) = Suc 128" "nat (writeindex s1 t) = 0"
    using view_eqD(6,8) [OF v1(1)] assms(3,4) by simp_all
  ultimately show ?thesis
    unfolding handle_ctrl_l_def t_def [symmetric] Let_def s1_def [symmetric] by simp
qed

subsection \<open>The abstract editor\<close>

record editor =
  ed_alt :: bool
  ed_shift :: bool
  ed_ctrl :: bool
  ed_caps :: bool
  ed_line :: "u8 list"

definition ed_char :: "u8 \<Rightarrow> editor \<Rightarrow> u8" where
  "ed_char sc e = arr_at (if ed_caps e then if ed_shift e then fourtharray else thirdarray
     else if ed_shift e then secondarray else firstarray) sc"

text \<open>One scan code: modifiers, editing keys, and everything else as a character.\<close>

definition ed_step :: "u8 \<Rightarrow> editor \<Rightarrow> editor" where
  "ed_step sc e =
     (if sc = KEY_ALT then e\<lparr>ed_alt := True\<rparr>
      else if sc = KEY_ALTRELEASE then e\<lparr>ed_alt := False\<rparr>
      else if sc = KEY_LSHIFT \<or> sc = KEY_RSHIFT then e\<lparr>ed_shift := True\<rparr>
      else if sc = KEY_LSHIFTRELEASE \<or> sc = KEY_RSHIFTRELEASE then e\<lparr>ed_shift := False\<rparr>
      else if sc = KEY_CTRL then e\<lparr>ed_ctrl := True\<rparr>
      else if sc = KEY_CTRLRELEASE then e\<lparr>ed_ctrl := False\<rparr>
      else if sc = KEY_CAPSLOCK then e\<lparr>ed_caps := \<not> ed_caps e\<rparr>
      else if sc = KEY_BACKSPACE then e\<lparr>ed_line := butlast (ed_line e)\<rparr>
      else if sc = KEY_ENTER then e\<lparr>ed_line := ed_line e @ [CH_NEWLINE]\<rparr>
      else if sc = KEY_ENTERRELEASE \<or> (ed_ctrl e \<and> sc = KEY_L) \<or> sc AND KEYRELEASE \<noteq> 0 \<or>
        ed_char sc e = 0 \<or> length (ed_line e) \<ge> BUFFERSIZE then e
      else e\<lparr>ed_line := ed_line e @ [ed_char sc e]\<rparr>)"

text \<open>
  The keys the editor stands for: not a terminal switch, and with room in the line for what enter
  adds and for what control and L looks at.
\<close>

definition ed_enabled :: "u8 \<Rightarrow> editor \<Rightarrow> bool" where
  "ed_enabled sc e \<longleftrightarrow> \<not> (ed_alt e \<and> (sc = KEY_F1 \<or> sc = KEY_F2 \<or> sc = KEY_F3)) \<and>
     (sc = KEY_ENTER \<or> (ed_ctrl e \<and> sc = KEY_L) \<longrightarrow> length (ed_line e) < BUFFERSIZE)"

definition editor_of :: "'a kbd_scheme \<Rightarrow> editor" where
  "editor_of s =
     (let f = functionflags s (current_terminal s) in
      \<lparr>ed_alt = (f ALTINDEX = ON), ed_shift = (f SHIFTINDEX = ON), ed_ctrl = (f CTRLINDEX = ON),
       ed_caps = (f CAPSLOCKINDEX = ON), ed_line = line (current_terminal s) s\<rparr>)"

lemma length_line: "kbd_ok s \<Longrightarrow> int (length (line t s)) = bufferindex s t"
proof -
  assume "kbd_ok s"
  then have "0 \<le> bufferindex s t" "bufferindex s t \<le> 128" "length (keyboardbuffer s t) = 128"
    by (simp_all add: kbd_ok_def)
  moreover from this have "nat (bufferindex s t) \<le> 128" by simp
  ultimately show ?thesis by (simp add: line_def min_absorb2)
qed

lemma select_ascii_char: "kbd_ok s \<Longrightarrow> select_ascii sc s = ed_char sc (editor_of s)"
proof -
  assume ok: "kbd_ok s"
  let ?f = "functionflags s (current_terminal s)"
  have "?f CAPSLOCKINDEX = OFF \<or> ?f CAPSLOCKINDEX = ON" "?f SHIFTINDEX = OFF \<or> ?f SHIFTINDEX = ON"
    using ok by (auto simp: kbd_ok_def)
  then show ?thesis by (auto simp: select_ascii_def ed_char_def editor_of_def Let_def)
qed

text \<open>The state after the scan code has been fetched.\<close>

definition fetched :: "'a machine_scheme \<Rightarrow> 'a machine_scheme" where
  "fetched s = snd (inb KB_ENCODER s)"

definition scancode_of :: "'a machine_scheme \<Rightarrow> u8" where
  "scancode_of s = ucast (fst (inb KB_ENCODER s))"

definition same_line where
  "same_line s s' \<longleftrightarrow> current_terminal s' = current_terminal s \<and> dev s' = dev s \<and>
     read_flag s' = read_flag s \<and> kb_reads s' = Suc (kb_reads s) \<and>
     translate s' = translate s \<and>
     (\<forall>u. u \<noteq> current_terminal s \<longrightarrow> keyboardbuffer s' u = keyboardbuffer s u \<and>
       bufferindex s' u = bufferindex s u \<and> functionflags s' u = functionflags s u)"

lemma fetched_facts:
  "kbd_ok (fetched s) = kbd_ok s" "editor_of (fetched s) = editor_of s"
  "current_terminal (fetched s) = current_terminal s" "functionflags (fetched s) = functionflags s"
  "read_flag (fetched s) = read_flag s" "bufferindex (fetched s) = bufferindex s"
  "keyboardbuffer (fetched s) = keyboardbuffer s" "enter_flag (fetched s) = enter_flag s"
  "dev (fetched s) = dev s" "kb_reads (fetched s) = Suc (kb_reads s)"
  "translate (fetched s) = translate s"
  by (simp_all add: fetched_def inb_def port_in_def Let_def kbd_ok_def columns_ok_def editor_of_def
      line_def kb_reads_def)

lemma same_line_fetched: "keeps_others (current_terminal s) (fetched s) s' \<Longrightarrow> same_line s s'"
  by (simp add: keeps_others_def same_line_def fetched_facts)

lemma view_editor: "kbd_view s = kbd_view s' \<Longrightarrow> editor_of s = editor_of s'"
  using view_eqD [of s s'] view_line [of s s'] by (simp add: editor_of_def)

text \<open>Modifier keys.\<close>

lemma set_flag_facts:
  assumes "kbd_ok s" and "v \<in> {OFF, ON}"
  defines "t \<equiv> current_terminal s"
  shows "kbd_ok (send_eoi n (set_flag t i v s))"
    and "keeps_others t s (send_eoi n (set_flag t i v s))"
    and "editor_of (send_eoi n (set_flag t i v s)) =
      \<lparr>ed_alt = (if i = ALTINDEX then v = ON else ed_alt (editor_of s)),
       ed_shift = (if i = SHIFTINDEX then v = ON else ed_shift (editor_of s)),
       ed_ctrl = (if i = CTRLINDEX then v = ON else ed_ctrl (editor_of s)),
       ed_caps = (if i = CAPSLOCKINDEX then v = ON else ed_caps (editor_of s)),
       ed_line = ed_line (editor_of s)\<rparr>"
proof -
  let ?s = "set_flag t i v s" and ?s' = "send_eoi n (set_flag t i v s)"
  have v: "kbd_view ?s' = kbd_view ?s" by simp
  have s: "kbd_ok ?s" "keeps_others t s ?s"
    using assms(1,2) by (auto simp: set_flag_def kbd_ok_def columns_ok_def keeps_others_def kb_reads_def)
  then show "kbd_ok ?s'" using view_kbd_ok [OF v] by (simp add: kbd_ok_def)
  show "keeps_others t s ?s'" using s(2) view_eqD [OF v] view_translate [OF v] by (simp add: keeps_others_def)
  show "editor_of ?s' =
      \<lparr>ed_alt = (if i = ALTINDEX then v = ON else ed_alt (editor_of s)),
       ed_shift = (if i = SHIFTINDEX then v = ON else ed_shift (editor_of s)),
       ed_ctrl = (if i = CTRLINDEX then v = ON else ed_ctrl (editor_of s)),
       ed_caps = (if i = CAPSLOCKINDEX then v = ON else ed_caps (editor_of s)),
       ed_line = ed_line (editor_of s)\<rparr>"
    unfolding view_editor [OF v] by (simp add: editor_of_def set_flag_def t_def line_def Let_def)
qed

lemma keyboard_handler_fetched:
  "keyboard_handler s =
     (let s' = fetched s;
          scancode = scancode_of s;
          t = current_terminal s' in
      if scancode = KEY_ALT then Ok (SameTerminal, send_eoi KEYBOARD (set_flag t ALTINDEX ON s'))
      else if scancode = KEY_ALTRELEASE then
        Ok (SameTerminal, send_eoi KEYBOARD (set_flag t ALTINDEX OFF s'))
      else if scancode = KEY_LSHIFT \<or> scancode = KEY_RSHIFT then
        Ok (SameTerminal, send_eoi KEYBOARD (set_flag t SHIFTINDEX ON s'))
      else if scancode = KEY_LSHIFTRELEASE \<or> scancode = KEY_RSHIFTRELEASE then
        Ok (SameTerminal, send_eoi KEYBOARD (set_flag t SHIFTINDEX OFF s'))
      else if scancode = KEY_CTRL then
        Ok (SameTerminal, send_eoi KEYBOARD (set_flag t CTRLINDEX ON s'))
      else if scancode = KEY_CTRLRELEASE then
        Ok (SameTerminal, send_eoi KEYBOARD (set_flag t CTRLINDEX OFF s'))
      else if scancode = KEY_CAPSLOCK then
        Ok (SameTerminal, send_eoi KEYBOARD
          (if functionflags s' t CAPSLOCKINDEX = ON then set_flag t CAPSLOCKINDEX OFF s'
           else if functionflags s' t CAPSLOCKINDEX = OFF then set_flag t CAPSLOCKINDEX ON s'
           else s'))
      else if scancode = KEY_BACKSPACE then bindE (handle_backspace s') (\<lambda>s. Ok (SameTerminal, s))
      else if scancode = KEY_ENTER then bindE (handle_enter s') (\<lambda>s. Ok (SameTerminal, s))
      else if scancode = KEY_ENTERRELEASE then
        Ok (SameTerminal, send_eoi KEYBOARD (set_enter t OFF s'))
      else handle_default scancode s')"
  by (simp add: keyboard_handler_def fetched_def scancode_of_def Let_def case_prod_unfold)

text \<open>Everything the handler passes to \<open>handle_default\<close> and that is not a switch.\<close>

lemma default_step:
  assumes "kbd_ok s" and "ed_enabled sc (editor_of s)"
    and "sc \<notin> {KEY_ALT, KEY_ALTRELEASE, KEY_LSHIFT, KEY_RSHIFT, KEY_LSHIFTRELEASE, KEY_RSHIFTRELEASE,
      KEY_CTRL, KEY_CTRLRELEASE, KEY_CAPSLOCK, KEY_BACKSPACE, KEY_ENTER, KEY_ENTERRELEASE}"
  defines "t \<equiv> current_terminal s"
  shows "\<exists>s'. handle_default sc s = Ok (SameTerminal, s') \<and> kbd_ok s' \<and> keeps_others t s s' \<and>
    editor_of s' = ed_step sc (editor_of s) \<and> enter_flag s' = enter_flag s"
proof -
  let ?e = "editor_of s"
  have flags: "functionflags s t ALTINDEX = ON \<longleftrightarrow> ed_alt ?e" "functionflags s t CTRLINDEX = ON \<longleftrightarrow> ed_ctrl ?e"
    by (simp_all add: editor_of_def t_def Let_def)
  have len: "int (length (ed_line ?e)) = bufferindex s t"
    using length_line [OF assms(1)] by (simp add: editor_of_def t_def Let_def)
  have keep: "keeps_others t s s' \<and> kbd_ok s' \<and> editor_of s' = ?e \<and> enter_flag s' = enter_flag s"
    if "kbd_view s' = kbd_view s" "columns_ok s'" for s'
    using view_eqD [OF that(1)] view_kbd_ok [OF that assms(1)] view_editor [OF that(1)]
      view_translate [OF that(1)]
    by (simp add: keeps_others_def)
  have noswitch: "\<not> (ed_alt ?e \<and> (sc = KEY_F1 \<or> sc = KEY_F2 \<or> sc = KEY_F3))"
    using assms(2) by (simp add: ed_enabled_def)
  show ?thesis
  proof (cases "ed_ctrl ?e \<and> sc = KEY_L")
    case True
    then have "bufferindex s t < int BUFFERSIZE" using assms(2) len by (simp add: ed_enabled_def)
    then obtain s' where s': "handle_ctrl_l s = Ok s'" "kbd_view s' = kbd_view s" "columns_ok s'"
      using ctrl_l_line [OF assms(1)] by (auto simp: t_def)
    then have "handle_default sc s = Ok (SameTerminal, s')"
      using True flags by (simp add: handle_default_def Let_def t_def)
    moreover have "ed_step sc ?e = ?e" using True by (simp add: ed_step_def)
    ultimately show ?thesis using keep [OF s'(2,3)] by auto
  next
    case False
    then have run: "handle_default sc s = bindE (handle_char sc s) (\<lambda>s. Ok (SameTerminal, s))"
      using noswitch flags by (auto simp: handle_default_def Let_def t_def)
    show ?thesis
    proof (cases "sc AND KEYRELEASE \<noteq> 0 \<or> select_ascii sc s = 0 \<or> bufferindex s t \<ge> int BUFFERSIZE")
      case True
      then have "handle_char sc s = Ok (send_eoi KEYBOARD s)"
        using char_ignored [of sc s] by (simp add: t_def)
      moreover have "ed_step sc ?e = ?e"
        using assms(3) True len by (auto simp: ed_step_def select_ascii_char [OF assms(1)])
      moreover have "columns_ok (send_eoi KEYBOARD s)" using assms(1) by (simp add: kbd_ok_def)
      ultimately show ?thesis using keep [of "send_eoi KEYBOARD s"] run by auto
    next
      case isc: False
      then obtain s' where s': "handle_char sc s = Ok s'" "kbd_ok s'" "keeps_others t s s'"
        "line t s' = line t s @ [select_ascii sc s]" "functionflags s' = functionflags s"
        "enter_flag s' = enter_flag s"
        using char_line [OF assms(1), of sc] by (auto simp: t_def)
      have "ed_step sc ?e = ?e\<lparr>ed_line := ed_line ?e @ [ed_char sc ?e]\<rparr>"
        using assms(3) isc False len by (auto simp: ed_step_def select_ascii_char [OF assms(1)])
      moreover have "editor_of s' = ?e\<lparr>ed_line := ed_line ?e @ [select_ascii sc s]\<rparr>"
        using s'(3,4,5) by (simp add: editor_of_def keeps_others_def t_def Let_def)
      ultimately show ?thesis using s' run select_ascii_char [OF assms(1)] by auto
    qed
  qed
qed

text \<open>
  One interrupt is one step of the editor. The terminal is being read, as it is whenever enter
  matters; the other terminals keep their lines and modifiers.
\<close>

lemma editor_step:
  assumes "kbd_ok s" and "ed_enabled (scancode_of s) (editor_of s)"
    and "scancode_of s = KEY_ENTER \<Longrightarrow> read_flag s (current_terminal s) \<noteq> OFF"
  shows "\<exists>s'. keyboard_handler s = Ok (SameTerminal, s') \<and> kbd_ok s' \<and> same_line s s' \<and>
    editor_of s' = ed_step (scancode_of s) (editor_of s) \<and>
    (scancode_of s = KEY_ENTER \<longrightarrow> enter_flag s' (current_terminal s) = ON) \<and>
    (scancode_of s \<noteq> KEY_ENTER \<and> enter_flag s (current_terminal s) = OFF \<longrightarrow>
      enter_flag s' (current_terminal s) = OFF)"
proof -
  define f where "f = fetched s"
  define sc where "sc = scancode_of s"
  define t where "t = current_terminal s"
  note ff = fetched_facts [of s, folded f_def t_def]
  have okf: "kbd_ok f" using assms(1) ff by simp
  have len: "int (length (ed_line (editor_of s))) = bufferindex s t"
    using length_line [OF assms(1)] by (simp add: editor_of_def t_def Let_def)
  have caps: "functionflags s t CAPSLOCKINDEX \<in> {OFF, ON}" using assms(1) by (auto simp: kbd_ok_def)
  note sf = set_flag_facts [OF okf, unfolded ff(3)]
  have others: "same_line s s'" if "keeps_others t f s'" for s'
    using that same_line_fetched [of s s'] by (simp add: f_def t_def)
  have kept: "enter_flag (send_eoi n (set_flag u i v f)) = enter_flag s" for n u i v
    by (simp add: send_eoi_def outb_def port_out_def set_flag_def ff)
  have flag: ?thesis
    if "v \<in> {OFF, ON}" and "keyboard_handler s = Ok (SameTerminal, send_eoi KEYBOARD (set_flag t i v f))"
      and "editor_of (send_eoi KEYBOARD (set_flag t i v f)) = ed_step sc (editor_of s)"
      and "sc \<noteq> KEY_ENTER" for i v
    using that sf(1,2) [OF that(1)] others kept by (auto simp: sc_def)
  note run = keyboard_handler_fetched [of s, folded f_def sc_def, unfolded ff(3) Let_def]
  consider "sc = KEY_ALT" | "sc = KEY_ALTRELEASE" | "sc = KEY_LSHIFT \<or> sc = KEY_RSHIFT"
    | "sc = KEY_LSHIFTRELEASE \<or> sc = KEY_RSHIFTRELEASE" | "sc = KEY_CTRL" | "sc = KEY_CTRLRELEASE"
    | "sc = KEY_CAPSLOCK" | "sc = KEY_BACKSPACE" | "sc = KEY_ENTER" | "sc = KEY_ENTERRELEASE"
    | "sc \<notin> {KEY_ALT, KEY_ALTRELEASE, KEY_LSHIFT, KEY_RSHIFT, KEY_LSHIFTRELEASE, KEY_RSHIFTRELEASE,
      KEY_CTRL, KEY_CTRLRELEASE, KEY_CAPSLOCK, KEY_BACKSPACE, KEY_ENTER, KEY_ENTERRELEASE}"
    by blast
  then show ?thesis
  proof cases
    case 1
    show ?thesis by (rule flag [of ON ALTINDEX]) (simp_all add: 1 run sf(3) ed_step_def ff(2))
  next
    case 2
    show ?thesis by (rule flag [of OFF ALTINDEX]) (simp_all add: 2 run sf(3) ed_step_def ff(2))
  next
    case 3
    then show ?thesis by (intro flag [of ON SHIFTINDEX]) (auto simp: run sf(3) ed_step_def ff(2))
  next
    case 4
    then show ?thesis by (intro flag [of OFF SHIFTINDEX]) (auto simp: run sf(3) ed_step_def ff(2))
  next
    case 5
    show ?thesis by (rule flag [of ON CTRLINDEX]) (simp_all add: 5 run sf(3) ed_step_def ff(2))
  next
    case 6
    show ?thesis by (rule flag [of OFF CTRLINDEX]) (simp_all add: 6 run sf(3) ed_step_def ff(2))
  next
    case 7
    have e: "ed_caps (editor_of s) = (functionflags s t CAPSLOCKINDEX = ON)"
      by (simp add: editor_of_def t_def Let_def)
    show ?thesis
      by (rule flag [of "if functionflags s t CAPSLOCKINDEX = ON then OFF else ON" CAPSLOCKINDEX])
        (use caps in \<open>auto simp: 7 run sf(3) ed_step_def ff e\<close>)
  next
    case 8
    obtain s' where s': "handle_backspace f = Ok s'" "kbd_ok s'" "keeps_others t f s'"
      "line t s' = butlast (line t f)" "functionflags s' = functionflags f" "enter_flag s' = enter_flag f"
      using backspace_line [OF okf] by (auto simp: ff)
    have "editor_of s' = ed_step sc (editor_of f)"
      using 8 s'(3-5) ff by (simp add: editor_of_def keeps_others_def Let_def ed_step_def)
    then show ?thesis
      using 8 s' others ff by (simp add: run flip: sc_def)
  next
    case 9
    then have "bufferindex f t < int BUFFERSIZE"
      using assms(2) len ff by (simp add: ed_enabled_def sc_def)
    then obtain s' where s': "handle_enter f = Ok s'" "kbd_ok s'" "keeps_others t f s'"
      "line t s' = line t f @ [CH_NEWLINE]" "functionflags s' = functionflags f" "enter_flag s' t = ON"
      using enter_line [OF okf] assms(3) 9 ff by (auto simp: sc_def t_def)
    have "editor_of s' = ed_step sc (editor_of f)"
      using 9 s'(3-5) ff by (simp add: editor_of_def keeps_others_def Let_def ed_step_def)
    then show ?thesis
      using 9 s' others ff by (simp add: run t_def flip: sc_def)
  next
    case 10
    let ?s' = "send_eoi KEYBOARD (set_enter t OFF f)"
    have v: "kbd_view ?s' = kbd_view (set_enter t OFF f)" by simp
    have "kbd_ok (set_enter t OFF f)" "keeps_others t f (set_enter t OFF f)"
      "editor_of (set_enter t OFF f) = editor_of f"
      using okf ff by (auto simp: set_enter_def kbd_ok_def columns_ok_def keeps_others_def kb_reads_def
          editor_of_def line_def)
    then have "kbd_ok ?s'" "keeps_others t f ?s'" "editor_of ?s' = editor_of f"
      using view_kbd_ok [OF v] view_eqD [OF v] view_editor [OF v] view_translate [OF v]
      by (simp_all add: kbd_ok_def keeps_others_def)
    moreover have "enter_flag ?s' t = OFF" using view_eqD(3) [OF v] by (simp add: set_enter_def)
    ultimately show ?thesis
      using 10 others ff by (simp add: run ed_step_def t_def flip: sc_def)
  next
    case 11
    obtain s' where s': "handle_default sc f = Ok (SameTerminal, s')" "kbd_ok s'" "keeps_others t f s'"
      "editor_of s' = ed_step sc (editor_of f)" "enter_flag s' = enter_flag f"
      using default_step [OF okf _ 11] assms(2) ff by (auto simp: sc_def)
    have "keyboard_handler s = handle_default sc f" using 11 by (simp add: run)
    then show ?thesis
      using 11 s' others ff by (simp flip: sc_def)
  qed
qed

subsection \<open>A line, from the keys to the reader\<close>

text \<open>A keyboard that delivers the scan codes \<open>ks\<close>, one for each read of its port.\<close>

definition keyboard_device :: "u8 list \<Rightarrow> (io_event list \<Rightarrow> nat \<Rightarrow> u16 \<Rightarrow> u32) \<Rightarrow> bool" where
  "keyboard_device ks d \<longleftrightarrow> (\<forall>log. length (filter is_kb_read log) < length ks \<longrightarrow>
     ucast (d log 8 KB_ENCODER) = ks ! length (filter is_kb_read log))"

lemma ucast_take_bit_8: "(ucast (take_bit 8 (v :: u32)) :: u8) = ucast v"
  by (rule bit_word_eqI) (auto simp: bit_simps)

lemma scancode_device:
  "keyboard_device ks (dev s) \<Longrightarrow> kb_reads s < length ks \<Longrightarrow> scancode_of s = ks ! kb_reads s"
  unfolding scancode_of_def keyboard_device_def kb_reads_def fst_inb ucast_take_bit_8 by blast

definition key_irq :: "'a kbd_scheme \<Rightarrow> 'a kbd_scheme res" where
  "key_irq s = bindE (keyboard_handler s) (\<lambda>(e, s). Ok s)"

fun all_enabled :: "u8 list \<Rightarrow> editor \<Rightarrow> bool" where
  "all_enabled [] e = True"
| "all_enabled (k # ks) e = (ed_enabled k e \<and> all_enabled ks (ed_step k e))"

text \<open>Keys up to an enter end the wait of a reader, with the edited line in the buffer.\<close>

lemma keys_end_wait:
  assumes "kbd_ok s" and "keyboard_device ks (dev s)" and "drop (kb_reads s) ks = us @ KEY_ENTER # vs"
    and "KEY_ENTER \<notin> set us" and "all_enabled (us @ [KEY_ENTER]) (editor_of s)"
    and "current_terminal s = t" and "read_flag s t \<noteq> OFF" and "enter_flag s t = OFF"
  shows "\<exists>s'. spin_until (\<lambda>s. enter_flag s t \<noteq> OFF) (replicate (Suc (length us)) key_irq) s = Ok s' \<and>
    kbd_ok s' \<and> current_terminal s' = t \<and> translate s' = translate s \<and>
    editor_of s' = fold ed_step (us @ [KEY_ENTER]) (editor_of s)"
  using assms
proof (induction us arbitrary: s)
  case Nil
  then have lt: "kb_reads s < length ks" by (metis drop_all list.distinct(1) not_le append_Nil)
  then have sc: "scancode_of s = KEY_ENTER"
    using scancode_device [OF Nil(2)] Nil(3) by (metis append_Nil hd_drop_conv_nth list.sel(1))
  then obtain s' where s': "keyboard_handler s = Ok (SameTerminal, s')" "kbd_ok s'" "same_line s s'"
    "editor_of s' = ed_step KEY_ENTER (editor_of s)" "enter_flag s' t = ON"
    using editor_step [OF Nil(1)] Nil(5-7) by auto
  then show ?case
    using Nil(6,8) spin_until_now [of "\<lambda>s. enter_flag s t \<noteq> OFF" s' "[]"]
    by (auto simp: key_irq_def same_line_def)
next
  case (Cons k us)
  have lt: "kb_reads s < length ks"
    using Cons.prems(3) by (metis append_Cons drop_all list.distinct(1) not_le)
  have sc: "scancode_of s = k"
    using scancode_device [OF Cons.prems(2) lt] Cons.prems(3) by (simp add: hd_drop_conv_nth [OF lt, symmetric])
  have nent: "k \<noteq> KEY_ENTER" using Cons.prems(4) by auto
  obtain s' where s': "keyboard_handler s = Ok (SameTerminal, s')" "kbd_ok s'" "same_line s s'"
    "editor_of s' = ed_step k (editor_of s)" "enter_flag s' t = OFF"
    using editor_step [OF Cons.prems(1)] Cons.prems(5-8) nent sc by auto
  have "drop (kb_reads s') ks = us @ KEY_ENTER # vs"
    using Cons.prems(3) s'(3) by (simp add: same_line_def drop_Suc flip: tl_drop)
  then have "\<exists>s''. spin_until (\<lambda>s. enter_flag s t \<noteq> OFF) (replicate (Suc (length us)) key_irq) s' = Ok s'' \<and>
      kbd_ok s'' \<and> current_terminal s'' = t \<and> translate s'' = translate s' \<and>
      editor_of s'' = fold ed_step (us @ [KEY_ENTER]) (editor_of s')"
    using Cons.prems s' by (intro Cons.IH) (auto simp: same_line_def)
  moreover have "spin_until (\<lambda>s. enter_flag s t \<noteq> OFF) (replicate (Suc (length (k # us))) key_irq) s =
      spin_until (\<lambda>s. enter_flag s t \<noteq> OFF) (replicate (Suc (length us)) key_irq) s'"
    using Cons.prems(8) s'(1) by (simp add: key_irq_def)
  ultimately show ?case using s'(3,4) by (simp add: same_line_def)
qed

text \<open>Storing into a user buffer leaves the driver alone.\<close>

lemma ptr_wr_driver:
  assumes "ptr_wr p i v s = Ok s'"
  shows "keyboardbuffer s' = keyboardbuffer s" "bufferindex s' = bufferindex s"
    "current_terminal s' = current_terminal s" "translate s' = translate s"
    "read_flag s' = read_flag s" "writebuffer s' = writebuffer s" "writeindex s' = writeindex s"
  using assms by (auto simp: ptr_wr_def st_def split: option.splits)

lemma read_line_copies:
  assumes "usr_cap p n s = n" and "i \<le> m" and "m < n" and "m < i + left"
    and "length (keyboardbuffer s t) = BUFFERSIZE" and "m < BUFFERSIZE"
    and "keyboardbuffer s t ! m = CH_NEWLINE" and "\<forall>j. i \<le> j \<and> j < m \<longrightarrow> keyboardbuffer s t ! j \<noteq> CH_NEWLINE"
  shows "\<exists>s'. read_line t p left i s = Ok (Suc m, s') \<and>
    usr.writes p n i (Suc m) (\<lambda>j. keyboardbuffer s t ! j) s s' \<and> current_terminal s' = current_terminal s \<and>
    translate s' = translate s"
  using assms
proof (induction left arbitrary: i s)
  case 0
  then show ?case by simp
next
  case (Suc left)
  let ?c = "keyboardbuffer s t ! i"
  have "i < BUFFERSIZE" using Suc.prems(2,6) by simp
  then have get: "kb_get t (int i) s = Ok ?c" using Suc.prems(5) by (simp add: kb_get_def)
  have i: "i < usr_cap p n s" using Suc.prems(1-3) by simp
  obtain s1 where s1: "ptr_wr p i ?c s = Ok s1" "usr_cap p n s1 = usr_cap p n s"
    using usr.wr_ok [OF i, of ?c] by blast
  note dr = ptr_wr_driver [OF s1(1)]
  show ?case
  proof (cases "i = m")
    case True
    have "usr.writes p n i (Suc m) (\<lambda>j. keyboardbuffer s t ! j) s s1"
      using True i s1(1) by (intro usr.writes_first [OF _ _ usr.writes_refl]) auto
    then show ?thesis using True get s1 Suc.prems(7) dr by auto
  next
    case False
    then have lt: "i < m" using Suc.prems(2) by simp
    then have "?c \<noteq> CH_NEWLINE" using Suc.prems(8) by simp
    moreover have "\<exists>s'. read_line t p left (Suc i) s1 = Ok (Suc m, s') \<and>
        usr.writes p n (Suc i) (Suc m) (\<lambda>j. keyboardbuffer s1 t ! j) s1 s' \<and>
        current_terminal s' = current_terminal s1 \<and> translate s' = translate s1"
      using Suc.prems lt s1(2) dr(1) by (intro Suc.IH) auto
    then obtain s' where s': "read_line t p left (Suc i) s1 = Ok (Suc m, s')"
      "usr.writes p n (Suc i) (Suc m) (\<lambda>j. keyboardbuffer s t ! j) s1 s'"
      "current_terminal s' = current_terminal s1" "translate s' = translate s1"
      using dr(1) by auto
    moreover have "usr.writes p n i (Suc m) (\<lambda>j. keyboardbuffer s t ! j) s s'"
      by (rule usr.writes_first [OF i s1(1) s'(2)]) (use lt in simp)
    ultimately show ?thesis using get s1 dr by auto
  qed
qed

text \<open>No key but enter produces a newline.\<close>

lemma tables_no_newline:
  "list_all (\<lambda>(k, c). c \<noteq> CH_NEWLINE) (firstarray @ secondarray @ thirdarray @ fourtharray)"
  by code_simp

lemma arr_at_no_newline:
  assumes "a \<in> {firstarray, secondarray, thirdarray, fourtharray}"
  shows "arr_at a k \<noteq> CH_NEWLINE"
proof (cases "map_of a k")
  case (Some c)
  then have "(k, c) \<in> set a" by (rule map_of_SomeD)
  then have "c \<noteq> CH_NEWLINE" using assms tables_no_newline by (auto simp: list_all_iff)
  then show ?thesis using Some by (simp add: arr_at_def)
qed (simp add: arr_at_def)

lemma ed_step_no_newline:
  "CH_NEWLINE \<notin> set (ed_line e) \<Longrightarrow> k \<noteq> KEY_ENTER \<Longrightarrow> CH_NEWLINE \<notin> set (ed_line (ed_step k e))"
  using arr_at_no_newline [of _ k] by (auto simp: ed_step_def ed_char_def dest: in_set_butlastD)

lemma ed_fold_no_newline:
  "CH_NEWLINE \<notin> set (ed_line e) \<Longrightarrow> KEY_ENTER \<notin> set us \<Longrightarrow> CH_NEWLINE \<notin> set (ed_line (fold ed_step us e))"
  by (induction us arbitrary: e) (auto simp: ed_step_no_newline)

lemma all_enabled_append: "all_enabled (us @ vs) e \<longleftrightarrow> all_enabled us e \<and> all_enabled vs (fold ed_step us e)"
  by (induction us arbitrary: e) auto

text \<open>Clearing the buffer empties the line.\<close>

lemma clear_keyboard_buffer_effect:
  assumes "length (keyboardbuffer s (current_terminal s)) = BUFFERSIZE"
  defines "t \<equiv> current_terminal s"
  shows "clear_keyboard_buffer u s =
    s\<lparr>keyboardbuffer := (keyboardbuffer s)(t := replicate BUFFERSIZE 0),
      bufferindex := (bufferindex s)(t := 0)\<rparr>"
proof -
  define upd where "upd b = s\<lparr>keyboardbuffer := (keyboardbuffer s)(t := b)\<rparr>" for b
  define f where "f = (\<lambda>i (s :: 'a kbd_scheme).
    s\<lparr>keyboardbuffer := (keyboardbuffer s)(t := (keyboardbuffer s t)[i := 0])\<rparr>)"
  have f: "f i (upd b) = upd (b[i := 0])" for i b by (simp add: f_def upd_def)
  have upd0: "upd (keyboardbuffer s t) = s" by (simp add: upd_def)
  have "for_loop 0 n f (upd b) = upd (replicate n 0 @ drop n b)" if "n \<le> length b" for n b
    using that
  proof (induction n)
    case (Suc n)
    then have "drop n b = b ! n # drop (Suc n) b" by (intro Cons_nth_drop_Suc [symmetric]) simp
    then have "(replicate n 0 @ drop n b)[n := 0] = replicate (Suc n) 0 @ drop (Suc n) b"
      by (simp add: list_update_append replicate_append_same)
    then show ?case using Suc by (simp only: for_loop_Suc zero_le Suc_leD f)
  qed (simp add: upd_def)
  from this [of BUFFERSIZE "keyboardbuffer s t"] have "for_loop 0 BUFFERSIZE f s = upd (replicate BUFFERSIZE 0)"
    unfolding upd0 using assms(1) by (simp add: t_def)
  then show ?thesis
    unfolding clear_keyboard_buffer_def t_def [symmetric] Let_def f_def [symmetric]
    by (simp add: upd_def set_bufferindex_def)
qed

text \<open>Enter while nobody reads the terminal: the line is thrown away.\<close>

lemma enter_discards:
  assumes "kbd_ok s"
  defines "t \<equiv> current_terminal s"
  assumes "bufferindex s t < int BUFFERSIZE" and "read_flag s t = OFF"
  shows "\<exists>s'. handle_enter s = Ok s' \<and> kbd_ok s' \<and> keeps_others t s s' \<and> line t s' = [] \<and>
    functionflags s' = functionflags s"
proof -
  let ?n = "nat (bufferindex s t)"
  define s1 where "s1 = s\<lparr>keyboardbuffer := (keyboardbuffer s)(t := (keyboardbuffer s t)[?n := CH_NEWLINE])\<rparr>"
  define s2 where "s2 = set_enter t ON (set_bufferindex t (bufferindex s1 t + 1) s1)"
  have ok: "length (keyboardbuffer s t) = BUFFERSIZE" "0 \<le> bufferindex s t" "columns_ok s"
    using assms(1) by (simp_all add: kbd_ok_def)
  have put: "kb_put t (bufferindex s t) CH_NEWLINE s = Ok s1"
    using ok assms(3) by (simp add: s1_def kb_put_ok)
  have s2: "kbd_ok s2" "keeps_others t s s2" "functionflags s2 = functionflags s" "read_flag s2 = read_flag s"
    using assms(1,3)
    by (auto simp: s1_def s2_def set_enter_def set_bufferindex_def kbd_ok_def columns_ok_def
        keeps_others_def kb_reads_def)
  define s3 where "s3 = term_putc CH_NEWLINE s2"
  define s4 where "s4 = (if bufferindex s3 t + writeindex s3 t > NUM_COLS + 1
    then term_putc CH_NEWLINE s3 else s3)"
  define s5 where "s5 = clear_keyboard_buffer t s4"
  define s6 where "s6 = send_eoi KEYBOARD s5"
  have "columns_ok s2" using s2(1) by (simp add: kbd_ok_def)
  then have v: "kbd_view s4 = kbd_view s2" "columns_ok s4" by (simp_all add: s3_def s4_def)
  have "kbd_ok s4" using view_kbd_ok [OF v] s2(1) by simp
  have t4: "current_terminal s4 = t"
    using view_eqD(1) [OF v(1)] by (simp add: s2_def s1_def set_enter_def set_bufferindex_def t_def)
  have len: "length (keyboardbuffer s4 (current_terminal s4)) = BUFFERSIZE"
    using \<open>kbd_ok s4\<close> by (simp add: kbd_ok_def)
  have eff: "s5 = s4\<lparr>keyboardbuffer := (keyboardbuffer s4)(t := replicate BUFFERSIZE 0),
      bufferindex := (bufferindex s4)(t := 0)\<rparr>"
    unfolding s5_def using clear_keyboard_buffer_effect [OF len, of t] by (simp add: t4)
  have s5: "kbd_ok s5" "keeps_others t s4 s5" "line t s5 = []" "functionflags s5 = functionflags s4"
    using \<open>kbd_ok s4\<close> t4
    by (auto simp: eff kbd_ok_def columns_ok_def keeps_others_def kb_reads_def line_def)
  have v6: "kbd_view s6 = kbd_view s5" "columns_ok s6" using s5(1) by (simp_all add: s6_def kbd_ok_def)
  have "read_flag s4 t = OFF" using view_eqD(4) [OF v(1)] s2(4) assms(4) by simp
  then have "handle_enter s = Ok s6"
    unfolding handle_enter_def t_def [symmetric] Let_def
    by (simp only: put bindE_simps s2_def [symmetric] s3_def [symmetric] s4_def [symmetric] s5_def [symmetric]
        refl if_True)
      (simp add: s6_def)
  moreover have "kbd_ok s6" using view_kbd_ok [OF v6] s5(1) by simp
  moreover have "keeps_others t s s6"
    using s2(2) s5(2) view_eqD [OF v(1)] view_translate [OF v(1)] view_eqD [OF v6(1)] view_translate [OF v6(1)]
    by (simp add: keeps_others_def)
  ultimately show ?thesis
    using s2(3) s5(3,4) view_eqD [OF v(1)] view_eqD [OF v6(1)] view_line [OF v6(1), of t] by auto
qed

text \<open>One interrupt, whether somebody reads the terminal or not.\<close>

lemma editor_step_any:
  assumes "kbd_ok s" and "ed_enabled (scancode_of s) (editor_of s)"
  shows "\<exists>s'. keyboard_handler s = Ok (SameTerminal, s') \<and> kbd_ok s' \<and> same_line s s' \<and>
    editor_of s' = (if scancode_of s = KEY_ENTER \<and> read_flag s (current_terminal s) = OFF
      then (editor_of s)\<lparr>ed_line := []\<rparr> else ed_step (scancode_of s) (editor_of s))"
proof (cases "scancode_of s = KEY_ENTER \<and> read_flag s (current_terminal s) = OFF")
  case True
  define f where "f = fetched s"
  define t where "t = current_terminal s"
  note ff = fetched_facts [of s, folded f_def t_def]
  have len: "int (length (ed_line (editor_of s))) = bufferindex s t"
    using length_line [OF assms(1)] by (simp add: editor_of_def t_def Let_def)
  then have "bufferindex f t < int BUFFERSIZE" using assms(2) True ff by (simp add: ed_enabled_def)
  then obtain s' where s': "handle_enter f = Ok s'" "kbd_ok s'" "keeps_others t f s'" "line t s' = []"
    "functionflags s' = functionflags f"
    using enter_discards [of f] assms(1) True ff by (auto simp: t_def)
  have "keyboard_handler s = Ok (SameTerminal, s')"
    using True s'(1) by (simp add: keyboard_handler_fetched Let_def flip: f_def)
  moreover have "editor_of s' = (editor_of f)\<lparr>ed_line := []\<rparr>"
    using s'(3-5) ff by (simp add: editor_of_def keeps_others_def Let_def)
  moreover have "same_line s s'" using same_line_fetched [of s s'] s'(3) by (simp add: f_def t_def)
  ultimately show ?thesis using True s'(2) ff by simp
next
  case False
  then show ?thesis using editor_step [OF assms] by auto
qed

text \<open>
  The whole path of a line. The keys up to an enter arrive while the process waits; it gets the
  edited line with its newline, zeros in the rest of its buffer, and the line buffer is empty
  again.
\<close>

lemma terminal_read_line:
  assumes ok: "kbd_ok s" and kd: "keyboard_device ks (dev s)"
    and keys: "drop (kb_reads s) ks = us @ KEY_ENTER # vs" "KEY_ENTER \<notin> set us"
    and en: "all_enabled (us @ [KEY_ENTER]) (editor_of s)"
    and nl: "CH_NEWLINE \<notin> set (ed_line (editor_of s))"
    and buf: "buf \<noteq> 0" "mapped buf n s"
  defines "L \<equiv> ed_line (fold ed_step us (editor_of s)) @ [CH_NEWLINE]"
  assumes len: "length L \<le> n"
  shows "\<exists>s'. terminal_read (replicate (Suc (length us)) key_irq) buf (int n) s = Ok (int (length L), s') \<and>
    (\<forall>i < n. ld (buf + of_nat i) s' = Ok (if i < length L then L ! i else 0)) \<and>
    line (current_terminal s) s' = [] \<and> current_terminal s' = current_terminal s"
proof -
  define t where "t = current_terminal s"
  define s0 where "s0 = set_read t ON (set_enter t OFF (sti s))"
  let ?e = "fold ed_step us (editor_of s)"
  have s0: "kbd_ok s0" "editor_of s0 = editor_of s" "current_terminal s0 = t" "translate s0 = translate s"
    "dev s0 = dev s" "kb_reads s0 = kb_reads s" "read_flag s0 t \<noteq> OFF" "enter_flag s0 t = OFF"
    using ok by (simp_all add: s0_def set_read_def set_enter_def sti_def kbd_ok_def columns_ok_def
        editor_of_def line_def kb_reads_def t_def)
  obtain s1 where s1: "spin_until (\<lambda>s. enter_flag s t \<noteq> OFF) (replicate (Suc (length us)) key_irq) s0 = Ok s1"
    "kbd_ok s1" "current_terminal s1 = t" "translate s1 = translate s"
    "editor_of s1 = fold ed_step (us @ [KEY_ENTER]) (editor_of s)"
    using keys_end_wait [of s0 ks us vs t] s0 kd keys en by auto
  have line1: "line t s1 = L"
  proof -
    have "ed_line (editor_of s1) = line t s1" using s1(3) by (simp add: editor_of_def Let_def)
    moreover have "ed_line (ed_step KEY_ENTER e) = ed_line e @ [CH_NEWLINE]" for e
      by (simp add: ed_step_def)
    ultimately show ?thesis using s1(5) by (simp add: L_def)
  qed
  have "CH_NEWLINE \<notin> set (ed_line ?e)" by (rule ed_fold_no_newline [OF nl keys(2)])
  define m where "m = length (ed_line ?e)"
  have Lm: "length L = Suc m" "L ! m = CH_NEWLINE" "\<forall>j < m. L ! j \<noteq> CH_NEWLINE"
    using \<open>CH_NEWLINE \<notin> set (ed_line ?e)\<close> by (auto simp: L_def m_def nth_append dest: nth_mem)
  have kb: "length (keyboardbuffer s1 t) = BUFFERSIZE" "int (length L) = bufferindex s1 t"
    "bufferindex s1 t \<le> int BUFFERSIZE"
    using s1(2) length_line [OF s1(2), of t] line1 by (simp_all add: kbd_ok_def)
  then have nth: "keyboardbuffer s1 t ! j = L ! j" if "j < length L" for j
    using that line1 by (auto simp: line_def)
  have map1: "usr_cap buf n s1 = n"
    using buf(2) s1(4) by (simp add: usr_cap_def mapped_def)
  obtain s2 where s2: "for_loopE 0 n (\<lambda>i. ptr_wr buf i 0) s1 = Ok s2" "usr.writes buf n 0 n (\<lambda>_. 0) s1 s2"
    using usr.for_loopE_writes [of 0 n buf n s1 "\<lambda>_. 0"] map1 by auto
  have dr: "keyboardbuffer s2 = keyboardbuffer s1" "current_terminal s2 = t" "translate s2 = translate s1"
  proof -
    have "same_procs s1 s2"
      using s2(2) usr_rest_same_procs by (auto simp: usr.writes_def)
    then obtain mm where "s2 = s1\<lparr>mem := mm\<rparr>" unfolding same_procs_def by blast
    then show "keyboardbuffer s2 = keyboardbuffer s1" "current_terminal s2 = t" "translate s2 = translate s1"
      using s1(3) by simp_all
  qed
  have map2: "usr_cap buf n s2 = n" using s2(2) map1 by (simp add: usr.writes_def)
  have "\<exists>s3. read_line t buf n 0 s2 = Ok (Suc m, s3) \<and>
      usr.writes buf n 0 (Suc m) (\<lambda>j. keyboardbuffer s2 t ! j) s2 s3 \<and>
      current_terminal s3 = current_terminal s2 \<and> translate s3 = translate s2"
    using kb Lm nth len by (intro read_line_copies [OF map2]) (simp_all add: dr)
  then obtain s3 where s3: "read_line t buf n 0 s2 = Ok (Suc m, s3)"
    "usr.writes buf n 0 (Suc m) (\<lambda>j. keyboardbuffer s1 t ! j) s2 s3" "current_terminal s3 = t"
    by (auto simp: dr)
  have "keyboardbuffer s3 = keyboardbuffer s2"
  proof -
    have "same_procs s2 s3" using s3(2) usr_rest_same_procs by (auto simp: usr.writes_def)
    then obtain mm where "s3 = s2\<lparr>mem := mm\<rparr>" unfolding same_procs_def by blast
    then show ?thesis by simp
  qed
  then have len3: "length (keyboardbuffer s3 (current_terminal s3)) = BUFFERSIZE"
    using kb(1) s3(3) by (simp add: dr)
  define s4 where "s4 = set_read t OFF (clear_keyboard_buffer (current_terminal s3) s3)"
  note cl = clear_keyboard_buffer_effect [OF len3, of t, unfolded s3(3)]
  have s4: "line t s4 = []" "current_terminal s4 = t" "\<And>a. ld a s4 = ld a s3"
    using s3(3) by (simp_all add: s4_def cl s3(3) set_read_def line_def ld_def cong: option.case_cong)
  have bytes: "ptr_rd buf i s3 = Ok (if i < length L then L ! i else 0)" if "i < n" for i
    using that s2(2) s3(2) map1 map2 nth Lm(1) by (auto simp: usr.writes_def)
  have "terminal_read (replicate (Suc (length us)) key_irq) buf (int n) s = Ok (int (length L), s4)"
    unfolding terminal_read_def t_def [symmetric] Let_def s0_def [symmetric] s1(1) bindE_simps nat_int s2(1) s3(1)
      split s4_def [symmetric] Lm(1)
    using buf(1) by (simp del: replicate.simps)
  then show ?thesis
    using bytes s4 by (intro exI [of _ s4]) (auto simp: ptr_rd_def t_def)
qed

end
