(* ===== verification/Pit.thy ===== *)
theory Pit
  imports I8259
begin

text \<open>
  The programmable interval timer (\<open>pit.c\<close>): the reload value of channel 0 is sent low byte
  first after a mode byte. The kernel leaves it at the slowest rate, the reload value 65536,
  which the device takes from two zero bytes.
\<close>

abbreviation MAXDIV :: int where "MAXDIV \<equiv> 65536"
abbreviation PIT :: u32 where "PIT \<equiv> 0x00"
abbreviation CHANNEL0 :: u16 where "CHANNEL0 \<equiv> 0x40"
abbreviation COMMANDREG :: u16 where "COMMANDREG \<equiv> 0x43"
abbreviation MODE2 :: u32 where "MODE2 \<equiv> 0x34"
abbreviation OSCILLATOR :: int where "OSCILLATOR \<equiv> 1193182"
abbreviation LOWERMASK :: int where "LOWERMASK \<equiv> 0xFF"
abbreviation UPPERSHIFT :: nat where "UPPERSHIFT \<equiv> 8"

subsection \<open>Operations\<close>

definition set_pit_rate :: "int \<Rightarrow> 'a machine_scheme \<Rightarrow> 'a machine_scheme res" where
  "set_pit_rate hz s =
     (if hz = 0 then Err DivideError
      else
        let divisor = OSCILLATOR sdiv hz;
            s = outb MODE2 COMMANDREG s;
            s = outb (word_of_int (divisor AND LOWERMASK)) CHANNEL0 s
        in Ok (outb (word_of_int (drop_bit UPPERSHIFT divisor)) CHANNEL0 s))"

definition pit_init :: "'a machine_scheme \<Rightarrow> 'a machine_scheme" where
  "pit_init s =
     (let s = outb MODE2 COMMANDREG s;
          s = outb (word_of_int (MAXDIV AND LOWERMASK)) CHANNEL0 s
      in outb (word_of_int (drop_bit UPPERSHIFT MAXDIV)) CHANNEL0 s)"

definition pit_handler :: "'a machine_scheme \<Rightarrow> 'a machine_scheme" where
  "pit_handler s = send_eoi PIT s"

subsection \<open>The device\<close>

text \<open>
  Channel 0: the low byte received since the last mode byte, if any, and the reload value.
  The counter is 16 bits wide and counts 65536 when it is loaded with 0.
\<close>

fun pit_cell :: "u32 option \<times> nat \<Rightarrow> io_event \<Rightarrow> u32 option \<times> nat" where
  "pit_cell (low, n) (Out w p v) =
     (if p = COMMANDREG then (None, n)
      else if p = CHANNEL0 then
        (case low of None \<Rightarrow> (Some v, n)
         | Some l \<Rightarrow> (None, if l = 0 \<and> v = 0 then 65536 else unat l + 256 * unat v))
      else (low, n))"
| "pit_cell c (In w p v) = c"

definition pit_reload :: "'a machine_scheme \<Rightarrow> nat" where
  "pit_reload s = snd (foldl pit_cell (None, 0) (io_log s))"

lemma pit_init_reload: "pit_reload (pit_init s) = 65536"
  by (cases "foldl pit_cell (None, 0) (io_log s)") (simp add: pit_reload_def pit_init_def Let_def)

text \<open>
  A rate the 16-bit divisor can express is programmed exactly; 19 is the lowest one.
\<close>

lemma divisor_range:
  assumes "19 \<le> hz" and "hz \<le> OSCILLATOR"
  shows "1 \<le> OSCILLATOR div hz \<and> OSCILLATOR div hz < 65536"
proof -
  have "OSCILLATOR div hz \<le> OSCILLATOR div 19"
    using assms by (intro zdiv_mono2) auto
  moreover have "0 < OSCILLATOR div hz"
    using assms by (simp add: pos_imp_zdiv_pos_iff)
  ultimately show ?thesis by simp
qed

lemma set_pit_rate_reload:
  assumes "19 \<le> hz" and "hz \<le> OSCILLATOR"
  shows "\<exists>s'. set_pit_rate hz s = Ok s' \<and> pit_reload s' = nat (OSCILLATOR div hz)"
proof -
  define q where "q = nat (OSCILLATOR div hz)"
  have q: "OSCILLATOR sdiv hz = int q" "1 \<le> q" "q < 65536"
    using assms divisor_range [OF assms] by (auto simp: q_def signed_divide_int_def)
  have byte: "unat (take_bit 8 (of_nat n :: u32)) = n" if "n < 256" for n
    using that by (simp only: take_bit_of_nat) (simp add: take_bit_nat_eq_self unat_of_nat_u32)
  have lo: "unat (take_bit 8 (word_of_int (int q AND LOWERMASK) :: u32)) = q mod 256"
  proof -
    have "int q AND 0xFF = int (take_bit 8 q)"
      using take_bit_eq_mask [of 8 "int q"] by (simp add: mask_eq_exp_minus_1 of_nat_take_bit)
    then have "word_of_int (int q AND LOWERMASK) = (of_nat (q mod 256) :: u32)"
      by (simp add: take_bit_eq_mod)
    then show ?thesis using byte [of "q mod 256"] by simp
  qed
  have hi: "unat (take_bit 8 (word_of_int (drop_bit UPPERSHIFT (int q)) :: u32)) = q div 256"
  proof -
    have "drop_bit 8 (int q) = int (q div 256)"
      by (simp add: drop_bit_eq_div zdiv_int)
    then have "word_of_int (drop_bit UPPERSHIFT (int q)) = (of_nat (q div 256) :: u32)"
      by simp
    moreover have "q div 256 < 256" using q(3) by simp
    ultimately show ?thesis using byte [of "q div 256"] by simp
  qed
  have nz: "\<not> (take_bit 8 (word_of_int (int q AND LOWERMASK) :: u32) = 0 \<and>
      take_bit 8 (word_of_int (drop_bit UPPERSHIFT (int q)) :: u32) = 0)"
  proof
    assume "take_bit 8 (word_of_int (int q AND LOWERMASK) :: u32) = 0 \<and>
      take_bit 8 (word_of_int (drop_bit UPPERSHIFT (int q)) :: u32) = 0"
    then have "q mod 256 = 0" "q div 256 = 0" using lo hi by (metis unat_0)+
    then show False using q(2) by (metis div_mult_mod_eq mult_zero_left add_0 not_one_le_zero)
  qed
  show ?thesis
    using assms q nz lo hi
    by (cases "foldl pit_cell (None, 0) (io_log s)")
      (auto simp: pit_reload_def set_pit_rate_def Let_def q_def [symmetric])
qed

end
