(* ===== verification/Call_Frame.thy ===== *)
theory Call_Frame
  imports Process_Table Line_Discipline Pit
begin

text \<open>
  What keys and the calls that do not start, end or open anything leave alone: the processes, up to
  the saved registers of a switch and the file positions of the calling process.
\<close>

subsection \<open>The keyboard does not touch the processes\<close>

lemma foldE_inv:
  assumes "foldE f xs s = Ok t" and "P s" and "\<And>i u v. P u \<Longrightarrow> f i u = Ok v \<Longrightarrow> P v"
  shows "P t"
  using assms(1,2)
proof (induction xs arbitrary: s)
  case (Cons x xs)
  then show ?case by (auto simp: bindE_eq_Ok intro: assms(3))
qed simp

lemma for_loopE_inv:
  assumes "for_loopE a b f s = Ok t" and "P s" and "\<And>i u v. P u \<Longrightarrow> f i u = Ok v \<Longrightarrow> P v"
  shows "P t"
  using assms unfolding for_loopE_def by (rule foldE_inv)

definition procs_of where
  "procs_of s = (current_terminal s, pcbs s, pcb_loc s, prev_pcb s, memoryspace s, prog_count s)"

lemma procs_of_table: "procs_of s' = procs_of s \<Longrightarrow> same_table s s'"
  by (simp add: procs_of_def same_table_def)

text \<open>The processes and their address spaces.\<close>

definition kview where
  "kview s = (procs_of s, tabs s, cr0 s, cr3 s, cr4 s)"

lemmas kview_defs = kview_def procs_of_def

text \<open>What a call or an interrupt that keeps the view keeps of the processes.\<close>

definition steady :: "'a proc_scheme \<Rightarrow> 'b proc_scheme \<Rightarrow> bool" where
  "steady s s' \<longleftrightarrow> same_table s s' \<and> same_spaces s s'"

lemma steady_refl: "steady s s"
  by (simp add: steady_def same_table_refl same_spaces_refl)

lemma steady_trans: "steady s t \<Longrightarrow> steady t u \<Longrightarrow> steady s u"
  by (meson steady_def same_table_trans same_spaces_trans)

lemma kview_steady: "kview s' = kview s \<Longrightarrow> steady s s'"
  by (simp add: kview_defs steady_def same_table_def same_spaces_def)

lemma quiet_procs: "quiet s' = quiet s \<Longrightarrow> kview s' = kview s"
  using quiet_eqD(1-4,12,13) [of s' s] by (cases s; cases s'; simp add: kview_defs)

lemmas procs_quiet [simp] = quiet_procs [OF quiet_putc] quiet_procs [OF quiet_term_putc]
  quiet_procs [OF quiet_setcoords] quiet_procs [OF quiet_clearline] quiet_procs [OF quiet_scroll]
  quiet_procs [OF quiet_clear] quiet_procs [OF quiet_printk]

lemma procs_ports [simp]:
  "kview (send_eoi n s) = kview s" "kview (snd (inb p s)) = kview s"
  by (simp_all add: kview_defs send_eoi_def outb_def port_out_def inb_def port_in_def Let_def)

lemma procs_flags [simp]:
  "kview (set_flag t i v s) = kview s" "kview (set_enter t v s) = kview s"
  "kview (set_read t v s) = kview s" "kview (set_bufferindex t v s) = kview s"
  "kview (set_writeindex t v s) = kview s" "kview (s\<lparr>keyboardbuffer := b\<rparr>) = kview s"
  by (simp_all add: kview_defs set_flag_def set_enter_def set_read_def set_bufferindex_def set_writeindex_def)

lemma procs_clear_buffer [simp]: "kview (clear_keyboard_buffer u s) = kview s"
  unfolding clear_keyboard_buffer_def Let_def procs_flags
  by (rule for_loop_preserves [where P = "\<lambda>t. kview t = kview s"]) simp_all

lemma kb_put_procs: "kb_put t i c s = Ok s' \<Longrightarrow> kview s' = kview s"
  by (auto simp: kb_put_def split: if_splits)

lemma echo_procs: "echo t i s = Ok s' \<Longrightarrow> kview s' = kview s"
  and backspace_echo_procs: "backspace_echo t i s = Ok s' \<Longrightarrow> kview s' = kview s"
  by (auto simp: echo_def backspace_echo_def Let_def bindE_eq_Ok)

lemma procs_loop:
  assumes "for_loopE a b f s = Ok s'" and "\<And>i u v. f i u = Ok v \<Longrightarrow> kview v = kview u"
  shows "kview s' = kview s"
  by (rule for_loopE_inv [OF assms(1), where P = "\<lambda>t. kview t = kview s"]) (auto dest: assms(2))

lemma handle_char_procs: "handle_char sc s = Ok s' \<Longrightarrow> kview s' = kview s"
  by (auto simp: handle_char_def Let_def bindE_eq_Ok split: if_splits
      dest!: kb_put_procs procs_loop [OF _ echo_procs])

lemma handle_backspace_procs: "handle_backspace s = Ok s' \<Longrightarrow> kview s' = kview s"
  by (auto simp: handle_backspace_def Let_def bindE_eq_Ok split: if_splits
      dest!: kb_put_procs procs_loop [OF _ backspace_echo_procs])

lemma handle_enter_procs: "handle_enter s = Ok s' \<Longrightarrow> kview s' = kview s"
  by (auto simp: handle_enter_def Let_def bindE_eq_Ok split: if_splits dest!: kb_put_procs)

lemma handle_ctrl_l_procs:
  assumes "handle_ctrl_l s = Ok s'"
  shows "kview s' = kview s"
proof -
  have "kview v = kview u" if "bindE (wb_get t i u) (\<lambda>c. Ok (putc c u)) = Ok v" for t i u and v :: "'a kbd_scheme"
    using that by (auto simp: bindE_eq_Ok)
  moreover have "kview v = kview u" if "bindE (kb_get t i u) (\<lambda>c. Ok (putc c u)) = Ok v" for t i u and v :: "'a kbd_scheme"
    using that by (auto simp: bindE_eq_Ok)
  ultimately show ?thesis
    using assms by (auto simp: handle_ctrl_l_def Let_def bindE_eq_Ok dest!: procs_loop)
qed

subsection \<open>Switching terminals\<close>

lemma ptr_wr_procs: "ptr_wr p i v s = Ok s' \<Longrightarrow> kview s' = kview s"
  by (auto simp: ptr_wr_def st_def kview_defs split: option.splits)

lemma copy_virtual_procs: "copy_virtual d p n s = Ok s' \<Longrightarrow> kview s' = kview s"
  unfolding copy_virtual_def by (erule procs_loop) (auto simp: bindE_eq_Ok dest: ptr_wr_procs)

lemma set_attributes_procs: "set_attributes s = Ok s' \<Longrightarrow> kview s' = kview s"
  unfolding set_attributes_def
  by (erule procs_loop) (auto simp: st_def kview_defs split: option.splits)

text \<open>The table of the other terminal: the same processes, seen from there.\<close>

definition same_processes :: "'a proc_scheme \<Rightarrow> 'b proc_scheme \<Rightarrow> bool" where
  "same_processes s s' \<longleftrightarrow> prog_count s' = prog_count s \<and>
     memoryspace s' = memoryspace s \<and> pcb_loc s' = pcb_loc s \<and>
     tabs s' = tabs s \<and> cr0 s' = cr0 s \<and> cr4 s' = cr4 s \<and>
     (\<forall>a. pagedir (pcbs s' a) = pagedir (pcbs s a) \<and> curr_pd (pcbs s' a) = curr_pd (pcbs s a)) \<and>
     (\<forall>a. pid (pcbs s' a) = pid (pcbs s a) \<and> lastpcb_ptr (pcbs s' a) = lastpcb_ptr (pcbs s a) \<and>
       file_desc (pcbs s' a) = file_desc (pcbs s a) \<and> length (args (pcbs s' a)) = length (args (pcbs s a)))"

text \<open>
  The directory of the process that continues on the terminal is loaded; when the terminal has no
  process, or is the current one, the directory stays.
\<close>

definition switched :: "nat \<Rightarrow> 'a proc_scheme \<Rightarrow> 'b proc_scheme \<Rightarrow> bool" where
  "switched term s s' \<longleftrightarrow> same_processes s s' \<and> current_terminal s' = term \<and>
     cr3 s' = (if current_terminal s = term \<or> prog_count s term = 0 then cr3 s
       else curr_pd (pcbs s (pcb_loc s term)))"

lemma kview_processes: "kview s' = kview s \<Longrightarrow> same_processes s s'"
  by (simp add: kview_defs same_processes_def)

lemma kview_switched: "kview s' = kview s \<Longrightarrow> switched (current_terminal s) s s'"
  by (simp add: switched_def kview_processes) (simp add: kview_defs)

lemma switched_cong:
  "kview s = kview r \<Longrightarrow> kview s' = kview r' \<Longrightarrow> switched term s s' = switched term r r'"
  by (simp add: switched_def same_processes_def kview_defs)

lemma process_table_other:
  assumes "process_table s S" and "same_processes s s'" and "current_terminal s' < 3"
  shows "process_table s' S"
proof -
  have "chain (pcbs s') ps = chain (pcbs s) ps" for ps
    using assms(2) by (intro chain_cong) (simp add: same_processes_def)
  then show ?thesis
    using assms by (simp add: process_table_def same_processes_def pcb_shape_def flags_small_def)
qed

lemma quiet_keyboard_helper: "quiet (keyboard_helper s) = quiet s"
  unfolding keyboard_helper_def Let_def by (simp only: quiet_printk)

lemma terminal_switch_switched:
  assumes "terminal_switch term s = Ok (e, s')"
  shows "switched term s s'"
proof (cases "current_terminal s = term")
  case True
  then show ?thesis using assms kview_switched [of s' s] by (simp add: terminal_switch_def)
next
  case False
  then obtain s1 s2 s3 s4 s5 where steps:
    "copy_virtual (background (current_terminal s)) VID_MEM VID_MEM_SIZE s = Ok s1"
    "copy_virtual VID_MEM (background term) VID_MEM_SIZE s1 = Ok s2" "set_attributes s2 = Ok s3"
    "upd_pcb (cur_loc s3) (\<lambda>p. p\<lparr>curr_esp := esp s3\<rparr>) s3 = Ok s4"
    "upd_pcb (cur_loc s4) (\<lambda>p. p\<lparr>curr_ebp := ebp s4\<rparr>) s4 = Ok s5"
    using assms by (auto simp: terminal_switch_def bindE_eq_Ok)
  have "kview s3 = kview s"
    using copy_virtual_procs [OF steps(1)] copy_virtual_procs [OF steps(2)] set_attributes_procs [OF steps(3)]
    by simp
  then have s5: "same_processes s s5 \<and> cr3 s5 = cr3 s"
    using steps(4,5) by (auto simp: upd_pcb_def kview_defs same_processes_def split: if_splits)
  define s6 where "s6 = send_eoi KEYBOARD (s5\<lparr>current_terminal := term\<rparr>)"
  have s6: "same_processes s s6 \<and> current_terminal s6 = term \<and> cr3 s6 = cr3 s"
    using s5 by (simp add: s6_def same_processes_def send_eoi_def outb_def port_out_def)
  have tail: "(if prog_count s6 term = 0 then
        if total_count s6 < int MAX_PROCESSES then Ok (StartShell, s6)
        else Ok (NoRoom, keyboard_helper (clear s6))
      else
        bindE (cur_pcb (s6\<lparr>tss_ss0 := KERNEL_DS\<rparr>)) (\<lambda>p.
        Ok (Resumed, s6\<lparr>tss_ss0 := KERNEL_DS, tss_esp0 := 0x00800000 - (pid p + 1) * MAX_STACK,
          ebp := curr_ebp p, esp := curr_esp p, cr3 := curr_pd p\<rparr>))) = Ok (e, s')"
    using assms [unfolded terminal_switch_def Let_def] False steps s6 [unfolded s6_def] unfolding s6_def
    by simp
  show ?thesis
  proof (cases "prog_count s6 term = 0")
    case True
    have "kview (keyboard_helper (clear s6)) = kview s6"
      by (simp add: quiet_procs [OF quiet_keyboard_helper])
    with True tail have "kview s' = kview s6" by (auto split: if_splits)
    then have "same_processes s6 s' \<and> current_terminal s' = current_terminal s6 \<and> cr3 s' = cr3 s6"
      by (simp add: kview_processes) (simp add: kview_defs)
    with s6 True show ?thesis by (simp add: switched_def same_processes_def)
  next
    case False
    have "curr_pd (pcbs s6 (pcb_loc s6 term)) = curr_pd (pcbs s (pcb_loc s term))"
      using s6 by (simp add: same_processes_def)
    with False tail s6 \<open>current_terminal s \<noteq> term\<close> show ?thesis
      by (auto simp: bindE_eq_Ok switched_def same_processes_def cur_pcb_def get_pcb_def cur_loc_def
          split: if_splits)
  qed
qed

subsection \<open>A key\<close>

lemma handle_switch_switched:
  assumes "handle_switch term s = Ok (e, s')"
  shows "switched term s s'"
proof -
  obtain s1 where s1: "terminal_switch term s = Ok (e, s1)" "kview s' = kview s1"
    using assms by (auto simp: handle_switch_def bindE_eq_Ok split: if_splits)
  with terminal_switch_switched [OF s1(1)] show ?thesis by (simp add: switched_cong [of s s s' s1])
qed

lemma keyboard_handler_switched:
  assumes "keyboard_handler s = Ok (e, s')"
  shows "\<exists>u. (u = current_terminal s \<or> u < 3) \<and> switched u s s'"
proof -
  have f: "kview (fetched s) = kview s" by (simp add: fetched_def)
  have "kview s' = kview (fetched s) \<or>
    (\<exists>u < 3. handle_switch u (fetched s) = Ok (e, s'))"
    using assms unfolding keyboard_handler_fetched Let_def handle_default_def
    by (auto simp: bindE_eq_Ok split: if_splits
        dest!: handle_char_procs handle_backspace_procs handle_enter_procs handle_ctrl_l_procs)
  then show ?thesis
  proof
    assume "kview s' = kview (fetched s)"
    with f show ?thesis using kview_switched [of s' s] by auto
  next
    assume "\<exists>u < 3. handle_switch u (fetched s) = Ok (e, s')"
    then obtain u where "u < 3" "switched u (fetched s) s'"
      using handle_switch_switched by blast
    then show ?thesis using switched_cong [OF f refl] by blast
  qed
qed

subsection \<open>Reading and writing\<close>

lemma same_procs_procs: "same_procs s s' \<Longrightarrow> kview s' = kview s"
  unfolding same_procs_def by (cases s; cases s'; simp add: kview_defs)

lemma copy_out_procs: "copy_out p bs s = Ok s' \<Longrightarrow> kview s' = kview s"
  unfolding copy_out_def by (erule procs_loop) (rule ptr_wr_procs)

lemma read_line_procs: "read_line t buf left i s = Ok (n, s') \<Longrightarrow> kview s' = kview s"
proof (induction left arbitrary: i s)
  case (Suc left)
  from Suc.prems obtain c u where "ptr_wr buf i c s = Ok u" "kview u = kview s"
    and u: "(if c = CH_NEWLINE then Ok (Suc i, u) else read_line t buf left (Suc i) u) = Ok (n, s')"
    by (auto simp: bindE_eq_Ok dest: ptr_wr_procs)
  then show ?case using Suc.IH [of "Suc i" u] by (auto split: if_splits)
qed simp

text \<open>
  The interrupts that arrive while a call waits: keys and ticks that do not switch terminals. A
  switch does not return to the call; it continues with the stack of another process.
\<close>

definition stays :: "('a kbd_scheme \<Rightarrow> 'a kbd_scheme res) \<Rightarrow> bool" where
  "stays h \<longleftrightarrow> (\<forall>s s'. h s = Ok s' \<longrightarrow> steady s s')"

definition staying_key :: "'a kbd_scheme \<Rightarrow> 'a kbd_scheme res" where
  "staying_key s = bindE (keyboard_handler s) (\<lambda>(e, s'). if e = SameTerminal then Ok s' else Err Diverges)"

lemma procs_tick: "kview (rtc_handler s) = kview s" "kview (pit_handler s) = kview s"
  by (simp_all add: rtc_handler_def Let_def kview_defs send_eoi_def outb_def port_out_def inb_def port_in_def
      enable_irq_def sti_def pit_handler_def)

lemma stays_ticks: "stays (\<lambda>s. Ok (rtc_handler s))" "stays (\<lambda>s. Ok (pit_handler s))"
  by (auto simp: stays_def intro!: kview_steady procs_tick)

lemma switch_same:
  assumes "handle_switch term s = Ok (SameTerminal, s')"
  shows "kview s' = kview s"
proof -
  obtain u where u: "terminal_switch term s = Ok (SameTerminal, u)" "kview s' = kview u"
    using assms by (auto simp: handle_switch_def bindE_eq_Ok)
  have "current_terminal s = term"
    using u(1) by (rule_tac ccontr) (auto simp: terminal_switch_def Let_def bindE_eq_Ok split: if_splits)
  then show ?thesis using u by (simp add: terminal_switch_def)
qed

lemma stays_key: "stays staying_key"
proof -
  have "kview s' = kview s" if "keyboard_handler s = Ok (SameTerminal, s')" for s s' :: "'x kbd_scheme"
  proof -
    have f: "kview (fetched s) = kview s" by (simp add: fetched_def)
    have "kview s' = kview (fetched s)"
      using that unfolding keyboard_handler_fetched Let_def handle_default_def
      by (auto simp: bindE_eq_Ok split: if_splits
          dest!: handle_char_procs handle_backspace_procs handle_enter_procs handle_ctrl_l_procs switch_same)
    with f show ?thesis by simp
  qed
  then show ?thesis
    by (auto simp: stays_def staying_key_def bindE_eq_Ok split: if_splits intro!: kview_steady)
qed

lemma rtc_read_table:
  assumes "rtc_read irqs s = Ok (r, s')" and "\<forall>h \<in> set irqs. stays h"
  shows "steady s s'"
proof -
  obtain u where u: "spin_until (\<lambda>s. int_flag s = HIGH) irqs (sti s) = Ok u" "s' = u\<lparr>int_flag := LOW\<rparr>"
    using assms(1) by (auto simp: rtc_read_def Let_def bindE_eq_Ok)
  have "steady (sti s) u"
    by (rule spin_until_inv [where P = "steady (sti s)", OF u(1) steady_refl])
      (use assms(2) in \<open>auto simp: stays_def intro: steady_trans\<close>)
  then show ?thesis by (simp add: u(2) steady_def same_table_def same_spaces_def sti_def)
qed

text \<open>
  Reading a line has two parts, before and after the wait. The second takes the terminal that was
  current in the first, which the code keeps in a local variable.
\<close>

definition line_wait :: "'a kbd_scheme \<Rightarrow> 'a kbd_scheme" where
  "line_wait s =
     (let t = current_terminal s;
          s = sti s;
          s = set_enter t OFF s
      in set_read t ON s)"

definition line_read :: "nat \<Rightarrow> u32 \<Rightarrow> int \<Rightarrow> 'a kbd_scheme \<Rightarrow> (int \<times> 'a kbd_scheme) res" where
  "line_read t buf nbytes s =
     bindE (for_loopE 0 (nat nbytes) (\<lambda>i. ptr_wr buf i 0) s) (\<lambda>s.
     bindE (read_line t buf (nat nbytes) 0 s) (\<lambda>(bytes_read, s).
     let s = clear_keyboard_buffer (current_terminal s) s
     in Ok (int bytes_read, set_read t OFF s)))"

lemma terminal_read_parts:
  "terminal_read irqs buf n s =
     (if buf = 0 \<or> n < 0 then Ok (-1, s)
      else bindE (spin_until (\<lambda>u. enter_flag u (current_terminal s) \<noteq> OFF) irqs (line_wait s))
        (line_read (current_terminal s) buf n))"
  by (auto simp: terminal_read_def line_wait_def line_read_def Let_def intro!: arg_cong2 [where f = bindE])

lemma line_wait_procs: "kview (line_wait s) = kview s"
  by (simp add: line_wait_def Let_def kview_defs sti_def set_read_def set_enter_def)

lemma line_read_procs: "line_read t buf n s = Ok (r, s') \<Longrightarrow> kview s' = kview s"
  by (auto simp: line_read_def Let_def bindE_eq_Ok dest!: procs_loop [OF _ ptr_wr_procs] read_line_procs)

lemma terminal_read_table:
  assumes "terminal_read irqs buf n s = Ok (r, s')" and "\<forall>h \<in> set irqs. stays h"
  shows "steady s s'"
proof (cases "buf = 0 \<or> n < 0")
  case True
  then show ?thesis using assms(1) steady_refl by (auto simp: terminal_read_parts)
next
  case False
  then obtain u where u: "spin_until (\<lambda>u. enter_flag u (current_terminal s) \<noteq> OFF) irqs (line_wait s) = Ok u"
    "line_read (current_terminal s) buf n u = Ok (r, s')"
    using assms(1) by (auto simp: terminal_read_parts bindE_eq_Ok)
  have "steady (line_wait s) u"
    by (rule spin_until_inv [where P = "steady (line_wait s)", OF u(1) steady_refl])
      (use assms(2) in \<open>auto simp: stays_def intro: steady_trans\<close>)
  then show ?thesis
    using kview_steady [OF line_wait_procs] kview_steady [OF line_read_procs [OF u(2)]] steady_trans by blast
qed

lemma wb_put_procs: "wb_put t i c s = Ok s' \<Longrightarrow> kview s' = kview s"
  by (auto simp: wb_put_def kview_defs split: if_splits)

lemma write_char_procs: "write_char buf i s = Ok s' \<Longrightarrow> kview s' = kview s"
  by (auto simp: write_char_def Let_def bindE_eq_Ok split: if_splits dest!: wb_put_procs)

lemma terminal_write_procs:
  assumes "terminal_write buf n s = Ok (r, s')"
  shows "kview s' = kview s"
proof -
  have w: "kview v = kview u"
    if "for_loopE 0 k (\<lambda>i s. wb_put (current_terminal s) (int i) 0 s) u = Ok v" for k and u v :: "'a kbd_scheme"
    using that by (rule procs_loop) (rule wb_put_procs)
  have c: "kview v = kview u" if "for_loopE 0 k (write_char buf) u = Ok v" for k and u v :: "'a kbd_scheme"
    using that by (rule procs_loop) (rule write_char_procs)
  show ?thesis
    using assms by (auto simp: terminal_write_def Let_def bindE_eq_Ok split: if_splits dest!: w c)
qed

lemma procs_outb: "kview (outb v p s) = kview s"
  by (simp add: kview_defs outb_def port_out_def)

lemma rtc_write_procs: "rtc_write buf s = Ok (r, s') \<Longrightarrow> kview s' = kview s"
  by (auto simp: rtc_write_def Let_def split_beta bindE_eq_Ok procs_outb split: if_splits)

text \<open>Reading a file or a directory also moves the position of the descriptor.\<close>

definition moves :: "nat \<Rightarrow> 'a proc_scheme \<Rightarrow> 'a proc_scheme \<Rightarrow> bool" where
  "moves i s s' \<longleftrightarrow> kview s' = kview s \<or>
     (\<exists>x. kview s' = kview (put_fd i ((fds s ! i)\<lparr>file_pos := x\<rparr>) s))"

lemma upd_pos_moves:
  assumes "upd_fd fd (\<lambda>e. e\<lparr>file_pos := g e\<rparr>) u = Ok s'" and "kview u = kview s"
    and "cur_loc s \<noteq> 0"
  shows "moves (nat fd) s s'"
proof -
  have c: "cur_loc u = cur_loc s" "fds u = fds s"
    using assms(2) by (simp_all add: kview_defs cur_loc_def fds_def)
  have "0 \<le> fd" "fd < int (length (fds u))"
    using assms(1) c assms(3)
    by (auto simp: upd_fd_def get_fd_def cur_pcb_def get_pcb_def fds_def bindE_eq_Ok split: if_splits)
  then have "s' = put_fd (nat fd) ((fds u ! nat fd)\<lparr>file_pos := g (fds u ! nat fd)\<rparr>) u"
    using assms(1,3) c upd_fd_put [of u fd] by auto
  then show ?thesis
    using assms(2) c by (auto simp: moves_def kview_defs put_fd_def fds_def)
qed

lemma read_fields:
  "kview u = kview s \<Longrightarrow> cur_loc u = cur_loc s \<and> fds u = fds s"
  by (simp add: kview_defs cur_loc_def fds_def)

lemma fs_read_moves:
  assumes "fs_read fd buf n s = Ok (r, s')" and "cur_loc s \<noteq> 0"
  shows "moves (nat fd) s s'"
proof (cases "kview s' = kview s")
  case False
  obtain e fl c d where e: "get_fd fd s = Ok e" "inode_length (\<lambda>a. ld a s) (boot s) (inode_ptr e) = Ok fl"
    "read_dentry_by_index (\<lambda>a. ld a s) (boot s) (inode_ptr e) = Ok (c, d)" "buf \<noteq> 0" "c \<noteq> -1"
    using assms(1) False by (auto simp: fs_read_def Let_def bindE_eq_Ok split: if_splits)
  then obtain k u where u: "read_data (\<lambda>s a. ld a s) (ptr_wr buf) False (boot s) (data s) (inode_ptr e) (file_pos e)
        (word_of_int n) s = Ok (k, u)"
    and s': "s' = u \<or> upd_fd fd (\<lambda>e. e\<lparr>file_pos := file_pos e + word_of_int k\<rparr>) u = Ok s'"
    using assms(1) by (auto simp: fs_read_def Let_def bindE_eq_Ok split: if_splits)
  have pu: "kview u = kview s" using same_procs_procs [OF read_data_same_procs [OF u]] .
  from s' show ?thesis
  proof
    assume "upd_fd fd (\<lambda>e. e\<lparr>file_pos := file_pos e + word_of_int k\<rparr>) u = Ok s'"
    then show ?thesis using pu assms(2) by (rule upd_pos_moves)
  qed (use pu in \<open>simp add: moves_def\<close>)
qed (simp add: moves_def)

lemma dir_read_moves:
  assumes "dir_read fd buf n s = Ok (r, s')" and "cur_loc s \<noteq> 0"
  shows "moves (nat fd) s s'"
proof (cases "kview s' = kview s")
  case False
  then obtain bs u x where u: "copy_out buf bs s = Ok u" "upd_fd fd (\<lambda>e. e\<lparr>file_pos := x\<rparr>) u = Ok s'"
    using assms(1)
    by (auto simp: dir_read_def Let_def bindE_eq_Ok split: if_splits option.splits)
  show ?thesis using u(2) copy_out_procs [OF u(1)] assms(2) by (rule upd_pos_moves)
qed (simp add: moves_def)

end
