(* ===== verification/Isolation.thy ===== *)
theory Isolation
  imports Call_Frame
begin

text \<open>
  The address spaces of the live processes: each has the tables that \<open>progs_init\<close> built for its
  number, no other process's start touches them, the PCBs name the directories, and the directory
  of the process that runs is loaded.
\<close>

subsection \<open>Tables of different processes\<close>

definition tables_at :: "layout \<Rightarrow> nat \<Rightarrow> u32 list" where
  "tables_at L k = [prog_pd L k, prog_pt L k, prog_vt L k, prog_term L k]"

lemma distinct_concat_map:
  "distinct (concat (map f xs)) \<Longrightarrow> distinct xs \<Longrightarrow> x \<in> set xs \<Longrightarrow> y \<in> set xs \<Longrightarrow> x \<noteq> y \<Longrightarrow>
   set (f x) \<inter> set (f y) = {}"
  by (induction xs) auto

lemma tables_apart:
  assumes "layout_ok L" and "p < 6" and "q < 6" and "p \<noteq> q"
  shows "set (tables_at L (Suc p)) \<inter> set (tables_at L (Suc q)) = {}"
proof -
  have "distinct (concat (map (tables_at L) [1..<7]))"
    using assms(1) unfolding layout_ok_def tables_of_def tables_at_def distinct_append by blast
  then show ?thesis using assms(2-4) by (intro distinct_concat_map) auto
qed

lemma boot_tables_apart:
  assumes "layout_ok L" and "p < 6"
  shows "{page_directory L, vid_table L} \<inter> set (tables_at L (Suc p)) = {}"
proof -
  have "set [page_directory L, page_table L, vid_table L] \<inter> set (concat (map (tables_at L) [1..<7])) = {}"
    using assms(1) unfolding layout_ok_def tables_of_def tables_at_def distinct_append by blast
  moreover have "Suc p \<in> set [1..<7]" using assms(2) by simp
  then have "set (tables_at L (Suc p)) \<subseteq> set (concat (map (tables_at L) [1..<7]))"
    unfolding set_concat set_map by blast
  ultimately show ?thesis by auto
qed

text \<open>The start of process \<open>p\<close> writes the four tables of \<open>p\<close> only.\<close>

lemma progs_init_other:
  assumes "layout_ok L" and "p < 6" and "b \<notin> set (tables_at L (Suc p))"
  shows "tabs (progs_init L (of_nat p) s) b = tabs s b"
proof -
  have k: "1 \<le> Suc p" "Suc p < 7" using assms(2) by simp_all
  obtain base where "progs_init L (of_nat p) s =
      prog_init (prog_pd L (Suc p)) (prog_pt L (Suc p)) (prog_vt L (Suc p)) (prog_term L (Suc p)) base s"
    using progs_init_eq [OF assms(2)] by blast
  then show ?thesis
    using assms(3) unfolding tables_at_def
    by (simp add: prog_init_tabs [OF layout_okD(1,3,4,5) [OF assms(1) k]])
qed

definition has_space :: "layout \<Rightarrow> (u32 \<Rightarrow> nat \<Rightarrow> u32) \<Rightarrow> nat \<Rightarrow> bool" where
  "has_space L T p \<longleftrightarrow>
     space T (prog_pd L (Suc p)) (prog_pt L (Suc p)) (prog_vt L (Suc p)) (prog_term L (Suc p) OR PRWS_BIT)
       (user_page p) \<and>
     (\<forall>i < TABLE_SIZE. T (prog_term L (Suc p)) i = term_table (\<lambda>_. 0) i)"

lemma has_space_cong:
  "(\<And>b. b \<in> set (tables_at L (Suc p)) \<Longrightarrow> T' b = T b) \<Longrightarrow> has_space L T' p = has_space L T p"
  by (simp add: has_space_def space_def tables_at_def)

lemma has_space_progs_init:
  assumes "layout_ok L" and "p < 6" and "q < 6" and "tables_clear L (tabs s)"
    and "q \<noteq> p \<Longrightarrow> has_space L (tabs s) q"
  shows "has_space L (tabs (progs_init L (of_nat p) s)) q"
proof (cases "q = p")
  case True
  then show ?thesis using progs_init_space(1,2) [OF assms(1,4,2)] by (simp add: has_space_def)
next
  case False
  have "tabs (progs_init L (of_nat p) s) b = tabs s b" if "b \<in> set (tables_at L (Suc q))" for b
    using tables_apart [OF assms(1,2,3)] False that by (intro progs_init_other [OF assms(1,2)]) blast
  then show ?thesis using assms(5) False has_space_cong by blast
qed

lemma unused_clear_cong: "T' pd = T pd \<Longrightarrow> T' vt = T vt \<Longrightarrow> unused_clear T' pd vt = unused_clear T pd vt"
  by (simp add: unused_clear_def)

lemma progs_init_clear:
  assumes "layout_ok L" and "p < 6" and "tables_clear L (tabs s)"
  shows "tables_clear L (tabs (progs_init L (of_nat p) s))"
proof -
  let ?T = "tabs (progs_init L (of_nat p) s)"
  have "page_directory L \<notin> set (tables_at L (Suc p))" "vid_table L \<notin> set (tables_at L (Suc p))"
    using boot_tables_apart [OF assms(1,2)] by blast+
  then have b: "?T (page_directory L) = tabs s (page_directory L)" "?T (vid_table L) = tabs s (vid_table L)"
    using progs_init_other [OF assms(1,2)] by blast+
  have "unused_clear ?T (prog_pd L k) (prog_vt L k)" if k: "1 \<le> k" "k < 7" for k
  proof (cases "k = Suc p")
    case True
    have "space ?T (prog_pd L k) (prog_pt L k) (prog_vt L k) (prog_term L k OR PRWS_BIT) (user_page p)"
      using progs_init_space(1) [OF assms(1,3,2)] True by simp
    then show ?thesis by (simp add: space_def unused_clear_def)
  next
    case False
    have "set (tables_at L (Suc p)) \<inter> set (tables_at L (Suc (k - 1))) = {}"
      using k False assms(2) by (intro tables_apart [OF assms(1)]) auto
    then have "prog_pd L k \<notin> set (tables_at L (Suc p))" "prog_vt L k \<notin> set (tables_at L (Suc p))"
      using k unfolding tables_at_def [of L "Suc (k - 1)"] by auto
    then have "?T (prog_pd L k) = tabs s (prog_pd L k)" "?T (prog_vt L k) = tabs s (prog_vt L k)"
      using progs_init_other [OF assms(1,2)] by blast+
    then have "unused_clear ?T (prog_pd L k) (prog_vt L k) = unused_clear (tabs s) (prog_pd L k) (prog_vt L k)"
      by (rule unused_clear_cong)
    then show ?thesis using assms(3) k by (simp add: tables_clear_def)
  qed
  then show ?thesis
    using assms(3) b unused_clear_cong [OF b] by (simp add: tables_clear_def)
qed

subsection \<open>Directories along a stack\<close>

text \<open>Each process resumes in its own directory, and ends in the one of its parent.\<close>

fun links :: "layout \<Rightarrow> (u32 \<Rightarrow> pcb) \<Rightarrow> nat list \<Rightarrow> bool" where
  "links L P [] = True"
| "links L P [p] = (curr_pd (P (slot_loc p)) = prog_pd L (Suc p))"
| "links L P (p # q # ps) = (curr_pd (P (slot_loc p)) = prog_pd L (Suc p) \<and>
     pagedir (P (slot_loc p)) = prog_pd L (Suc q) \<and> links L P (q # ps))"

lemma links_cong:
  "(\<And>p. p \<in> set ps \<Longrightarrow> pagedir (P (slot_loc p)) = pagedir (Q (slot_loc p)) \<and>
     curr_pd (P (slot_loc p)) = curr_pd (Q (slot_loc p))) \<Longrightarrow> links L P ps = links L Q ps"
  by (induction L P ps rule: links.induct) auto

lemma links_mem: "links L P ps \<Longrightarrow> p \<in> set ps \<Longrightarrow> curr_pd (P (slot_loc p)) = prog_pd L (Suc p)"
  by (induction L P ps rule: links.induct) auto

lemma links_Cons:
  "links L P (p # ps) \<longleftrightarrow> curr_pd (P (slot_loc p)) = prog_pd L (Suc p) \<and>
     (ps \<noteq> [] \<longrightarrow> pagedir (P (slot_loc p)) = prog_pd L (Suc (hd ps))) \<and> links L P ps"
  by (cases ps) auto

subsection \<open>The invariant\<close>

definition isolated :: "layout \<Rightarrow> 'a proc_scheme \<Rightarrow> stacks \<Rightarrow> bool" where
  "isolated L s S \<longleftrightarrow> paging_on s \<and> tables_clear L (tabs s) \<and>
     (\<forall>p \<in> set (live S). has_space L (tabs s) p) \<and> (\<forall>t < 3. links L (pcbs s) (S t)) \<and>
     (S (current_terminal s) \<noteq> [] \<longrightarrow> cr3 s = prog_pd L (Suc (hd (S (current_terminal s)))))"

text \<open>It only looks at the tables, the registers and the directories in the PCBs.\<close>

lemma isolated_steady:
  assumes "isolated L s S" and "steady s s'"
  shows "isolated L s' S"
proof -
  have "links L (pcbs s') ps = links L (pcbs s) ps" for ps
    using assms(2) by (intro links_cong) (simp add: steady_def same_spaces_def)
  then show ?thesis
    using assms by (simp add: isolated_def steady_def same_spaces_def same_table_def paging_on_def)
qed

text \<open>A change of the descriptors of a process.\<close>

lemma isolated_files:
  assumes "isolated L s S"
    and "kview s' = kview (s\<lparr>pcbs := (pcbs s)(a := (pcbs s a)\<lparr>file_desc := F\<rparr>)\<rparr>)"
  shows "isolated L s' S"
proof -
  have p: "pcbs s' = (pcbs s)(a := (pcbs s a)\<lparr>file_desc := F\<rparr>)"
    using assms(2) by (simp add: kview_defs)
  have "links L (pcbs s') ps = links L (pcbs s) ps" for ps
    by (rule links_cong) (simp add: p)
  then show ?thesis
    using assms by (simp add: isolated_def kview_defs paging_on_def)
qed

text \<open>A switch loads the directory of the process that continues.\<close>

lemma isolated_switched:
  assumes "process_table s S" and "isolated L s S" and "switched t s s'" and "t < 3"
  shows "isolated L s' S"
proof -
  note D = process_tableD [OF assms(1)]
  have "links L (pcbs s') ps = links L (pcbs s) ps" for ps
    using assms(3) by (intro links_cong) (simp add: switched_def same_processes_def)
  moreover have "cr3 s' = prog_pd L (Suc p)" if S: "S t = p # ps" for p ps
  proof (cases "current_terminal s = t")
    case True
    then show ?thesis using assms(2,3) S by (simp add: isolated_def switched_def)
  next
    case False
    then have "cr3 s' = curr_pd (pcbs s (slot_loc p))"
      using assms(3) S D(3,7) [OF assms(4)] by (simp add: switched_def)
    also have "\<dots> = prog_pd L (Suc p)"
      using assms(2,4) by (intro links_mem [of L _ "S t"]) (simp add: isolated_def, simp add: S)
    finally show ?thesis .
  qed
  ultimately show ?thesis
    using assms(2,3) by (auto simp: isolated_def switched_def same_processes_def paging_on_def neq_Nil_conv)
qed

text \<open>The end of a process loads the directory of its parent.\<close>

lemma halt_process:
  assumes "process_table s S" and "S (current_terminal s) = p # ps"
  defines "t \<equiv> current_terminal s" and "q \<equiv> pcbs s (cur_loc s)"
  shows "halt c s = Ok (s\<lparr>pcbs := (pcbs s)(cur_loc s := q\<lparr>file_desc := closed_fds s, status := c\<rparr>),
      prog_count := (prog_count s)(t := prog_count s t - 1),
      memoryspace := (memoryspace s)(unat (pid q) := 0),
      tss_ss0 := KERNEL_DS, tss_esp0 := kernel_stack (pid (pcbs s (lastpcb_ptr q))),
      ebp := pcb_ebp q, esp := pcb_esp q, cr3 := pagedir q\<rparr>)"
proof -
  note C = current_process [OF assms(1,2)]
  have "unat (of_nat p :: u32) = p" using C(2) by (simp add: unat_of_nat_u32)
  then show ?thesis
    using C(1,2,4) parent_loc(2) [OF assms(1,2)] unfolding t_def q_def by (intro halt_run [OF C(5)]) simp_all
qed

lemma halt_ret_state:
  assumes "halt_ret s = Ok (r, s')"
  shows "\<exists>f. s' = s\<lparr>pcb_loc := f\<rparr>"
proof -
  have "s' = s \<or> (\<exists>f. s' = s\<lparr>pcb_loc := f\<rparr>)"
    using assms by (auto simp: halt_ret_def Let_def bindE_eq_Ok split: if_splits)
  moreover have "s = s\<lparr>pcb_loc := pcb_loc s\<rparr>" by simp
  ultimately show ?thesis by metis
qed

lemma isolated_halt:
  assumes "process_table s S" and "isolated L s S" and "S (current_terminal s) = p # ps"
    and "halt c s = Ok s1" and "halt_ret s1 = Ok (r, s')"
  shows "isolated L s' (pop (current_terminal s) S)"
proof -
  let ?t = "current_terminal s"
  note C = current_process [OF assms(1,3)]
  note D = process_tableD [OF assms(1)]
  have s1: "pagedir (pcbs s1 a) = pagedir (pcbs s a) \<and> curr_pd (pcbs s1 a) = curr_pd (pcbs s a)"
    "tabs s1 = tabs s" "cr0 s1 = cr0 s" "cr4 s1 = cr4 s" "current_terminal s1 = ?t"
    "cr3 s1 = pagedir (pcbs s (slot_loc p))" for a
    using assms(4) C(1) halt_process [OF assms(1,3), of c] by auto
  obtain f where "s' = s1\<lparr>pcb_loc := f\<rparr>" using halt_ret_state [OF assms(5)] by blast
  then have s': "pcbs s' = pcbs s1" "tabs s' = tabs s" "cr0 s' = cr0 s" "cr4 s' = cr4 s"
    "current_terminal s' = ?t" "cr3 s' = pagedir (pcbs s (slot_loc p))"
    using s1 by auto
  have same: "links L (pcbs s') ls = links L (pcbs s) ls" for ls
    by (rule links_cong) (simp add: s'(1) s1(1))
  have "links L (pcbs s) (p # ps)" using assms(2,3) D(2) by (auto simp: isolated_def)
  then have "links L (pcbs s) ps" "ps \<noteq> [] \<longrightarrow> pagedir (pcbs s (slot_loc p)) = prog_pd L (Suc (hd ps))"
    by (simp_all add: links_Cons)
  moreover have "set (live (pop ?t S)) \<subseteq> set (live S)"
    using stacks_pop(2) [OF D(1,2) assms(3)] by auto
  moreover have "links L (pcbs s) (pop ?t S u)" if "u < 3" for u
    using assms(2,3) that calculation(1) by (simp add: pop_def isolated_def)
  ultimately show ?thesis
    using assms(2,3) s'(2-6) by (auto simp: isolated_def same paging_on_def) (auto simp: pop_def)
qed

lemma same_procs_regs:
  assumes "same_procs s s'"
  shows "tabs s' = tabs s" and "cr0 s' = cr0 s" and "cr3 s' = cr3 s" and "cr4 s' = cr4 s" and "pcbs s' = pcbs s"
proof -
  obtain m where "s' = s\<lparr>mem := m\<rparr>" using assms unfolding same_procs_def by blast
  then show "tabs s' = tabs s" "cr0 s' = cr0 s" "cr3 s' = cr3 s" "cr4 s' = cr4 s" "pcbs s' = pcbs s"
    by simp_all
qed

lemma more_pcbs: "machine.more s' = machine.more s \<Longrightarrow> pcbs s' = pcbs s"
  by (cases s; cases s'; simp)

lemma load_program_space:
  assumes "load_program L ino s = Ok s'" and "cur_loc s \<noteq> 0"
  shows "same_procs (progs_init L (pid (pcbs s (cur_loc s))) s) s'"
  using assms by (auto simp: load_program_def Let_def bindE_eq_Ok cur_pcb_def get_pcb_def dest: read_data_same_procs)

text \<open>A new process gets tables of its own, remembers the directory of its caller and runs in its own.\<close>

lemma execute_spaces:
  fixes s :: "'a proc_scheme"
  assumes "process_table s S" and "tables_clear L (tabs s)" and "layout_ok L" and "frame_ok f"
    and "execute L f command s = Ok (Enters e, s')"
  obtains p and u :: "'a proc_scheme" where "p < MAX_PROCESSES" and "p \<notin> set (live S)" and "\<forall>j < p. j \<in> set (live S)"
    and "process_table s' (push (current_terminal s) p S)" and "current_terminal s' = current_terminal s"
    and "tabs u = tabs s" and "tabs s' = tabs (progs_init L (of_nat p) u)"
    and "cr0 s' = cr0 s" and "cr4 s' = cr4 s" and "cr3 s' = prog_pd L (Suc p)"
    and "\<forall>a. pagedir (pcbs s' a) = (if a = slot_loc p then cr3 s else pagedir (pcbs s a))"
    and "\<forall>a. curr_pd (pcbs s' a) = (if a = slot_loc p then prog_pd L (Suc p) else curr_pd (pcbs s a))"
proof -
  let ?t = "current_terminal s"
  obtain p d nl s1 s2 s3 where p: "p < MAX_PROCESSES" "p \<notin> set (live S)" "\<forall>j < p. j \<in> set (live S)"
    and run: "load_program L (dentry_inode d) s2 = Ok s3" "enter_program s3 = Ok s'"
    and s1: "process_table s1 (push ?t p S)"
      "pcbs s1 (slot_loc p) = fresh_pcb (frame_pcb f) p (if S ?t = [] then slot_loc p else pcb_loc s ?t) s"
      "\<forall>a. a \<noteq> slot_loc p \<longrightarrow> pcbs s1 a = pcbs s a" "current_terminal s1 = ?t"
      "tabs s1 = tabs s" "cr0 s1 = cr0 s" "cr4 s1 = cr4 s"
    and same: "same_return s1 s3" "same_spaces s1 s2" and loc: "cur_loc s2 = slot_loc p" "cur_loc s3 = slot_loc p"
    by (rule execute_stages [OF assms(1,4,5)]) blast
  have nz: "slot_loc p \<noteq> 0" by (rule slot_loc_nonzero [OF p(1)])
  note eq = enter_program_eq [of s3, unfolded loc(2), OF nz, unfolded run(2), simplified]
  have s3: "same_procs (progs_init L (pid (pcbs s2 (slot_loc p))) s2) s3"
    using load_program_space [OF run(1)] nz loc(1) by simp
  have "pcbs s3 = pcbs s2" using load_program_more [OF run(1)] by (rule more_pcbs)
  moreover have "pid (pcbs s3 (slot_loc p)) = pid (pcbs s1 (slot_loc p))"
    using same(1) by (simp add: same_return_def same_table_def)
  ultimately have pid: "pid (pcbs s2 (slot_loc p)) = of_nat p" and pcbs: "pcbs s3 = pcbs s2"
    by (simp_all add: s1(2) fresh_pcb_def)
  define u where "u = progs_init L (of_nat p) s2"
  have tabs: "tabs s2 = tabs s" using same(2) s1(5) by (simp add: same_spaces_def)
  have clear: "tables_clear L (tabs s2)" using assms(2) tabs by simp
  note s3u = same_procs_regs [OF s3 [unfolded pid, folded u_def]]
  note U = progs_init_space(3,4,5) [OF assms(3) clear p(1), folded u_def]
  have s': "tabs s' = tabs u" "cr0 s' = cr0 s" "cr4 s' = cr4 s" "cr3 s' = prog_pd L (Suc p)"
    "current_terminal s' = ?t"
    "pagedir (pcbs s' a) = (if a = slot_loc p then cr3 s else pagedir (pcbs s a))"
    "curr_pd (pcbs s' a) = (if a = slot_loc p then prog_pd L (Suc p) else curr_pd (pcbs s a))" for a
    using s3u U same s1(2-7) pcbs
    by (auto simp: eq same_spaces_def same_return_def same_table_def fresh_pcb_def)
  have "same_return s3 s'" using nz loc(2) by (intro enter_program_same_return [OF _ run(2)]) simp
  then have "same_return s1 s'" by (rule same_return_trans [OF same(1)])
  then have "same_table s1 s'" by (simp add: same_return_def)
  then have "process_table s' (push ?t p S)" by (rule process_table_same [OF s1(1)])
  then show thesis using that [of p s2] p tabs s' unfolding u_def by blast
qed

lemma isolated_execute:
  fixes s :: "'a proc_scheme"
  assumes "process_table s S" and "isolated L s S" and "layout_ok L" and "frame_ok f"
    and "execute L f command s = Ok (Enters e, s')"
  obtains p where "p < MAX_PROCESSES" and "p \<notin> set (live S)" and "\<forall>j < p. j \<in> set (live S)"
    and "process_table s' (push (current_terminal s) p S)"
    and "isolated L s' (push (current_terminal s) p S)"
proof -
  let ?t = "current_terminal s"
  note D = process_tableD [OF assms(1)]
  have clear: "tables_clear L (tabs s)" using assms(2) by (simp add: isolated_def)
  obtain p and u :: "'a proc_scheme" where p: "p < MAX_PROCESSES" "p \<notin> set (live S)" "\<forall>j < p. j \<in> set (live S)"
    and table: "process_table s' (push ?t p S)" and u: "tabs u = tabs s" "tabs s' = tabs (progs_init L (of_nat p) u)"
    and s': "current_terminal s' = ?t" "cr0 s' = cr0 s" "cr4 s' = cr4 s" "cr3 s' = prog_pd L (Suc p)"
      "\<forall>a. pagedir (pcbs s' a) = (if a = slot_loc p then cr3 s else pagedir (pcbs s a))"
      "\<forall>a. curr_pd (pcbs s' a) = (if a = slot_loc p then prog_pd L (Suc p) else curr_pd (pcbs s a))"
    by (rule execute_spaces [OF assms(1) clear assms(3-5)]) blast
  have clear: "tables_clear L (tabs u)" using clear u(1) by simp
  have "slot_loc q \<noteq> slot_loc p" if "q \<in> set (live S)" for q
  proof -
    have "q < MAX_PROCESSES" "q \<noteq> p" using that p(2) D(1) by (auto simp: stacks_ok_def)
    then show ?thesis using slot_loc_inject [OF _ p(1)] by simp
  qed
  then have other: "links L (pcbs s') (S v) = links L (pcbs s) (S v)" for v
    using set_live [OF D(1)] by (intro links_cong) (auto simp: s'(5,6))
  have "links L (pcbs s') (push ?t p S v)" if "v < 3" for v
    using assms(2) that D(2) by (auto simp: push_def links_Cons s'(5,6) other isolated_def)
  moreover have "has_space L (tabs s') q" if "q \<in> set (live (push ?t p S))" for q
  proof -
    have "q \<in> insert p (set (live S))" using that stacks_push(2) [OF D(1,2) p(1,2)] by simp
    moreover have "q < 6" using calculation p(1) D(1) by (auto simp: stacks_ok_def)
    moreover have "q \<noteq> p \<Longrightarrow> has_space L (tabs u) q"
      using assms(2) calculation(1) by (auto simp: isolated_def u(1))
    ultimately show ?thesis
      unfolding u(2) using p(1) clear by (intro has_space_progs_init [OF assms(3)])
  qed
  moreover have "tables_clear L (tabs s')"
    unfolding u(2) by (rule progs_init_clear [OF assms(3) p(1) clear])
  ultimately have "isolated L s' (push ?t p S)"
    using assms(2) s'(1-4) by (simp add: isolated_def paging_on_def push_def)
  then show thesis using that p table by blast
qed

subsection \<open>What user mode reaches\<close>

lemma has_space_reach:
  assumes "layout_ok L" and "p < 6" and "has_space L T p"
  shows "user_walk T (prog_pd L (Suc p)) a =
    (if 0x08000000 \<le> a \<and> a < 0x08400000 then Some (user_page p + (a - 0x08000000))
     else if 0x08800000 \<le> a \<and> a < 0x08801000 then Some (VIDMEM + (a - 0x08800000))
     else None)"
proof -
  have k: "1 \<le> Suc p" "Suc p < 7" using assms(2) by simp_all
  obtain v where "prog_term L (Suc p) = push_bit 12 v"
    using layout_okD(5) [OF assms(1) k] by (rule page_alignedE)
  then have "prog_term L (Suc p) OR PRWS_BIT = 0 \<or>
      (\<exists>v. prog_term L (Suc p) OR PRWS_BIT = push_bit 12 v OR PRWS_BIT)" by auto
  then show ?thesis
    using assms(3) space_isolated [OF _ layout_okD(2,3,4) [OF assms(1) k]]
    unfolding user_page_def has_space_def by blast
qed

text \<open>The current process is in its own directory.\<close>

lemma isolated_current:
  assumes "isolated L s S" and "S (current_terminal s) = p # ps"
  shows "cr3 s = prog_pd L (Suc p)"
  using assms by (simp add: isolated_def)

lemma isolated_live:
  assumes "process_table s S" and "isolated L s S" and "p \<in> set (live S)"
  shows "has_space L (tabs s) p" and "curr_pd (pcbs s (slot_loc p)) = prog_pd L (Suc p)"
proof -
  note D = process_tableD [OF assms(1)]
  show "has_space L (tabs s) p" using assms(2,3) by (simp add: isolated_def)
  obtain t where "p \<in> set (S t)" using set_live [OF D(1)] assms(3) by blast
  moreover have "t < 3" using D(1) calculation by (auto simp: stacks_ok_def intro: ccontr)
  ultimately show "curr_pd (pcbs s (slot_loc p)) = prog_pd L (Suc p)"
    using assms(2) links_mem by (auto simp: isolated_def)
qed

end
