(* ===== verification/Kernel_Run.thy ===== *)
theory Kernel_Run
  imports Isolation
begin

text \<open>
  The kernel as a labelled transition system on its state. The events are the system calls of the
  current process and the interrupts. A read that waits is two events, its beginning and its end, so
  that interrupts, terminal switches among them, and the calls of other processes come in between.
  Every step is simulated by a step of the abstract process table, so the table's invariant holds in
  every reachable state.
\<close>

subsection \<open>Events\<close>

text \<open>
  The arguments are those of the system calls; \<open>Execute\<close> and \<open>Open\<close> also have what their
  uninitialised local variables hold. \<open>Line_wait\<close> and \<open>Line_read\<close> are the two parts of reading a line,
  \<open>Tick_wait\<close> and \<open>Tick_read\<close> of waiting for the clock; \<open>Read\<close> is every read that does not wait.
\<close>

datatype irq = Key | Clock | Timer

datatype event =
    Execute frame u32
  | Halt u8
  | Open int u32
  | Close int
  | Read int u32 int
  | Line_wait
  | Line_read u32 int
  | Tick_wait
  | Tick_read
  | Write int u32 int
  | Getargs u32 int
  | Vidmap u32
  | Irq irq

fun irq_handler :: "irq \<Rightarrow> 'a kbd_scheme \<Rightarrow> 'a kbd_scheme res" where
  "irq_handler Key s = key_irq s"
| "irq_handler Clock s = Ok (rtc_handler s)"
| "irq_handler Timer s = Ok (pit_handler s)"

text \<open>The current terminal has a process, which makes the call.\<close>

abbreviation running :: "'a proc_scheme \<Rightarrow> bool" where
  "running s \<equiv> 0 < prog_count s (current_terminal s)"

inductive kernel_step :: "layout \<Rightarrow> event \<Rightarrow> 'a kbd_scheme \<Rightarrow> 'a kbd_scheme \<Rightarrow> bool" for L where
  step_execute: "frame_ok f \<Longrightarrow> execute L f command s = Ok (e, s') \<Longrightarrow> kernel_step L (Execute f command) s s'"
| step_halt: "running s \<Longrightarrow> halt c s = Ok s1 \<Longrightarrow> halt_ret s1 = Ok (r, s') \<Longrightarrow> kernel_step L (Halt c) s s'"
| step_open: "running s \<Longrightarrow> sys_open g filename s = Ok (r, s') \<Longrightarrow> kernel_step L (Open g filename) s s'"
| step_close: "running s \<Longrightarrow> sys_close fd s = Ok (r, s') \<Longrightarrow> kernel_step L (Close fd) s s'"
| step_read: "running s \<Longrightarrow> sys_read [] fd buf n s = Ok (r, s') \<Longrightarrow> kernel_step L (Read fd buf n) s s'"
| step_line_wait: "running s \<Longrightarrow> kernel_step L Line_wait s (line_wait s)"
| step_line_read: "running s \<Longrightarrow> enter_flag s (current_terminal s) \<noteq> OFF \<Longrightarrow>
    line_read (current_terminal s) buf n s = Ok (r, s') \<Longrightarrow> kernel_step L (Line_read buf n) s s'"
| step_tick_wait: "running s \<Longrightarrow> kernel_step L Tick_wait s (sti s)"
| step_tick_read: "running s \<Longrightarrow> int_flag s = HIGH \<Longrightarrow> kernel_step L Tick_read s (s\<lparr>int_flag := LOW\<rparr>)"
| step_write: "running s \<Longrightarrow> sys_write fd buf n s = Ok (r, s') \<Longrightarrow> kernel_step L (Write fd buf n) s s'"
| step_getargs: "running s \<Longrightarrow> getargs buf n s = Ok (r, s') \<Longrightarrow> kernel_step L (Getargs buf n) s s'"
| step_vidmap: "running s \<Longrightarrow> vidmap buf s = Ok (r, s') \<Longrightarrow> kernel_step L (Vidmap buf) s s'"
| step_irq: "irq_handler i s = Ok s' \<Longrightarrow> kernel_step L (Irq i) s s'"

inductive kernel_run :: "layout \<Rightarrow> event list \<Rightarrow> 'a kbd_scheme \<Rightarrow> 'a kbd_scheme \<Rightarrow> bool" for L where
  run_nil: "kernel_run L [] s s"
| run_cons: "kernel_step L e s t \<Longrightarrow> kernel_run L es t u \<Longrightarrow> kernel_run L (e # es) s u"

lemma run_one: "kernel_step L e s s' \<Longrightarrow> kernel_run L [e] s s'"
  by (blast intro: run_nil run_cons)

lemma run_append: "kernel_run L es s t \<Longrightarrow> kernel_run L fs t u \<Longrightarrow> kernel_run L (es @ fs) s u"
  by (induction rule: kernel_run.induct) (auto intro: run_cons)

text \<open>
  The calls that store through a pointer of the program without checking it are \<open>read\<close> and \<open>getargs\<close>.
  A run in which these pointers are into the program's page is one in which programs do not let the
  kernel overwrite itself: the kernel's own variables are fields of the state here, not memory.
\<close>

definition in_page :: "u32 \<Rightarrow> bool" where
  "in_page b \<longleftrightarrow> 0x08000000 \<le> b \<and> b < 0x08400000"

fun own_buffer :: "event \<Rightarrow> bool" where
  "own_buffer (Read fd buf n) = in_page buf"
| "own_buffer (Line_read buf n) = in_page buf"
| "own_buffer (Getargs buf n) = in_page buf"
| "own_buffer e = True"

text \<open>The steps of the abstract table.\<close>

inductive table_step :: "stacks \<Rightarrow> stacks \<Rightarrow> bool" where
  table_push: "t < 3 \<Longrightarrow> p < MAX_PROCESSES \<Longrightarrow> p \<notin> set (live S) \<Longrightarrow> \<forall>j < p. j \<in> set (live S) \<Longrightarrow>
    table_step S (push t p S)"
| table_pop: "t < 3 \<Longrightarrow> S t \<noteq> [] \<Longrightarrow> table_step S (pop t S)"
| table_stay: "table_step S S"

text \<open>A step keeps the table, and the address spaces when they were as they should be.\<close>

definition kept :: "layout \<Rightarrow> 'a proc_scheme \<Rightarrow> stacks \<Rightarrow> 'a proc_scheme \<Rightarrow> stacks \<Rightarrow> bool" where
  "kept L s S s' S' \<longleftrightarrow> process_table s' S' \<and> (layout_ok L \<and> isolated L s S \<longrightarrow> isolated L s' S')"

lemma kept_refl: "process_table s S \<Longrightarrow> kept L s S s S"
  by (simp add: kept_def)

lemma kept_trans: "kept L s S t T \<Longrightarrow> kept L t T u U \<Longrightarrow> kept L s S u U"
  by (simp add: kept_def)

lemma kept_steady:
  assumes "process_table s S" and "steady s s'"
  shows "kept L s S s' S"
  using process_table_same [OF assms(1), of s'] isolated_steady [OF _ assms(2)] assms(2)
  by (simp add: kept_def steady_def)

lemmas kept_kview = kept_steady [OF _ kview_steady]

text \<open>A change of the descriptors of the current process.\<close>

lemma kept_files:
  assumes "process_table s S" and "S (current_terminal s) = p # ps" and "table_ok F"
    and "kview s' = kview (s\<lparr>pcbs := (pcbs s)(slot_loc p := (pcbs s (slot_loc p))\<lparr>file_desc := F\<rparr>)\<rparr>)"
  shows "kept L s S s' S"
proof -
  have view: "current_terminal s' = current_terminal s" "prog_count s' = prog_count s"
    "memoryspace s' = memoryspace s" "pcb_loc s' = pcb_loc s"
    "pcbs s' = (pcbs s)(slot_loc p := (pcbs s (slot_loc p))\<lparr>file_desc := F\<rparr>)"
    using assms(4) by (simp_all add: kview_defs)
  have small: "length F = FOPS_NUM" "\<forall>e \<in> set F. flags e AND 0xFFFF0000 = 0"
    using assms(3) by (auto simp: table_ok_def list_all_iff fd_ok_def free_fd_def)
  have keep: "pid (pcbs s' a) = pid (pcbs s a)" "lastpcb_ptr (pcbs s' a) = lastpcb_ptr (pcbs s a)"
    "args (pcbs s' a) = args (pcbs s a)"
    "file_desc (pcbs s' a) = (if a = slot_loc p then F else file_desc (pcbs s a))" for a
    by (simp_all add: view)
  have "chain (pcbs s') ls = chain (pcbs s) ls" for ls
    by (rule chain_cong) (simp add: view)
  then have "process_table s' S"
    using assms(1,3) small
    by (simp add: process_table_def view(1-4) pcb_shape_def flags_small_def keep)
  then show ?thesis using isolated_files [OF _ assms(4)] by (simp add: kept_def)
qed

lemma procs_put_fd:
  "kview (put_fd i e s) = kview (s\<lparr>pcbs := (pcbs s)(cur_loc s :=
     (pcbs s (cur_loc s))\<lparr>file_desc := (fds s)[i := e]\<rparr>)\<rparr>)"
  by (simp add: kview_defs put_fd_def fds_def)

lemma kept_put:
  assumes "process_table s S" and "S (current_terminal s) = p # ps" and "fd_ok e" and "2 \<le> i"
  shows "kept L s S (put_fd i e s) S"
proof -
  note C = current_process [OF assms(1,2)]
  show ?thesis
    by (rule kept_files [OF assms(1,2) table_ok_update [OF fds_okD(3) [OF C(5)] assms(3,4)]])
      (simp add: procs_put_fd C(1))
qed

lemma kept_moves:
  assumes "process_table s S" and "S (current_terminal s) = p # ps" and "moves i s s'"
    and "fd_ok (fds s ! i)" and "fds s ! i \<noteq> free_fd" and "2 \<le> i"
  shows "kept L s S s' S"
  using assms(3) unfolding moves_def
proof
  assume "kview s' = kview s"
  then show ?thesis by (rule kept_kview [OF assms(1)])
next
  assume "\<exists>x. kview s' = kview (put_fd i ((fds s ! i)\<lparr>file_pos := x\<rparr>) s)"
  then obtain x where x: "kview s' = kview (put_fd i ((fds s ! i)\<lparr>file_pos := x\<rparr>) s)" by blast
  have "fd_ok ((fds s ! i)\<lparr>file_pos := x\<rparr>)" using assms(4,5) by (auto simp: fd_ok_def)
  then have "kept L s S (put_fd i ((fds s ! i)\<lparr>file_pos := x\<rparr>) s) S"
    by (rule kept_put [OF assms(1,2) _ assms(6)])
  then show ?thesis using kept_kview [OF _ x] kept_trans by (auto simp: kept_def)
qed

text \<open>The calls that read and write.\<close>

lemma kept_read:
  assumes "process_table s S" and "S (current_terminal s) = p # ps" and "\<forall>h \<in> set irqs. stays h"
    and "sys_read irqs fd buf n s = Ok (r, s')"
  shows "kept L s S s' S"
proof -
  have ok: "fds_ok s" using current_process(5) [OF assms(1,2)] .
  note F = fds_okD [OF ok]
  show ?thesis
  proof (cases "fd < 0 \<or> 7 < fd \<or> fd = 1 \<or> fds s ! nat fd = free_fd")
    case True
    then show ?thesis using assms(1,4) kept_refl by (simp add: sys_read_dispatch [OF ok])
  next
    case False
    then have fd: "nat fd < FOPS_NUM" "fds s ! nat fd \<noteq> free_fd" by auto
    have fok: "fd_ok (fds s ! nat fd)" by (rule table_ok_nth [OF F(3) fd(1)])
    have call: "call_read irqs (fops_ptr (fds s ! nat fd)) fd buf n s = Ok (r, s')"
      using assms(4) False by (simp add: sys_read_dispatch [OF ok])
    have T: "kept L s S s' S" if "steady s s'" using assms(1) that by (rule kept_steady)
    have high: "2 \<le> nat fd" if "fops_ptr (fds s ! nat fd) \<noteq> StdinTable"
    proof -
      have "fd \<noteq> 0" using that F(3) by (auto simp: table_ok_def)
      then show ?thesis using False by linarith
    qed
    show ?thesis
    proof (cases "fops_ptr (fds s ! nat fd)")
      case FsTable
      then show ?thesis
        using call high kept_moves [OF assms(1,2) fs_read_moves [OF _ F(1)] fok fd(2)]
        by (simp add: call_read_def)
    next
      case DirTable
      then show ?thesis
        using call high kept_moves [OF assms(1,2) dir_read_moves [OF _ F(1)] fok fd(2)]
        by (simp add: call_read_def)
    qed (use call in \<open>auto simp: call_read_def intro!: T dest: terminal_read_table [OF _ assms(3)]
        rtc_read_table [OF _ assms(3)]\<close>)
  qed
qed

lemma sys_write_procs:
  assumes "sys_write fd buf n s = Ok (r, s')"
  shows "kview s' = kview s"
proof -
  have "kview s' = kview s" if "call_write table buf n s = Ok (r, s')" for table
    using that by (cases table) (auto simp: call_write_def dest: terminal_write_procs rtc_write_procs)
  then show ?thesis
    using assms by (auto simp: sys_write_def bindE_eq_Ok split: if_splits)
qed

lemma getargs_procs: "getargs buf n s = Ok (r, s') \<Longrightarrow> kview s' = kview s"
  by (auto simp: getargs_def Let_def bindE_eq_Ok split: if_splits dest: copy_out_procs)

lemma st_procs: "st a x s = Ok s' \<Longrightarrow> kview s' = kview s"
  by (auto simp: st_def kview_defs split: option.splits)

lemma vidmap_procs: "vidmap p s = Ok (r, s') \<Longrightarrow> kview s' = kview s"
  by (auto simp: vidmap_def st_word_def bindE_eq_Ok split: if_splits dest!: st_procs)

lemma find_free_cases:
  assumes "fds_ok s" and "find_free g FIRST_FDENTRY s = Ok (i, slot)"
  obtains k where "first_free (fds s) 2 k" and "i = int k" and "slot = int k" | "i = 8" and "slot = g"
proof (cases "\<exists>k. first_free (fds s) 2 k")
  case True
  then obtain k where k: "first_free (fds s) 2 k" by blast
  then show thesis using that(1) find_free_first [OF assms(1) k, of g] assms(2) by simp
next
  case False
  have full: "\<forall>j. 2 \<le> j \<and> j < FOPS_NUM \<longrightarrow> fds s ! j \<noteq> free_fd"
  proof (rule ccontr)
    assume "\<not> ?thesis"
    then obtain j where j: "2 \<le> j \<and> j < FOPS_NUM \<and> fds s ! j = free_fd" by blast
    define k where "k = (LEAST j. 2 \<le> j \<and> j < FOPS_NUM \<and> fds s ! j = free_fd)"
    have "2 \<le> k \<and> k < FOPS_NUM \<and> fds s ! k = free_fd" unfolding k_def using j by (rule LeastI)
    moreover have "\<forall>j. 2 \<le> j \<and> j < k \<longrightarrow> fds s ! j \<noteq> free_fd"
      using calculation not_less_Least [of _ "\<lambda>j. 2 \<le> j \<and> j < FOPS_NUM \<and> fds s ! j = free_fd"]
      unfolding k_def by (meson less_trans)
    ultimately have "first_free (fds s) 2 k"
      using fds_okD(2) [OF assms(1)] by (simp add: first_free_def)
    with False show False by blast
  qed
  show thesis using that(2) find_free_full [OF assms(1) full, of g] assms(2) by simp
qed

text \<open>Whatever the name is, \<open>open\<close> fills one free descriptor or changes nothing.\<close>

lemma sys_open_cases:
  assumes "fds_ok s" and "sys_open g filename s = Ok (r, s')"
  shows "s' = s \<or> (\<exists>k d. 2 \<le> k \<and> s' = put_fd k (opened d) (device_opened d s))"
proof (cases "s' = s")
  case False
  then obtain i d u where d: "find_free g FIRST_FDENTRY s = Ok (i, i)" "open_entry i d s = Ok (Some u)"
    "upd_fd i (\<lambda>e. e\<lparr>file_pos := 0, flags := 1\<rparr>) u = Ok s'"
    using assms(2) by (auto simp: sys_open_def bindE_eq_Ok split: if_splits option.splits prod.splits)
  have type: "dentry_type d = 0 \<or> dentry_type d = 1 \<or> dentry_type d = 2"
    using d(2) by (auto simp: open_entry_def split: if_splits)
  show ?thesis
    using assms(1) d(1)
  proof (cases rule: find_free_cases)
    case (1 k)
    then have k: "k < FOPS_NUM" "2 \<le> k" using fds_okD(2) [OF assms(1)] by (auto simp: first_free_def)
    have "dentry_type d \<le> 2" using type by auto
    from open_entry_opened [OF assms(1) k(1) this] obtain e where
      e: "u = device_opened d (put_fd k e s)" "e\<lparr>file_pos := 0, flags := 1\<rparr> = opened d"
      using d(2) 1(2) by auto
    have "s' = put_fd k (opened d) (device_opened d s)"
      using d(3) fds_okD [OF assms(1)] k(1) e 1(2)
      by (simp add: device_opened_put upd_fd_put fd.put_put device_opened_procs frame_simps)
    with k(2) show ?thesis by blast
  next
    case 2
    have "upd_fd 8 f s = Err OutOfBounds" for f
      using fds_okD [OF assms(1)] by (simp add: upd_fd_def get_fd_def cur_pcb_def get_pcb_def fds_def)
    then have "open_entry 8 d s = Err OutOfBounds" using type by (auto simp: open_entry_def)
    then show ?thesis using d(2) 2 by simp
  qed
qed simp

lemma procs_device_opened: "kview (device_opened d s) = kview s"
proof (cases "dentry_type d = 0")
  case True
  have "kview (snd (rtc_open s)) = kview s"
    by (subst rtc_open_log) (simp add: kview_defs)
  with True show ?thesis by (simp add: device_opened_def)
qed (simp add: device_opened_def)

subsection \<open>Simulation\<close>

lemma running_process:
  assumes "process_table s S" and "0 < prog_count s (current_terminal s)"
  obtains p ps where "S (current_terminal s) = p # ps"
  using assms process_tableD(2,3) [OF assms(1)] by (cases "S (current_terminal s)") auto

lemma kept_enters:
  assumes "process_table s S" and "frame_ok f" and "execute L f command s = Ok (Enters e, s')"
  shows "\<exists>S'. table_step S S' \<and> kept L s S s' S'"
proof -
  let ?t = "current_terminal s"
  obtain p where p: "p < MAX_PROCESSES" "p \<notin> set (live S)" "\<forall>j < p. j \<in> set (live S)"
    "process_table s' (push ?t p S)"
    using execute_pushes [OF assms] by blast
  have "isolated L s' (push ?t p S)" if iso: "layout_ok L" "isolated L s S"
  proof -
    obtain q where q: "q \<notin> set (live S)" "\<forall>j < q. j \<in> set (live S)" "isolated L s' (push ?t q S)"
      using isolated_execute [OF assms(1) iso(2,1) assms(2,3)] by blast
    then have "q = p" using p(2,3) by (metis linorder_neqE_nat)
    then show ?thesis using q(3) by simp
  qed
  moreover have "table_step S (push ?t p S)"
    using p process_tableD(2) [OF assms(1)] by (intro table_push) simp_all
  ultimately show ?thesis using p(4) by (auto simp: kept_def)
qed

lemma kept_execute:
  assumes "process_table s S" and "frame_ok f" and "execute L f command s = Ok (e, s')"
  shows "\<exists>S'. table_step S S' \<and> kept L s S s' S'"
proof (cases e)
  case (Returns r)
  then have "s' = s \<or> quiet s' = quiet s" using execute_returns assms(3) by blast
  then have "kview s' = kview s" using quiet_procs by blast
  then show ?thesis using kept_kview [OF assms(1)] table_stay by blast
qed (use kept_enters [OF assms(1,2)] assms(3) in blast)

lemma kept_halt:
  assumes "process_table s S" and "0 < prog_count s (current_terminal s)"
    and "halt c s = Ok s1" and "halt_ret s1 = Ok (r, s')"
  shows "\<exists>S'. table_step S S' \<and> kept L s S s' S'"
proof -
  obtain p ps where run: "S (current_terminal s) = p # ps"
    using running_process [OF assms(1,2)] .
  have "process_table s' (pop (current_terminal s) S)"
    using halt_pops [OF assms(1) run, of c] assms(3,4) by auto
  then have "kept L s S s' (pop (current_terminal s) S)"
    using isolated_halt [OF assms(1) _ run assms(3,4)] by (simp add: kept_def)
  moreover have "table_step S (pop (current_terminal s) S)"
    using run process_tableD(2) [OF assms(1)] by (intro table_pop) simp_all
  ultimately show ?thesis by blast
qed

lemma kept_open:
  assumes "process_table s S" and "0 < prog_count s (current_terminal s)"
    and "sys_open g filename s = Ok (r, s')"
  shows "kept L s S s' S"
proof -
  obtain p ps where run: "S (current_terminal s) = p # ps"
    using running_process [OF assms(1,2)] .
  from sys_open_cases [OF current_process(5) [OF assms(1) run] assms(3)] show ?thesis
  proof
    assume "\<exists>k d. 2 \<le> k \<and> s' = put_fd k (opened d) (device_opened d s)"
    then obtain k d where k: "2 \<le> k" and s': "s' = put_fd k (opened d) (device_opened d s)" by blast
    have first: "kept L s S (device_opened d s) S"
      using procs_device_opened by (rule kept_kview [OF assms(1)])
    moreover have "current_terminal (device_opened d s) = current_terminal s"
      using procs_device_opened [of d s] by (simp add: kview_defs)
    ultimately have "kept L (device_opened d s) S s' S"
      unfolding s' using run by (intro kept_put [OF _ _ opened_ok k]) (simp_all add: kept_def)
    then show ?thesis by (rule kept_trans [OF first])
  qed (simp add: assms(1) kept_refl)
qed

lemma kept_close:
  assumes "process_table s S" and "0 < prog_count s (current_terminal s)" and "sys_close fd s = Ok (r, s')"
  shows "kept L s S s' S"
proof -
  obtain p ps where run: "S (current_terminal s) = p # ps"
    using running_process [OF assms(1,2)] .
  have "fd_ok free_fd" by (simp add: fd_ok_def)
  then show ?thesis
    using sys_close_eq [OF current_process(5) [OF assms(1) run], of fd] assms(3) kept_refl [OF assms(1)]
      kept_put [OF assms(1) run, of free_fd "nat fd"]
    by (auto split: if_splits)
qed

lemma kept_irq:
  assumes "process_table s S" and "irq_handler i s = Ok s'"
  shows "kept L s S s' S"
proof (cases i)
  case Key
  then obtain e where key: "keyboard_handler s = Ok (e, s')"
    using assms(2) by (auto simp: key_irq_def bindE_eq_Ok)
  obtain u where u: "u < 3" "switched u s s'"
    using keyboard_handler_switched [OF key] process_tableD(2) [OF assms(1)] by auto
  then have "process_table s' S"
    using process_table_other [OF assms(1), of s'] by (simp add: switched_def)
  then show ?thesis
    using isolated_switched [OF assms(1) _ u(2,1)] by (simp add: kept_def)
qed (use assms in \<open>auto intro!: kept_kview simp: procs_tick\<close>)

text \<open>Every step of the kernel is a step of the abstract table.\<close>

lemma kernel_step_simulates:
  assumes "kernel_step L e s s'" and "process_table s S"
  shows "\<exists>S'. table_step S S' \<and> kept L s S s' S'"
proof -
  note P = assms(2)
  have stay: ?thesis if "kept L s S s' S" using that table_stay by blast
  note view = kept_kview [OF P, THEN stay]
  show ?thesis
    using assms(1)
  proof (cases rule: kernel_step.cases)
    case (step_execute f command e)
    then show ?thesis by (intro kept_execute [OF P])
  next
    case (step_halt c s1 r)
    then show ?thesis by (intro kept_halt [OF P])
  next
    case (step_open g filename r)
    then show ?thesis by (intro stay [OF kept_open [OF P]])
  next
    case (step_close fd r)
    then show ?thesis by (intro stay [OF kept_close [OF P]])
  next
    case (step_read fd buf n r)
    obtain p ps where run: "S (current_terminal s) = p # ps"
      using running_process [OF P step_read(2)] .
    show ?thesis by (rule stay [OF kept_read [OF P run _ step_read(3)]]) simp
  next
    case step_line_wait
    show ?thesis by (rule view) (simp add: step_line_wait line_wait_procs)
  next
    case (step_line_read buf n r)
    show ?thesis by (rule view [OF line_read_procs [OF step_line_read(4)]])
  next
    case step_tick_wait
    show ?thesis by (rule view) (simp add: step_tick_wait kview_defs sti_def)
  next
    case step_tick_read
    show ?thesis by (rule view) (simp add: step_tick_read kview_defs)
  next
    case (step_write fd buf n r)
    show ?thesis by (rule view [OF sys_write_procs [OF step_write(3)]])
  next
    case (step_getargs buf n r)
    show ?thesis by (rule view [OF getargs_procs [OF step_getargs(3)]])
  next
    case (step_vidmap buf r)
    show ?thesis by (rule view [OF vidmap_procs [OF step_vidmap(3)]])
  next
    case (step_irq i)
    show ?thesis by (rule stay [OF kept_irq [OF P step_irq(2)]])
  qed
qed

lemma table_step_ok: "table_step S S' \<Longrightarrow> stacks_ok S \<Longrightarrow> stacks_ok S'"
  by (induction rule: table_step.induct) (auto simp: stacks_push neq_Nil_conv intro: stacks_pop)

lemma kernel_run_kept:
  assumes "kernel_run L es s s'" and "process_table s S"
  shows "\<exists>S'. table_step\<^sup>*\<^sup>* S S' \<and> kept L s S s' S'"
  using assms
proof (induction arbitrary: S rule: kernel_run.induct)
  case (run_nil s)
  then show ?case using kept_refl by blast
next
  case (run_cons e s t es u)
  obtain T where T: "table_step S T" "kept L s S t T"
    using kernel_step_simulates [OF run_cons.hyps(1) run_cons.prems] by blast
  then have "process_table t T" by (simp add: kept_def)
  then obtain U where "table_step\<^sup>*\<^sup>* T U" "kept L t T u U" using run_cons.IH by blast
  with T show ?case by (meson kept_trans converse_rtranclp_into_rtranclp)
qed

lemma kernel_run_simulates:
  assumes "kernel_run L es s s'" and "process_table s S"
  shows "\<exists>S'. table_step\<^sup>*\<^sup>* S S' \<and> process_table s' S'"
  using kernel_run_kept [OF assms] by (auto simp: kept_def)

text \<open>The kernel as it is loaded: no process, and zeros where the PCBs will be.\<close>

definition booted :: "'a proc_scheme \<Rightarrow> bool" where
  "booted s \<longleftrightarrow> current_terminal s < 3 \<and> prog_count s = (\<lambda>_. 0) \<and> memoryspace s = (\<lambda>_. 0) \<and>
     (\<forall>p < MAX_PROCESSES. pcb_shape (pcbs s (slot_loc p)) \<and> flags_small (pcbs s (slot_loc p)))"

lemma booted_table: "booted s \<Longrightarrow> process_table s (\<lambda>_. [])"
  by (simp add: booted_def process_table_def stacks_ok_def live_def)

text \<open>The descriptors of the process that runs are valid in every state that a booted kernel reaches.\<close>

lemma run_fds_ok:
  assumes "booted s0" and "kernel_run L es s0 s" and "running s"
  shows "fds_ok s"
proof -
  obtain S where S: "process_table s S"
    using kernel_run_simulates [OF assms(2) booted_table [OF assms(1)]] by blast
  obtain p ps where "S (current_terminal s) = p # ps" using running_process [OF S assms(3)] .
  from current_process(5) [OF S this] show ?thesis .
qed

lemma empty_isolated: "paging_on s \<Longrightarrow> tables_clear L (tabs s) \<Longrightarrow> isolated L s (\<lambda>_. [])"
  by (simp add: isolated_def live_def)

text \<open>After any run from a state without processes, every live process has its own address space.\<close>

lemma kernel_run_isolated:
  assumes "kernel_run L es s s'" and "process_table s (\<lambda>_. [])" and "layout_ok L"
    and "tables_clear L (tabs s)" and "paging_on s"
  obtains S where "process_table s' S" and "isolated L s' S"
  using kernel_run_kept [OF assms(1,2)] assms(3) empty_isolated [OF assms(5,4)] by (auto simp: kept_def)

lemma live_process_reach:
  assumes "process_table s S" and "isolated L s S" and "layout_ok L" and "p < MAX_PROCESSES"
    and "memoryspace s p \<noteq> 0"
  shows "user_walk (tabs s) (curr_pd (pcbs s (slot_loc p))) a =
      (if 0x08000000 \<le> a \<and> a < 0x08400000 then Some (user_page p + (a - 0x08000000))
       else if 0x08800000 \<le> a \<and> a < 0x08801000 then Some (VIDMEM + (a - 0x08800000))
       else None)"
    and "0 < prog_count s (current_terminal s) \<Longrightarrow> cur_loc s = slot_loc p \<Longrightarrow>
      cr3 s = curr_pd (pcbs s (slot_loc p))"
proof -
  have p: "p \<in> set (live S)" using process_tableD(5) [OF assms(1,4)] assms(5) by (simp split: if_splits)
  note own = isolated_live [OF assms(1,2) p]
  show "user_walk (tabs s) (curr_pd (pcbs s (slot_loc p))) a =
      (if 0x08000000 \<le> a \<and> a < 0x08400000 then Some (user_page p + (a - 0x08000000))
       else if 0x08800000 \<le> a \<and> a < 0x08801000 then Some (VIDMEM + (a - 0x08800000))
       else None)"
    unfolding own(2) by (rule has_space_reach [OF assms(3,4) own(1)])
  assume run: "0 < prog_count s (current_terminal s)" "cur_loc s = slot_loc p"
  obtain q qs where q: "S (current_terminal s) = q # qs" using running_process [OF assms(1) run(1)] .
  note C = current_process [OF assms(1) q]
  have "q = p" using slot_loc_inject [OF C(2) assms(4)] C(1) run(2) by simp
  then show "cr3 s = curr_pd (pcbs s (slot_loc p))" using isolated_current [OF assms(2) q] own(2) by simp
qed

end
