(* ===== verification/Sys_Entry.thy ===== *)
theory Sys_Entry
  imports Kernel_Run
begin

text \<open>
  The entry of the system calls (\<open>sys_call_handler\<close> of \<open>wrapper.S\<close>): the check of the number, the
  table of the calls, and their arguments from the registers. Theory \<open>Entry_Frame\<close> has the segment
  registers and the registers that are saved around the call.
\<close>

text \<open>The registers of the program.\<close>

record call_regs =
  reg_eax :: u32
  reg_ebx :: u32
  reg_ecx :: u32
  reg_edx :: u32

text \<open>
  Where the processor goes on: behind the \<open>int\<close> with a result in \<open>eax\<close>, at the entry point of a
  new program, or behind the call of \<open>execute\<close> in the parent.
\<close>

datatype call_end = Back int | Starts u32 | Parent int

definition goes_back :: "(int \<times> 's) res \<Rightarrow> (call_end \<times> 's) res" where
  "goes_back r = bindE r (\<lambda>(n, s). Ok (Back n, s))"

text \<open>
  \<open>f\<close> is the stack frame of \<open>execute\<close>, \<open>g\<close> the uninitialised variable of \<open>open\<close>, \<open>irqs\<close> the
  interrupts that arrive while the call waits.
\<close>

definition sys_call_table :: "layout \<Rightarrow> frame \<Rightarrow> int \<Rightarrow> ('a kbd_scheme \<Rightarrow> 'a kbd_scheme res) list \<Rightarrow>
    nat \<Rightarrow> u32 \<Rightarrow> u32 \<Rightarrow> u32 \<Rightarrow> 'a kbd_scheme \<Rightarrow> (call_end \<times> 'a kbd_scheme) res" where
  "sys_call_table L f g irqs i b c d s =
     (if i = 0 then bindE (halt (ucast b) s) (\<lambda>s. bindE (halt_ret s) (\<lambda>(r, s). Ok (Parent r, s)))
      else if i = 1 then bindE (execute L f b s) (\<lambda>(e, s).
        Ok (case e of Returns r \<Rightarrow> Back r | Enters a \<Rightarrow> Starts a, s))
      else if i = 2 then goes_back (sys_read irqs (sint b) c (sint d) s)
      else if i = 3 then goes_back (sys_write (sint b) c (sint d) s)
      else if i = 4 then goes_back (sys_open g b s)
      else if i = 5 then goes_back (sys_close (sint b) s)
      else if i = 6 then goes_back (getargs b (sint c) s)
      else if i = 7 then goes_back (vidmap b s)
      else if i = 8 then Ok (Back set_handler, s)
      else Ok (Back sigreturn, s))"

definition sys_call :: "layout \<Rightarrow> frame \<Rightarrow> int \<Rightarrow> ('a kbd_scheme \<Rightarrow> 'a kbd_scheme res) list \<Rightarrow> call_regs \<Rightarrow>
    'a kbd_scheme \<Rightarrow> (call_end \<times> 'a kbd_scheme) res" where
  "sys_call L f g irqs R s =
     (if reg_eax R = 0 \<or> reg_eax R > 10 then Ok (Back (-1), s)
      else sys_call_table L f g irqs (unat (reg_eax R - 1)) (reg_ebx R) (reg_ecx R) (reg_edx R) s)"

subsection \<open>Every call is a run\<close>

text \<open>The event of a call; the last two calls and the numbers that are refused do nothing.\<close>

definition call_event :: "frame \<Rightarrow> int \<Rightarrow> call_regs \<Rightarrow> event option" where
  "call_event f g R =
     (let b = reg_ebx R; c = reg_ecx R; d = reg_edx R in
      if reg_eax R = 1 then Some (Halt (ucast b))
      else if reg_eax R = 2 then Some (Execute f b)
      else if reg_eax R = 3 then Some (Read (sint b) c (sint d))
      else if reg_eax R = 4 then Some (Write (sint b) c (sint d))
      else if reg_eax R = 5 then Some (Open g b)
      else if reg_eax R = 6 then Some (Close (sint b))
      else if reg_eax R = 7 then Some (Getargs b (sint c))
      else if reg_eax R = 8 then Some (Vidmap b)
      else None)"

text \<open>
  The interrupts that arrive while a call waits and that do not switch terminals. A switch goes on
  with another process; it is an event of its own between the two parts of the read.
\<close>

fun staying_irq :: "irq \<Rightarrow> 'a kbd_scheme \<Rightarrow> 'a kbd_scheme res" where
  "staying_irq Key s = staying_key s"
| "staying_irq Clock s = irq_handler Clock s"
| "staying_irq Timer s = irq_handler Timer s"

lemma staying_irq_handler: "staying_irq i s = Ok s' \<Longrightarrow> irq_handler i s = Ok s'"
  by (cases i) (auto simp: staying_key_def key_irq_def bindE_eq_Ok split: if_splits)

lemma stays_irq: "stays (staying_irq i)"
  using stays_key stays_ticks unfolding stays_def by (cases i) auto

text \<open>
  What a call amounts to: its event, or, for a read that waits, the beginning, some of the interrupts,
  and the end.
\<close>

definition call_events :: "frame \<Rightarrow> int \<Rightarrow> irq list \<Rightarrow> call_regs \<Rightarrow> event list \<Rightarrow> bool" where
  "call_events f g is R es \<longleftrightarrow>
     es = (case call_event f g R of None \<Rightarrow> [] | Some e \<Rightarrow> [e]) \<or>
     reg_eax R = 3 \<and> (\<exists>js ks. is = js @ ks \<and>
       (es = Line_wait # map Irq js @ [Line_read (reg_ecx R) (sint (reg_edx R))] \<or>
        es = Tick_wait # map Irq js @ [Tick_read]))"

lemma call_numbers:
  assumes "(n :: u32) \<noteq> 0" and "n \<le> 10"
  shows "n \<in> {1, 2, 3, 4, 5, 6, 7, 8, 9, 10}"
proof -
  have "0 < unat n" "unat n \<le> 10" using assms by (simp_all add: word_le_nat_alt unat_gt_0)
  then have "unat n = 1 \<or> unat n = 2 \<or> unat n = 3 \<or> unat n = 4 \<or> unat n = 5 \<or> unat n = 6 \<or>
      unat n = 7 \<or> unat n = 8 \<or> unat n = 9 \<or> unat n = 10" by presburger
  then show ?thesis by (elim disjE) (simp_all add: word_unat_eq_iff)
qed

lemma spin_until_run:
  assumes "spin_until c (map staying_irq is) s = Ok s'"
  shows "\<exists>js ks. is = js @ ks \<and> kernel_run L (map Irq js) s s' \<and> steady s s' \<and> c s'"
  using assms
proof (induction "is" arbitrary: s)
  case Nil
  then show ?case using run_nil steady_refl by (auto split: if_splits)
next
  case (Cons i "is")
  show ?case
  proof (cases "c s")
    case True
    then show ?thesis
      using Cons.prems run_nil steady_refl by (intro exI [of _ "[]"] exI [of _ "i # is"]) auto
  next
    case False
    then obtain t where t: "staying_irq i s = Ok t" "spin_until c (map staying_irq is) t = Ok s'"
      using Cons.prems by (auto simp: bindE_eq_Ok)
    obtain js ks where js: "is = js @ ks" "kernel_run L (map Irq js) t s'" "steady t s'" "c s'"
      using Cons.IH [OF t(2)] by blast
    have "steady s t" using stays_irq t(1) by (auto simp: stays_def)
    then have "steady s s'" using js(3) steady_trans by blast
    moreover have "kernel_run L (map Irq (i # js)) s s'"
      using run_cons [OF step_irq [OF staying_irq_handler [OF t(1)]] js(2)] by simp
    ultimately show ?thesis using js(1,4) by (metis append_Cons)
  qed
qed

lemma steady_running: "steady s s' \<Longrightarrow> current_terminal s' = current_terminal s \<and> running s' = running s"
  by (simp add: steady_def same_table_def)

text \<open>A read that waits, in its parts.\<close>

lemma waiting_run:
  assumes "kernel_step L e s u" and "spin_until c (map staying_irq is) u = Ok v" and "kernel_step L e' v s'"
  shows "\<exists>js ks. is = js @ ks \<and> kernel_run L (e # map Irq js @ [e']) s s'"
  using spin_until_run [OF assms(2)] run_cons [OF assms(1) run_append [OF _ run_one [OF assms(3)]]] by blast

lemma terminal_read_run:
  assumes "terminal_read (map staying_irq is) buf n s = Ok (r, s')" and "running s"
  shows "terminal_read [] buf n s = Ok (r, s') \<or>
    (\<exists>js ks. is = js @ ks \<and> kernel_run L (Line_wait # map Irq js @ [Line_read buf n]) s s')"
proof (cases "buf = 0 \<or> n < 0")
  case False
  let ?t = "current_terminal s"
  obtain u where u: "spin_until (\<lambda>u. enter_flag u ?t \<noteq> OFF) (map staying_irq is) (line_wait s) = Ok u"
    "line_read ?t buf n u = Ok (r, s')"
    using False assms(1) by (auto simp: terminal_read_parts bindE_eq_Ok)
  have "steady s u"
    using spin_until_run [OF u(1)] kview_steady [OF line_wait_procs [of s]] steady_trans by blast
  then have c: "current_terminal u = ?t" "running u" using steady_running [of s u] assms(2) by auto
  have "enter_flag u ?t \<noteq> OFF" using spin_until_stop [OF u(1)] .
  then have "kernel_step L (Line_read buf n) u s'"
    using step_line_read [OF c(2), of buf n r s' L] u(2) c(1) by simp
  then show ?thesis using waiting_run [OF step_line_wait [OF assms(2)] u(1)] by blast
qed (use assms(1) in \<open>auto simp: terminal_read_parts\<close>)

lemma rtc_read_run:
  assumes "rtc_read (map staying_irq is) s = Ok (r, s')" and "running s"
  shows "\<exists>js ks. is = js @ ks \<and> kernel_run L (Tick_wait # map Irq js @ [Tick_read]) s s'"
proof -
  obtain u where u: "spin_until (\<lambda>s. int_flag s = HIGH) (map staying_irq is) (sti s) = Ok u"
    "s' = u\<lparr>int_flag := LOW\<rparr>"
    using assms(1) by (auto simp: rtc_read_def Let_def bindE_eq_Ok)
  have "kview (sti s) = kview s" by (simp add: kview_defs sti_def)
  then have "steady s u" using spin_until_run [OF u(1)] kview_steady steady_trans by blast
  then have "running u" using steady_running [of s u] assms(2) by auto
  then have "kernel_step L Tick_read u s'" unfolding u(2) using spin_until_stop [OF u(1)] by (rule step_tick_read)
  then show ?thesis using waiting_run [OF step_tick_wait [OF assms(2)] u(1)] by blast
qed

lemma sys_read_run:
  assumes "sys_read (map staying_irq is) fd buf n s = Ok (r, s')" and "running s"
  shows "kernel_step L (Read fd buf n) s s' \<or> (\<exists>js ks. is = js @ ks \<and>
    (kernel_run L (Line_wait # map Irq js @ [Line_read buf n]) s s' \<or>
     kernel_run L (Tick_wait # map Irq js @ [Tick_read]) s s'))"
proof (cases "sys_read [] fd buf n s = Ok (r, s')")
  case True
  then show ?thesis using step_read [OF assms(2)] by blast
next
  case False
  obtain e where fd: "\<not> (fd < MIN_FDENTRY \<or> fd > MAX_FDENTRY)" "get_fd fd s = Ok e" "flags e \<noteq> 0" "fd \<noteq> int STDOUT_NUM"
    and e: "call_read (map staying_irq is) (fops_ptr e) fd buf n s = Ok (r, s')"
    using assms(1) False by (fastforce simp: sys_read_def bindE_eq_Ok split: if_splits)
  have e0: "call_read [] (fops_ptr e) fd buf n s \<noteq> Ok (r, s')"
    using False fd by (simp add: sys_read_def)
  show ?thesis
  proof (cases "fops_ptr e = RtcTable")
    case True
    then have "rtc_read (map staying_irq is) s = Ok (r, s')" using e by (simp add: call_read_def)
    from rtc_read_run [OF this assms(2), of L] show ?thesis by blast
  next
    case False
    then have "terminal_read (map staying_irq is) buf n s = Ok (r, s')" "terminal_read [] buf n s \<noteq> Ok (r, s')"
      using e e0 by (auto simp: call_read_def split: jmp_table.splits)
    then show ?thesis using terminal_read_run [OF _ assms(2)] by blast
  qed
qed

lemma sys_call_run:
  assumes "sys_call L f g (map staying_irq is) R s = Ok (e, s')" and "running s" and "frame_ok f"
  shows "\<exists>es. call_events f g is R es \<and> kernel_run L es s s'"
proof (cases "reg_eax R = 0 \<or> reg_eax R > 10")
  case True
  then have "reg_eax R \<notin> {1, 2, 3, 4, 5, 6, 7, 8}" by auto
  then have "call_event f g R = None" by (simp add: call_event_def Let_def)
  then show ?thesis using assms(1) True run_nil by (auto simp: sys_call_def call_events_def)
next
  case False
  then have n: "reg_eax R \<in> {1, 2, 3, 4, 5, 6, 7, 8, 9, 10}"
    using call_numbers [of "reg_eax R"] by auto
  have call: "sys_call_table L f g (map staying_irq is) (unat (reg_eax R - 1)) (reg_ebx R) (reg_ecx R) (reg_edx R) s =
      Ok (e, s')"
    using assms(1) False by (simp add: sys_call_def split: if_splits)
  have b: "\<exists>r. x = Ok (r, s')" if "goes_back x = Ok (e, s')" for x :: "(int \<times> 'a kbd_scheme) res"
    using that by (auto simp: goes_back_def bindE_eq_Ok)
  have one: ?thesis if "call_event f g R = Some v" "kernel_step L v s s'" for v
    using that run_one [OF that(2)] by (intro exI [of _ "[v]"]) (simp add: call_events_def)
  consider "reg_eax R = 1" | "reg_eax R = 2" | "reg_eax R = 3" | "reg_eax R = 4" | "reg_eax R = 5"
    | "reg_eax R = 6" | "reg_eax R = 7" | "reg_eax R = 8" | "reg_eax R \<in> {9, 10}" using n by blast
  then show ?thesis
  proof cases
    case 1
    then show ?thesis
      using call assms(2) by (intro one [of "Halt (ucast (reg_ebx R))"])
        (auto simp: sys_call_table_def bindE_eq_Ok call_event_def intro: step_halt)
  next
    case 2
    then show ?thesis
      using call assms(3) by (intro one [of "Execute f (reg_ebx R)"])
        (auto simp: sys_call_table_def bindE_eq_Ok call_event_def intro: step_execute)
  next
    case 3
    then obtain r where r: "sys_read (map staying_irq is) (sint (reg_ebx R)) (reg_ecx R) (sint (reg_edx R)) s = Ok (r, s')"
      using call by (auto simp: sys_call_table_def dest!: b)
    have ev: "call_event f g R = Some (Read (sint (reg_ebx R)) (reg_ecx R) (sint (reg_edx R)))"
      using 3 by (simp add: call_event_def)
    from sys_read_run [OF r assms(2), of L] show ?thesis
      using one [OF ev] 3 unfolding call_events_def by blast
  next
    case 4
    then show ?thesis
      using call assms(2) by (intro one [of "Write (sint (reg_ebx R)) (reg_ecx R) (sint (reg_edx R))"])
        (auto simp: sys_call_table_def call_event_def dest!: b intro: step_write)
  next
    case 5
    then show ?thesis
      using call assms(2) by (intro one [of "Open g (reg_ebx R)"])
        (auto simp: sys_call_table_def call_event_def dest!: b intro: step_open)
  next
    case 6
    then show ?thesis
      using call assms(2) by (intro one [of "Close (sint (reg_ebx R))"])
        (auto simp: sys_call_table_def call_event_def dest!: b intro: step_close)
  next
    case 7
    then show ?thesis
      using call assms(2) by (intro one [of "Getargs (reg_ebx R) (sint (reg_ecx R))"])
        (auto simp: sys_call_table_def call_event_def dest!: b intro: step_getargs)
  next
    case 8
    then show ?thesis
      using call assms(2) by (intro one [of "Vidmap (reg_ebx R)"])
        (auto simp: sys_call_table_def call_event_def dest!: b intro: step_vidmap)
  next
    case 9
    then have "call_event f g R = None" by (auto simp: call_event_def)
    moreover have "s' = s" using 9 call by (auto simp: sys_call_table_def)
    ultimately show ?thesis using run_nil by (auto simp: call_events_def)
  qed
qed

end
