(* ===== verification/Idt.thy ===== *)
theory Idt
  imports Descriptors Printf Sys_Entry Pit
begin

text \<open>
  The interrupt descriptor table and the exception handlers (\<open>idt.c\<close>, \<open>handlers.h\<close>,
  the wrappers of \<open>wrapper.S\<close>). The addresses of the assembly wrappers are chosen by the
  linker: they are a function of the wrapper's name.
\<close>

abbreviation NUM_EXCEPTIONS :: nat where "NUM_EXCEPTIONS \<equiv> 0x20"
abbreviation PIT_IDT :: nat where "PIT_IDT \<equiv> 32"
abbreviation KEYBOARD_IDT :: nat where "KEYBOARD_IDT \<equiv> 33"
abbreviation RTC_IDT :: nat where "RTC_IDT \<equiv> 40"
abbreviation SYSCALLS :: nat where "SYSCALLS \<equiv> 0x80"

subsection \<open>Exception handlers\<close>

text \<open>Every handler prints its message and loops for ever, with interrupts off, in the state it gives.\<close>

datatype 'a spin = Spins 'a

definition divide_zero :: "'a console_scheme \<Rightarrow> 'a console_scheme spin" where
  "divide_zero s = Spins (snd (printk (bytes_of ''Divide Error Exception\<newline>'') (cli s)))"

definition debug_exception :: "'a console_scheme \<Rightarrow> 'a console_scheme spin" where
  "debug_exception s = Spins (snd (printk (bytes_of ''Debug Exception\<newline>'') (cli s)))"

definition nm_interrupt :: "'a console_scheme \<Rightarrow> 'a console_scheme spin" where
  "nm_interrupt s = Spins (snd (printk (bytes_of ''NMI Interrupt\<newline>'') (cli s)))"

definition breakpoint_exception :: "'a console_scheme \<Rightarrow> 'a console_scheme spin" where
  "breakpoint_exception s = Spins (snd (printk (bytes_of ''Breakpoint Exception\<newline>'') (cli s)))"

definition id_overflow :: "'a console_scheme \<Rightarrow> 'a console_scheme spin" where
  "id_overflow s = Spins (snd (printk (bytes_of ''Overflow Exception\<newline>'') (cli s)))"

definition out_of_bounds :: "'a console_scheme \<Rightarrow> 'a console_scheme spin" where
  "out_of_bounds s = Spins (snd (printk (bytes_of ''BOUND Range Exceeded Exception\<newline>'') (cli s)))"

definition invalid_opcode :: "'a console_scheme \<Rightarrow> 'a console_scheme spin" where
  "invalid_opcode s = Spins (snd (printk (bytes_of ''Invalid Opcode Exception\<newline>'') (cli s)))"

definition no_coprocessor :: "'a console_scheme \<Rightarrow> 'a console_scheme spin" where
  "no_coprocessor s = Spins (snd (printk (bytes_of ''No coprocessor exception\<newline>'') (cli s)))"

definition double_fault :: "'a console_scheme \<Rightarrow> 'a console_scheme spin" where
  "double_fault s = Spins (snd (printk (bytes_of ''Double Fault Exception\<newline>'') (cli s)))"

definition coprocessor_overrun :: "'a console_scheme \<Rightarrow> 'a console_scheme spin" where
  "coprocessor_overrun s = Spins (snd (printk (bytes_of ''Coprocessor Segment Overrun\<newline>'') (cli s)))"

definition bad_tss :: "'a console_scheme \<Rightarrow> 'a console_scheme spin" where
  "bad_tss s = Spins (snd (printk (bytes_of ''Invalid TSS Exception\<newline>'') (cli s)))"

definition segment_not_present :: "'a console_scheme \<Rightarrow> 'a console_scheme spin" where
  "segment_not_present s = Spins (snd (printk (bytes_of ''Segment Not Present\<newline>'') (cli s)))"

definition stack_fault :: "'a console_scheme \<Rightarrow> 'a console_scheme spin" where
  "stack_fault s = Spins (snd (printk (bytes_of ''Stack Fault Exception\<newline>'') (cli s)))"

definition general_protection_fault :: "'a console_scheme \<Rightarrow> 'a console_scheme spin" where
  "general_protection_fault s = Spins (snd (printk (bytes_of ''General Protection Exception\<newline>'') (cli s)))"

text \<open>The faulting address is in register \<open>cr2\<close>.\<close>

definition page_fault :: "(nat \<Rightarrow> u8 list) \<Rightarrow> u32 \<Rightarrow> 'a console_scheme \<Rightarrow> 'a console_scheme spin res" where
  "page_fault junk cr2 s =
     bindE (printf junk (bytes_of ''Page-Fault at address: 0x%x\<newline>'') (\<lambda>_. cr2) (cli s)) (\<lambda>(_, s).
     Ok (Spins s))"

definition unknown_interrupt :: "'a console_scheme \<Rightarrow> 'a console_scheme spin" where
  "unknown_interrupt s = Spins (snd (printk (bytes_of ''Unknown interrupt exception\<newline>'') (cli s)))"

definition coprocessor_fault :: "'a console_scheme \<Rightarrow> 'a console_scheme spin" where
  "coprocessor_fault s = Spins (snd (printk (bytes_of ''Coprocessor fault\<newline>'') (cli s)))"

definition alignment_check :: "'a console_scheme \<Rightarrow> 'a console_scheme spin" where
  "alignment_check s = Spins (snd (printk (bytes_of ''Alignment Check Exception\<newline>'') (cli s)))"

definition machine_check :: "'a console_scheme \<Rightarrow> 'a console_scheme spin" where
  "machine_check s = Spins (snd (printk (bytes_of ''Machine-Check Exception\<newline>'') (cli s)))"

definition floating_point :: "'a console_scheme \<Rightarrow> 'a console_scheme spin" where
  "floating_point s = Spins (snd (printk (bytes_of ''SIMD Floating-Point Exception\<newline>'') (cli s)))"

subsection \<open>Device handlers\<close>

definition pit :: "'a machine_scheme \<Rightarrow> 'a machine_scheme" where
  "pit s = pit_handler s"

definition keyboard :: "'a kbd_scheme \<Rightarrow> (switch_end \<times> 'a kbd_scheme) res" where
  "keyboard s = keyboard_handler s"

definition rtc_interrupt :: "'a rtc_scheme \<Rightarrow> 'a rtc_scheme" where
  "rtc_interrupt s = rtc_handler s"

subsection \<open>Wrappers\<close>

datatype wrapper =
  divide_zero1 | debug_exception1 | nm_interrupt1 | breakpoint_exception1
  | id_overflow1 | out_of_bounds1 | invalid_opcode1 | no_coprocessor1
  | double_fault1 | coprocessor_overrun1 | bad_tss1 | segment_not_present1
  | stack_fault1 | general_protection_fault1 | page_fault1 | unknown_interrupt1
  | coprocessor_fault1 | alignment_check1 | machine_check1 | floating_point1
  | pit1 | keyboard1 | rtc1 | sys_call_handler

text \<open>
  What a wrapper calls. The handlers of the exceptions do not return; the others return to the
  interrupted program.
\<close>

datatype 'a handled = Stops 'a | Resumes 'a

fun spinning :: "'a spin \<Rightarrow> 'a handled res" where
  "spinning (Spins s) = Ok (Stops s)"

text \<open>
  The arguments are what a system call needs, the registers of the program among it, and what a page
  fault needs: its stack frame and the address in \<open>cr2\<close>.
\<close>

definition call_wrapper :: "layout \<Rightarrow> frame \<Rightarrow> int \<Rightarrow> ('a kbd_scheme \<Rightarrow> 'a kbd_scheme res) list \<Rightarrow> call_regs \<Rightarrow>
    (nat \<Rightarrow> u8 list) \<Rightarrow> u32 \<Rightarrow> wrapper \<Rightarrow> 'a kbd_scheme \<Rightarrow> 'a kbd_scheme handled res" where
  "call_wrapper L f g irqs R junk cr2 w s =
     (case w of
        divide_zero1 \<Rightarrow> spinning (divide_zero s)
      | debug_exception1 \<Rightarrow> spinning (debug_exception s)
      | nm_interrupt1 \<Rightarrow> spinning (nm_interrupt s)
      | breakpoint_exception1 \<Rightarrow> spinning (breakpoint_exception s)
      | id_overflow1 \<Rightarrow> spinning (id_overflow s)
      | out_of_bounds1 \<Rightarrow> spinning (out_of_bounds s)
      | invalid_opcode1 \<Rightarrow> spinning (invalid_opcode s)
      | no_coprocessor1 \<Rightarrow> spinning (no_coprocessor s)
      | double_fault1 \<Rightarrow> spinning (double_fault s)
      | coprocessor_overrun1 \<Rightarrow> spinning (coprocessor_overrun s)
      | bad_tss1 \<Rightarrow> spinning (bad_tss s)
      | segment_not_present1 \<Rightarrow> spinning (segment_not_present s)
      | stack_fault1 \<Rightarrow> spinning (stack_fault s)
      | general_protection_fault1 \<Rightarrow> spinning (general_protection_fault s)
      | page_fault1 \<Rightarrow> bindE (page_fault junk cr2 s) spinning
      | unknown_interrupt1 \<Rightarrow> spinning (unknown_interrupt s)
      | coprocessor_fault1 \<Rightarrow> spinning (coprocessor_fault s)
      | alignment_check1 \<Rightarrow> spinning (alignment_check s)
      | machine_check1 \<Rightarrow> spinning (machine_check s)
      | floating_point1 \<Rightarrow> spinning (floating_point s)
      | pit1 \<Rightarrow> Ok (Resumes (pit s))
      | keyboard1 \<Rightarrow> bindE (keyboard s) (\<lambda>(_, s). Ok (Resumes s))
      | rtc1 \<Rightarrow> Ok (Resumes (rtc_interrupt s))
      | sys_call_handler \<Rightarrow> bindE (sys_call L f g irqs R s) (\<lambda>(_, s). Ok (Resumes s)))"

subsection \<open>The table\<close>

definition init_gate :: "1 word \<Rightarrow> 2 word \<Rightarrow> idt_desc \<Rightarrow> idt_desc" where
  "init_gate r3 privilege g = g\<lparr>gate_present := 1, gate_dpl := privilege, reserved0 := 0, gate_size := 1,
     reserved1 := 1, reserved2 := 1, reserved3 := r3, seg_selector := KERNEL_CS\<rparr>"

definition put_gate :: "(wrapper \<Rightarrow> u32) \<Rightarrow> nat \<Rightarrow> wrapper \<Rightarrow> (nat \<Rightarrow> idt_desc) \<Rightarrow> nat \<Rightarrow> idt_desc" where
  "put_gate h v w idt = idt(v := SET_IDT_ENTRY (idt v) (h w))"

definition exception_wrappers :: "(nat \<times> wrapper) list" where
  "exception_wrappers =
     [(0, divide_zero1), (1, debug_exception1), (2, nm_interrupt1), (3, breakpoint_exception1),
      (4, id_overflow1), (5, out_of_bounds1), (6, invalid_opcode1), (7, no_coprocessor1),
      (8, double_fault1), (9, coprocessor_overrun1), (10, bad_tss1), (11, segment_not_present1),
      (12, stack_fault1), (13, general_protection_fault1), (14, page_fault1), (15, unknown_interrupt1),
      (16, coprocessor_fault1), (17, alignment_check1), (18, machine_check1), (19, floating_point1)]"

definition setup_exceptions :: "(wrapper \<Rightarrow> u32) \<Rightarrow> (nat \<Rightarrow> idt_desc) \<Rightarrow> nat \<Rightarrow> idt_desc" where
  "setup_exceptions h idt =
     (let idt = for_loop 0 NUM_EXCEPTIONS (\<lambda>i idt. idt(i := init_gate 0 0 (idt i))) idt;
          idt = fold (\<lambda>(i, w). put_gate h i w) exception_wrappers idt;
          idt = idt(PIT_IDT := init_gate 1 0 (idt PIT_IDT));
          idt = put_gate h PIT_IDT pit1 idt;
          idt = idt(KEYBOARD_IDT := init_gate 1 0 (idt KEYBOARD_IDT));
          idt = put_gate h KEYBOARD_IDT keyboard1 idt;
          idt = idt(RTC_IDT := init_gate 1 0 (idt RTC_IDT));
          idt = put_gate h RTC_IDT rtc1 idt;
          idt = idt(SYSCALLS := init_gate 0 USERPRV (idt SYSCALLS))
      in put_gate h SYSCALLS sys_call_handler idt)"

subsection \<open>What the table does\<close>

text \<open>The vectors that have a handler.\<close>

definition vector_wrapper :: "nat \<Rightarrow> wrapper option" where
  "vector_wrapper v =
     (if v < 20 then Some (snd (exception_wrappers ! v))
      else if v = PIT_IDT then Some pit1 else if v = KEYBOARD_IDT then Some keyboard1
      else if v = RTC_IDT then Some rtc1 else if v = SYSCALLS then Some sys_call_handler else None)"

lemma init_loop:
  "for_loop 0 n (\<lambda>i idt. idt(i := init_gate r p (idt i))) idt = (\<lambda>v. if v < n then init_gate r p (idt v) else idt v)"
  by (induction n) (auto simp: for_loop_Suc fun_eq_iff less_Suc_eq)

lemma fold_entries:
  "distinct (map fst ws) \<Longrightarrow>
   fold (\<lambda>(i, w). put_gate h i w) ws idt v =
     (case map_of ws v of None \<Rightarrow> idt v | Some w \<Rightarrow> SET_IDT_ENTRY (idt v) (h w))"
proof (induction ws arbitrary: idt)
  case (Cons x ws)
  obtain i w where x: "x = (i, w)" by (cases x)
  have "map_of ws i = None" using Cons.prems x by (simp add: map_of_eq_None_iff)
  then show ?case using Cons x by (auto simp: put_gate_def split: option.split)
qed simp

lemma exception_wrappers_list:
  "map fst exception_wrappers = [0..<20]" "length exception_wrappers = 20"
  by (simp_all add: exception_wrappers_def upt_conv_Cons)

lemma exception_wrapper_of:
  "map_of exception_wrappers v = (if v < 20 then Some (snd (exception_wrappers ! v)) else None)"
proof (cases "v < 20")
  case True
  have "fst (exception_wrappers ! v) = v"
    using True exception_wrappers_list by (metis add_0 nth_map nth_upt diff_zero)
  then have "(v, snd (exception_wrappers ! v)) \<in> set exception_wrappers"
    using True exception_wrappers_list(2) by (metis nth_mem prod.collapse)
  then show ?thesis
    using True exception_wrappers_list(1) by (simp add: map_of_is_SomeI)
next
  case False
  then have "v \<notin> set (map fst exception_wrappers)" unfolding exception_wrappers_list(1) by simp
  then show ?thesis using False by (simp add: map_of_eq_None_iff)
qed

text \<open>The final gate of each vector.\<close>

lemma setup_gate:
  "setup_exceptions h idt v =
     (case vector_wrapper v of
        Some w \<Rightarrow>
          SET_IDT_ENTRY (init_gate (if v \<in> {PIT_IDT, KEYBOARD_IDT, RTC_IDT} then 1 else 0)
            (if v = SYSCALLS then USERPRV else 0) (idt v)) (h w)
      | None \<Rightarrow> if v < NUM_EXCEPTIONS then init_gate 0 0 (idt v) else idt v)"
proof -
  have d: "distinct (map fst exception_wrappers)" unfolding exception_wrappers_list(1) by simp
  have "v < 20 \<or> 20 \<le> v \<and> v < 32 \<or> v = PIT_IDT \<or> v = KEYBOARD_IDT \<or> v = RTC_IDT \<or> v = SYSCALLS \<or>
      32 \<le> v \<and> v \<notin> {PIT_IDT, KEYBOARD_IDT, RTC_IDT, SYSCALLS}" by auto
  then show ?thesis
    by (elim disjE) (simp_all add: setup_exceptions_def Let_def init_loop fold_entries [OF d]
        exception_wrapper_of vector_wrapper_def put_gate_def)
qed

text \<open>
  As the processor reads them: the exceptions and the system call are interrupt gates, which
  disable interrupts on entry, the devices are trap gates, which do not; only the system call may
  be raised by a program.
\<close>

definition routes :: "idt_desc \<Rightarrow> u32 \<Rightarrow> u32 \<Rightarrow> u32 \<Rightarrow> bool" where
  "routes g target kind level \<longleftrightarrow>
     cpu_offset (gate_low g) (gate_high g) = target \<and> cpu_selector (gate_low g) = ucast KERNEL_CS \<and>
     cpu_present (gate_high g) \<and> cpu_type (gate_high g) = kind \<and> cpu_dpl (gate_high g) = level"

lemma entry_fields [simp]:
  "reserved0 (SET_IDT_ENTRY g x) = reserved0 g" "reserved1 (SET_IDT_ENTRY g x) = reserved1 g"
  "reserved2 (SET_IDT_ENTRY g x) = reserved2 g" "reserved3 (SET_IDT_ENTRY g x) = reserved3 g"
  "gate_size (SET_IDT_ENTRY g x) = gate_size g" "gate_dpl (SET_IDT_ENTRY g x) = gate_dpl g"
  "gate_present (SET_IDT_ENTRY g x) = gate_present g" "seg_selector (SET_IDT_ENTRY g x) = seg_selector g"
  by (simp_all add: SET_IDT_ENTRY_def)

lemma init_gate_fields [simp]:
  "reserved0 (init_gate r p g) = 0" "reserved1 (init_gate r p g) = 1"
  "reserved2 (init_gate r p g) = 1" "reserved3 (init_gate r p g) = r"
  "gate_size (init_gate r p g) = 1" "gate_dpl (init_gate r p g) = p"
  "gate_present (init_gate r p g) = 1" "seg_selector (init_gate r p g) = KERNEL_CS"
  "offset_31_16 (init_gate r p g) = offset_31_16 g" "offset_15_00 (init_gate r p g) = offset_15_00 g"
  by (simp_all add: init_gate_def)

lemma init_gate_routes:
  "routes (SET_IDT_ENTRY (init_gate r p g) x) x (if r = 1 then TRAP_GATE else INTERRUPT_GATE) (ucast p)"
proof -
  have "r = (if bit r 0 then 1 else 0)" by (rule word_eq_bits) simp
  then have "r = 0 \<or> r = 1" by (metis (full_types))
  then show ?thesis
    by (auto simp: routes_def idt_entry_decode gate_selector gate_dpl_present gate_types)
qed

lemma setup_routes:
  assumes "vector_wrapper v = Some w"
  shows "routes (setup_exceptions h idt v) (h w)
    (if v \<in> {PIT_IDT, KEYBOARD_IDT, RTC_IDT} then TRAP_GATE else INTERRUPT_GATE)
    (if v = SYSCALLS then 3 else 0)"
  using init_gate_routes [of "if v \<in> {PIT_IDT, KEYBOARD_IDT, RTC_IDT} then 1 else 0"
      "if v = SYSCALLS then USERPRV else 0" "idt v" "h w"]
  by (auto simp: setup_gate assms split: if_splits)

text \<open>
  The reserved vectors 20 to 31 are present but have no entry point: in a table of zeros they lead
  to address 0, which the kernel's page tables do not map.
\<close>

lemma setup_reserved:
  assumes "20 \<le> v" and "v < 32"
  shows "cpu_present (gate_high (setup_exceptions h idt v))"
    and "offset_31_16 (idt v) = 0 \<Longrightarrow> offset_15_00 (idt v) = 0 \<Longrightarrow>
      cpu_offset (gate_low (setup_exceptions h idt v)) (gate_high (setup_exceptions h idt v)) = 0"
proof -
  have g: "setup_exceptions h idt v = init_gate 0 0 (idt v)"
    using assms by (simp add: setup_gate vector_wrapper_def)
  then show "cpu_present (gate_high (setup_exceptions h idt v))" by (simp add: gate_dpl_present)
  assume zero: "offset_31_16 (idt v) = 0" "offset_15_00 (idt v) = 0"
  show "cpu_offset (gate_low (setup_exceptions h idt v)) (gate_high (setup_exceptions h idt v)) = 0"
  proof (rule word_eq_bits)
    fix n :: nat
    show "bit (cpu_offset (gate_low (setup_exceptions h idt v)) (gate_high (setup_exceptions h idt v))) n = bit 0 n"
      by (cases "n < 16") (simp_all add: cpu_offset_def bit_or_iff mask_bits gate_low_bit gate_high_bit g zero)
  qed
qed

subsection \<open>Exceptions\<close>

text \<open>What each exception prints.\<close>

fun exception_text :: "u32 \<Rightarrow> wrapper \<Rightarrow> u8 list" where
  "exception_text cr2 divide_zero1 = bytes_of ''Divide Error Exception\<newline>''"
| "exception_text cr2 debug_exception1 = bytes_of ''Debug Exception\<newline>''"
| "exception_text cr2 nm_interrupt1 = bytes_of ''NMI Interrupt\<newline>''"
| "exception_text cr2 breakpoint_exception1 = bytes_of ''Breakpoint Exception\<newline>''"
| "exception_text cr2 id_overflow1 = bytes_of ''Overflow Exception\<newline>''"
| "exception_text cr2 out_of_bounds1 = bytes_of ''BOUND Range Exceeded Exception\<newline>''"
| "exception_text cr2 invalid_opcode1 = bytes_of ''Invalid Opcode Exception\<newline>''"
| "exception_text cr2 no_coprocessor1 = bytes_of ''No coprocessor exception\<newline>''"
| "exception_text cr2 double_fault1 = bytes_of ''Double Fault Exception\<newline>''"
| "exception_text cr2 coprocessor_overrun1 = bytes_of ''Coprocessor Segment Overrun\<newline>''"
| "exception_text cr2 bad_tss1 = bytes_of ''Invalid TSS Exception\<newline>''"
| "exception_text cr2 segment_not_present1 = bytes_of ''Segment Not Present\<newline>''"
| "exception_text cr2 stack_fault1 = bytes_of ''Stack Fault Exception\<newline>''"
| "exception_text cr2 general_protection_fault1 = bytes_of ''General Protection Exception\<newline>''"
| "exception_text cr2 page_fault1 = bytes_of ''Page-Fault at address: 0x'' @ number_text 16 (unat cr2) @ [CH_NEWLINE]"
| "exception_text cr2 unknown_interrupt1 = bytes_of ''Unknown interrupt exception\<newline>''"
| "exception_text cr2 coprocessor_fault1 = bytes_of ''Coprocessor fault\<newline>''"
| "exception_text cr2 alignment_check1 = bytes_of ''Alignment Check Exception\<newline>''"
| "exception_text cr2 machine_check1 = bytes_of ''Machine-Check Exception\<newline>''"
| "exception_text cr2 floating_point1 = bytes_of ''SIMD Floating-Point Exception\<newline>''"
| "exception_text cr2 w = []"

text \<open>The page fault handler uses \<open>putc\<close>, the others \<open>term_putc\<close>.\<close>

definition exception_screen :: "u32 \<Rightarrow> wrapper \<Rightarrow> 'a console_scheme \<Rightarrow> 'a console_scheme" where
  "exception_screen cr2 w s =
     fold (if w = page_fault1 then putc else term_putc) (exception_text cr2 w) (cli s)"

lemma exception_screen_masked: "\<not> bit (eflags (exception_screen cr2 w s)) 9"
proof -
  have "quiet (exception_screen cr2 w s) = quiet (cli s)"
    unfolding exception_screen_def by (rule fold_invariant [where Q = "\<lambda>_. True"]) simp_all
  then have "eflags (exception_screen cr2 w s) = eflags (cli s)" by (rule quiet_eqD)
  then show ?thesis by (simp add: cli_def IF_MASK_def bit_simps)
qed

lemma page_fault_prints:
  assumes "\<forall>i. 64 \<le> length (junk i)"
  shows "page_fault junk cr2 s = Ok (Spins (fold putc (exception_text cr2 page_fault1) (cli s)))"
proof -
  let ?ds = "map Char (bytes_of ''Page-Fault at address: 0x'') @ [Hex, Char CH_NEWLINE]"
  have "concat (map spell ?ds) = bytes_of ''Page-Fault at address: 0x%x\<newline>''"
    by (simp add: bytes_of_def)
  moreover have "list_all directive_ok ?ds"
    by (simp add: bytes_of_def directive_ok_def)
  moreover have "texts (\<lambda>_. cr2) 0 ?ds = exception_text cr2 page_fault1"
    by (simp add: bytes_of_def)
  ultimately show ?thesis
    using printf_texts [OF _ assms, of ?ds "\<lambda>_. cr2" "cli s"] by (simp add: page_fault_def)
qed

lemma exception_stops:
  assumes "v < 20" and "vector_wrapper v = Some w" and "\<forall>i. 64 \<le> length (junk i)"
  shows "call_wrapper L f g irqs R junk cr2 w s = Ok (Stops (exception_screen cr2 w s))"
proof -
  have "w \<in> snd ` set exception_wrappers"
    using assms(1,2) exception_wrappers_list(2) by (auto simp: vector_wrapper_def)
  then show ?thesis
    by (auto simp: exception_wrappers_def call_wrapper_def exception_screen_def printk_def
        page_fault_prints [OF assms(3)] divide_zero_def debug_exception_def nm_interrupt_def breakpoint_exception_def id_overflow_def out_of_bounds_def invalid_opcode_def no_coprocessor_def double_fault_def coprocessor_overrun_def bad_tss_def segment_not_present_def stack_fault_def general_protection_fault_def unknown_interrupt_def coprocessor_fault_def alignment_check_def machine_check_def floating_point_def
        simp del: exception_text.simps(15))
qed

end
