(* ===== verification/Program_Start.thy ===== *)
theory Program_Start
  imports Process_Table
begin

text \<open>
  What \<open>execute\<close> does with a command that names a program: it is entered at the address in its
  header, with the file in its memory at \<open>PROGADDR\<close> and the rest of the command as its
  arguments, which \<open>getargs\<close> hands out.
\<close>

subsection \<open>The command line\<close>

text \<open>
  The first word of a command has \<open>n\<close> characters; the argument reaches from \<open>n + 1\<close> to
  below \<open>m\<close>. When the command has no argument, its terminator is at \<open>n\<close>, and the argument is
  what happens to lie behind it.
\<close>

definition command_line :: "reader \<Rightarrow> (nat \<Rightarrow> u8) \<Rightarrow> nat \<Rightarrow> nat \<Rightarrow> bool" where
  "command_line r c n m \<longleftrightarrow> 0 < n \<and> n < m \<and> m \<le> BUFFASIZE \<and> (\<forall>i < m. r i = Ok (c i)) \<and>
     (\<forall>i < n. c i \<noteq> 0 \<and> c i \<noteq> CH_SPACE) \<and> (c n = 0 \<or> c n = CH_SPACE) \<and>
     (\<forall>i. n < i \<and> i < m \<longrightarrow> c i \<noteq> 0) \<and> (m < BUFFASIZE \<longrightarrow> r m = Ok 0)"

lemma copy_name_word:
  assumes "command_line r c n m" and "length buf = BUFFASIZE" and "i \<le> n"
    and "\<forall>j < i. buf ! j = c j"
  shows "\<exists>buf'. copy_name r i buf i = Ok (buf', n) \<and> length buf' = BUFFASIZE \<and>
    (\<forall>j < n. buf' ! j = c j) \<and> buf' ! n = 0"
  using assms(3,2,4)
proof (induction i arbitrary: buf rule: inc_induct)
  case base
  have "n < BUFFASIZE" "r n = Ok (c n)" "c n = 0 \<or> c n = CH_SPACE"
    using assms(1) by (auto simp: command_line_def)
  then show ?case
    using base by (subst copy_name.simps) (auto simp: arr_wr_def nth_list_update)
next
  case (step i)
  have i: "i < BUFFASIZE" "r i = Ok (c i)" "c i \<noteq> 0" "c i \<noteq> CH_SPACE"
    using assms(1) step.hyps by (auto simp: command_line_def)
  have "\<forall>j < Suc i. buf[i := c i] ! j = c j"
    using step.prems i(1) by (simp add: nth_list_update)
  then have "\<exists>buf'. copy_name r (Suc i) (buf[i := c i]) (Suc i) = Ok (buf', n) \<and> length buf' = BUFFASIZE \<and>
    (\<forall>j < n. buf' ! j = c j) \<and> buf' ! n = 0"
    using step.prems(1) by (intro step.IH) simp_all
  then show ?case
    using i step.prems(1) by (subst copy_name.simps) (simp add: arr_wr_def)
qed

lemma save_args_bytes:
  assumes "command_line r c n m" and "n < i" and "i \<le> m" and "cur_loc s \<noteq> 0"
    and "length (args (pcbs s (cur_loc s))) = BUFFASIZE"
  shows "\<exists>A. save_args r n i s =
      Ok (s\<lparr>pcbs := (pcbs s)(cur_loc s := (pcbs s (cur_loc s))\<lparr>args := A\<rparr>)\<rparr>) \<and> length A = BUFFASIZE \<and>
    (\<forall>j < BUFFASIZE. A ! j = (if i - n - 1 \<le> j \<and> j < m - n - 1 then c (n + 1 + j)
       else args (pcbs s (cur_loc s)) ! j))"
  using assms(3,2,4,5)
proof (induction i arbitrary: s rule: inc_induct)
  case base
  have "m = BUFFASIZE \<or> m < BUFFASIZE \<and> r m = Ok 0" using assms(1) by (auto simp: command_line_def)
  then have "save_args r n m s = Ok s" by (auto simp: save_args.simps)
  then show ?case
    using base by (intro exI [of _ "args (pcbs s (cur_loc s))"]) auto
next
  case (step i)
  let ?p = "pcbs s (cur_loc s)"
  have i: "i < BUFFASIZE" "r i = Ok (c i)" "c i \<noteq> 0"
    using assms(1) step.hyps step.prems(1) by (auto simp: command_line_def)
  define t where "t = s\<lparr>pcbs := (pcbs s)(cur_loc s := ?p\<lparr>args := (args ?p)[i - n - 1 := c i]\<rparr>)\<rparr>"
  have t: "cur_loc t = cur_loc s" "pcbs t (cur_loc s) = ?p\<lparr>args := (args ?p)[i - n - 1 := c i]\<rparr>"
    by (simp_all add: t_def cur_loc_def)
  have "\<exists>A. save_args r n (Suc i) t =
      Ok (t\<lparr>pcbs := (pcbs t)(cur_loc t := (pcbs t (cur_loc t))\<lparr>args := A\<rparr>)\<rparr>) \<and> length A = BUFFASIZE \<and>
    (\<forall>j < BUFFASIZE. A ! j = (if Suc i - n - 1 \<le> j \<and> j < m - n - 1 then c (n + 1 + j)
       else args (pcbs t (cur_loc t)) ! j))"
    using step.prems by (intro step.IH) (simp_all add: t)
  then obtain A where A: "save_args r n (Suc i) t =
      Ok (t\<lparr>pcbs := (pcbs t)(cur_loc t := (pcbs t (cur_loc t))\<lparr>args := A\<rparr>)\<rparr>)" "length A = BUFFASIZE"
    "\<forall>j < BUFFASIZE. A ! j = (if Suc i - n - 1 \<le> j \<and> j < m - n - 1 then c (n + 1 + j)
       else (args ?p)[i - n - 1 := c i] ! j)"
    by (auto simp: t)
  have "t\<lparr>pcbs := (pcbs t)(cur_loc t := (pcbs t (cur_loc t))\<lparr>args := A\<rparr>)\<rparr> =
      s\<lparr>pcbs := (pcbs s)(cur_loc s := ?p\<lparr>args := A\<rparr>)\<rparr>"
    unfolding t by (simp add: t_def)
  moreover have "save_args r n i s = save_args r n (Suc i) t"
    using i step.prems(2) by (subst save_args.simps) (simp add: upd_pcb_def t_def)
  moreover have "A ! j = (if i - n - 1 \<le> j \<and> j < m - n - 1 then c (n + 1 + j) else args ?p ! j)"
    if j: "j < BUFFASIZE" for j
  proof (cases "j = i - n - 1")
    case True
    then have "n + 1 + j = i" "\<not> Suc i - n - 1 \<le> j" "j < m - n - 1" "i - n - 1 = j"
      using step.prems(1) step.hyps by auto
    then show ?thesis using A(3) j step.prems(3) by simp
  next
    case False
    then show ?thesis using A(3) j step.prems(1) by auto
  qed
  ultimately show ?case using A(1,2) by (intro exI [of _ A]) (simp add: fun_upd_def)
qed

subsection \<open>The program file\<close>

definition program_file :: "(u32 \<Rightarrow> u8) \<Rightarrow> u32 set \<Rightarrow> u32 \<Rightarrow> u32 \<Rightarrow> u32 \<Rightarrow> bool" where
  "program_file M A bt dt ino \<longleftrightarrow> header_in A bt ino \<and> ino \<le> MAX_DATA_NUM \<and>
     BUFFASIZE \<le> unat (file_length M bt ino) \<and>
     (\<forall>q < unat (file_length M bt ino). stored M A bt dt ino q) \<and>
     file_byte M bt dt ino 0 = MAGIC0 \<and> file_byte M bt dt ino 1 = MAGIC1 \<and>
     file_byte M bt dt ino 2 = MAGIC2 \<and> file_byte M bt dt ino 3 = MAGIC3"

definition entry_point :: "(u32 \<Rightarrow> u8) \<Rightarrow> u32 \<Rightarrow> u32 \<Rightarrow> u32 \<Rightarrow> u32" where
  "entry_point M bt dt ino =
     ucast (file_byte M bt dt ino 24) OR push_bit 8 (ucast (file_byte M bt dt ino 25)) OR
     push_bit 16 (ucast (file_byte M bt dt ino 26)) OR push_bit 24 (ucast (file_byte M bt dt ino 27))"

lemma program_fileD:
  assumes "program_file M A bt dt ino"
  shows "header_in A bt ino" and "ino \<le> MAX_DATA_NUM" and "BUFFASIZE \<le> unat (file_length M bt ino)"
    and "\<forall>q < unat (file_length M bt ino). stored M A bt dt ino q"
    and "file_byte M bt dt ino 0 = MAGIC0" and "file_byte M bt dt ino 1 = MAGIC1"
    and "file_byte M bt dt ino 2 = MAGIC2" and "file_byte M bt dt ino 3 = MAGIC3"
  using assms unfolding program_file_def by blast+

lemma read_start:
  assumes "\<forall>a \<in> A. l a = Ok (M a)" and "program_file M A bt dt ino" and "0 < n" and "n \<le> BUFFASIZE"
    and "length buf = n"
  shows "read_data (\<lambda>_. l) arr_wr False bt dt ino 0 (of_nat n) buf =
    Ok (int n, map (file_byte M bt dt ino) [0..<n])"
proof -
  have un: "unat (of_nat n :: u32) = n" "sint (of_nat n :: u32) = int n"
    using assms(4) by (simp_all add: unat_of_nat_u32 sint_of_nat_u32)
  then have nz: "(of_nat n :: u32) \<noteq> 0" using assms(3) by auto
  have "arr_fs.holds l buf A M" using assms(1) by (simp add: arr_fs.holds_def)
  then have "\<exists>b'. read_data (\<lambda>_. l) arr_wr False bt dt ino 0 (of_nat n) buf = Ok (sint (of_nat n :: u32), b') \<and>
    arr.writes 0 (unat (of_nat n :: u32)) (\<lambda>i. file_byte M bt dt ino (unat (0 :: u32) + i)) buf b'"
    using program_fileD(1-4) [OF assms(2)] assms(4,5) nz
    by (intro arr_fs.read_data_within) (simp_all add: un)
  then show ?thesis
    using assms(5) by (auto simp: un arr_writes_list intro: map_cong)
qed

text \<open>The directory entry that a command names.\<close>

definition names_entry :: "(u32 \<Rightarrow> u8) \<Rightarrow> u32 \<Rightarrow> (nat \<Rightarrow> u8) \<Rightarrow> nat \<Rightarrow> nat \<Rightarrow> bool" where
  "names_entry M bt c n k \<longleftrightarrow> k < MAX_FILES \<and>
     entry_name M bt k = cstr (\<lambda>j. if j < n then c j else 0) (NAME_SIZE - 1) \<and>
     (\<forall>j < k. entry_name M bt j \<noteq> cstr (\<lambda>j. if j < n then c j else 0) (NAME_SIZE - 1))"

lemma load_header_program:
  assumes "frame_ok f" and "command_line (\<lambda>i. ptr_rd command i s) c n m"
    and "\<forall>a \<in> A. ld a s = Ok (M a)" and "\<forall>i < MAX_FILES. entry_ok (\<lambda>a. ld a s) M (boot s) i"
    and "names_entry M (boot s) c n k"
    and "program_file M A (boot s) (data s) (dentry_inode (entry M (boot s) k))"
  shows "load_header f command s = Ok (Some (entry M (boot s) k, n,
    entry_point M (boot s) (data s) (dentry_inode (entry M (boot s) k))))"
proof -
  let ?ino = "dentry_inode (entry M (boot s) k)"
  have fr: "length (elfbuf f) = 4" "length (addrbuf f) = BUFFASIZE" "length (prgname f) = BUFFASIZE"
    using assms(1) by (simp_all add: frame_ok_def)
  have cl: "0 < n" "n < BUFFASIZE" "\<forall>i < n. c i \<noteq> 0 \<and> c i \<noteq> CH_SPACE"
    "\<forall>i < m. ptr_rd command i s = Ok (c i)" "n < m"
    using assms(2) by (auto simp: command_line_def)
  obtain name where name: "copy_name (\<lambda>i. ptr_rd command i s) 0 (prgname f) 0 = Ok (name, n)"
    "length name = BUFFASIZE" "\<forall>j < n. name ! j = c j" "name ! n = 0"
    using copy_name_word [OF assms(2) fr(3), of 0] by auto
  have "reads_name (\<lambda>i. arr_rd i name) (NAME_SIZE - 1) (\<lambda>j. if j < n then c j else 0)"
    unfolding reads_name_def
  proof (intro allI impI)
    fix i
    assume i: "i < NAME_SIZE - 1" "\<forall>j < i. (if j < n then c j else 0) \<noteq> 0"
    then have "i \<le> n" by (metis less_irrefl not_le)
    then show "arr_rd i name = Ok (if i < n then c i else 0)"
      using name(2-4) cl(2) by (auto simp: arr_rd_def le_less)
  qed
  then have found: "read_dentry_by_name (\<lambda>a. ld a s) (boot s) (\<lambda>i. arr_rd i name) = Ok (0, Some (entry M (boot s) k))"
    using read_dentry_by_name_found [OF assms(4)] assms(5) by (simp add: names_entry_def)
  let ?B = "file_byte M (boot s) (data s) ?ino"
  define elf where "elf = map ?B [0..<4]"
  define addr where "addr = map ?B [0..<128]"
  have run_elf: "read_data (\<lambda>_ a. ld a s) arr_wr False (boot s) (data s) ?ino 0 (of_nat ELF_SIZE) (elfbuf f) = Ok (4, elf)"
    using read_start [OF assms(3,6), of 4 "elfbuf f"] fr(1) by (simp add: elf_def)
  have run_addr: "read_data (\<lambda>_ a. ld a s) arr_wr False (boot s) (data s) ?ino 0 (of_nat BUFFASIZE) (addrbuf f) = Ok (128, addr)"
    using read_start [OF assms(3,6), of 128 "addrbuf f"] fr(2) by (simp add: addr_def)
  have nth: "elf ! i = ?B i" if "i < 4" for i
    using that by (simp add: elf_def)
  have magic: "elf ! 0 = MAGIC0" "elf ! 1 = MAGIC1" "elf ! 2 = MAGIC2" "elf ! 3 = MAGIC3"
    using program_fileD(5-8) [OF assms(6)] by (simp_all add: nth)
  have entry: "addr ! 24 = ?B 24" "addr ! 25 = ?B 25" "addr ! 26 = ?B 26" "addr ! 27 = ?B 27"
    by (simp_all add: addr_def)
  have first: "ld command s = Ok (c 0)" "c 0 \<noteq> 0"
    using cl by (auto simp: ptr_rd_def dest: spec [of _ 0])
  show ?thesis
    unfolding load_header_def first(1) bindE_simps
    using first(2) name(1) found run_elf run_addr magic
    by (simp add: entry_point_def entry)
qed

subsection \<open>The program in memory\<close>

lemma user_walk_walk: "user_walk T dir a = Some x \<Longrightarrow> walk T True dir a = Some x"
  by (auto simp: user_walk_def Let_def split: if_splits)

text \<open>The image lies in the kernel's part of memory, above the page that is not mapped.\<close>

definition kernel_image :: "u32 set \<Rightarrow> (u32 \<Rightarrow> u8) \<Rightarrow> 'a machine_scheme \<Rightarrow> bool" where
  "kernel_image A M s \<longleftrightarrow> (\<forall>a \<in> A. 0x1000 \<le> a \<and> a < 0x00800000 \<and> mem s a = M a)"

abbreviation MAX_PROGRAM :: nat where "MAX_PROGRAM \<equiv> 0x3B8000"

lemma user_address:
  assumes "i < MAX_PROGRAM"
  shows "unat (PROGADDR + of_nat i) = 0x08048000 + i" and "0x08000000 \<le> PROGADDR + of_nat i"
    and "PROGADDR + of_nat i < 0x08400000" and "PROGADDR + of_nat i - 0x08000000 = 0x48000 + of_nat i"
proof -
  show u: "unat (PROGADDR + of_nat i) = 0x08048000 + i"
    using assms by (simp add: unat_word_ariths unat_of_nat_u32)
  then show "0x08000000 \<le> PROGADDR + of_nat i" "PROGADDR + of_nat i < 0x08400000"
    using assms by (simp_all add: word_le_nat_alt word_less_nat_alt)
  show "PROGADDR + of_nat i - 0x08000000 = 0x48000 + of_nat i" by simp
qed

lemma user_page_address:
  assumes "p < 6" and "i < MAX_PROGRAM"
  shows "unat (user_page p + (0x48000 + of_nat i)) = (2 + p) * 0x400000 + 0x48000 + i"
proof -
  have "p = 0 \<or> p = 1 \<or> p = 2 \<or> p = 3 \<or> p = 4 \<or> p = 5" using assms(1) by auto
  then show ?thesis
    using assms(2) by (auto simp: user_page_def unat_word_ariths unat_of_nat_u32)
qed

lemma process_translate:
  assumes "layout_ok L" and "tables_clear L (tabs s)" and "paging_on s" and "p < 6"
  defines "s' \<equiv> progs_init L (of_nat p) s"
  shows "i < MAX_PROGRAM \<Longrightarrow> translate s' (PROGADDR + of_nat i) = Some (user_page p + (0x48000 + of_nat i))"
    and "0x1000 \<le> a \<Longrightarrow> a < 0x00800000 \<Longrightarrow> translate s' a = Some a"
proof -
  note S = progs_init_space [OF assms(1,2,4)]
  have tr: "translate s' a = walk (tabs s') True (cr3 s') a" for a
    using assms(3) S(4,5) by (simp add: translate_def paging_on_def s'_def)
  show "translate s' (PROGADDR + of_nat i) = Some (user_page p + (0x48000 + of_nat i))" if "i < MAX_PROGRAM"
    using process_reach [OF assms(1,2,4), of "PROGADDR + of_nat i"] user_address [OF that]
    unfolding tr by (intro user_walk_walk) (simp add: s'_def)
  have "page_aligned (prog_pd L (Suc p))" "page_aligned (prog_pt L (Suc p))"
    using layout_okD(2,3) [OF assms(1), of "Suc p"] assms(4) by auto
  then show "translate s' a = Some a" if "0x1000 \<le> a" "a < 0x00800000"
    using space_identity [OF S(1)] S(3) that unfolding tr by (simp add: s'_def not_less)
qed

lemma load_program_memory:
  assumes "layout_ok L" and "tables_clear L (tabs s)" and "paging_on s" and "p < 6"
    and "cur_loc s \<noteq> 0" and "pid (pcbs s (cur_loc s)) = of_nat p"
    and "kernel_image A M s" and "program_file M A (boot s) (data s) ino"
    and "unat (file_length M (boot s) ino) \<le> MAX_PROGRAM"
  defines "t \<equiv> progs_init L (of_nat p) s"
  shows "\<exists>s'. load_program L ino s = Ok s' \<and> same_procs t s' \<and>
    (\<forall>i < unat (file_length M (boot s) ino). ld (PROGADDR + of_nat i) s' = Ok (file_byte M (boot s) (data s) ino i))"
proof -
  let ?n = "unat (file_length M (boot s) ino)"
  note P = program_fileD [OF assms(8)]
  note T = process_translate [OF assms(1-4), folded t_def]
  have more: "machine.more t = machine.more s" by (simp add: t_def)
  then have bd: "boot t = boot s" "data t = data s" by (cases s; cases t; simp)+
  have mem: "mem t = mem s" using progs_init_space(6) [OF assms(1,2,4)] by (simp add: t_def)
  have image: "has_image A M t"
    using assms(7) T(2) by (auto simp: has_image_def kernel_image_def ld_def mem)
  have tr: "translate t (PROGADDR + of_nat i) = Some (user_page p + (0x48000 + of_nat i))" if "i < ?n" for i
    using T(1) that assms(9) by simp
  have pa: "unat (user_page p + (0x48000 + of_nat i)) = (2 + p) * 0x400000 + 0x48000 + i" if "i < ?n" for i
    using user_page_address [OF assms(4)] that assms(9) by simp
  have mapped: "mapped PROGADDR ?n t"
    unfolding mapped_def
  proof (intro conjI allI impI)
    fix i j
    assume "i < ?n" "j < ?n" "translate t (PROGADDR + of_nat i) = translate t (PROGADDR + of_nat j)"
    then have "user_page p + (0x48000 + of_nat i) = user_page p + (0x48000 + of_nat j)" by (simp add: tr)
    then show "i = j" using pa \<open>i < ?n\<close> \<open>j < ?n\<close> by (metis add_left_cancel)
  qed (simp add: tr)
  have "apart A PROGADDR ?n t"
    unfolding apart_def
  proof (intro ballI allI impI)
    fix a i
    assume a: "a \<in> A" and i: "i < ?n"
    then have "unat a < 0x00800000" "translate t a = Some a"
      using assms(7) T(2) by (auto simp: kernel_image_def word_less_nat_alt)
    moreover have "0x00800000 \<le> unat (user_page p + (0x48000 + of_nat i))"
      using pa [OF i] by simp
    ultimately show "translate t a \<noteq> translate t (PROGADDR + of_nat i)"
      using tr [OF i] by auto
  qed
  then have holds: "usr_fs.holds PROGADDR ?n t A M" by (rule image_holds [OF image])
  have cap: "usr_cap PROGADDR ?n t = ?n" using mapped by (simp add: usr_cap_def)
  have nz: "file_length M (boot s) ino \<noteq> 0" using P(3) by auto
  obtain s' where s': "read_data (\<lambda>s a. ld a s) (ptr_wr PROGADDR) False (boot s) (data s) ino 0
      (file_length M (boot s) ino) t = Ok (sint (file_length M (boot s) ino), s')"
    "usr.writes PROGADDR ?n 0 ?n (\<lambda>i. file_byte M (boot s) (data s) ino i) t s'"
    using usr_fs.read_data_within [OF holds P(1) nz P(2), of 0 "data s"] P(4) by (auto simp: cap)
  have len: "inode_length (\<lambda>a. ld a t) (boot t) ino = Ok (file_length M (boot s) ino)"
    using image_length [OF image P(1)] by (simp add: bd)
  have "load_program L ino s = Ok s'"
    using assms(5,6) s'(1) len
    by (simp add: load_program_def cur_pcb_def get_pcb_def Let_def t_def [symmetric] bd)
  moreover have "same_procs t s'" using s'(1) by (rule read_data_same_procs)
  moreover have "\<forall>i < ?n. ld (PROGADDR + of_nat i) s' = Ok (file_byte M (boot s) (data s) ino i)"
    using s'(2) by (auto simp: usr.writes_def cap ptr_rd_def)
  ultimately show ?thesis by blast
qed

subsection \<open>Starting it\<close>

text \<open>
  What \<open>execute\<close> relies on: the image is where the kernel's address space shows it, and the
  command names a program of it.
\<close>

definition can_start :: "layout \<Rightarrow> u32 set \<Rightarrow> (u32 \<Rightarrow> u8) \<Rightarrow> u32 \<Rightarrow> (nat \<Rightarrow> u8) \<Rightarrow> nat \<Rightarrow> nat \<Rightarrow> nat \<Rightarrow>
    'a fs_scheme \<Rightarrow> bool" where
  "can_start L A M command c n m k s \<longleftrightarrow>
     layout_ok L \<and> tables_clear L (tabs s) \<and> paging_on s \<and>
     kernel_image A M s \<and> (\<forall>a \<in> A. translate s a = Some a) \<and>
     command_line (\<lambda>i. ptr_rd command i s) c n m \<and>
     (\<forall>i < MAX_FILES. entry_ok (\<lambda>a. ld a s) M (boot s) i) \<and> names_entry M (boot s) c n k \<and>
     program_file M A (boot s) (data s) (dentry_inode (entry M (boot s) k)) \<and>
     unat (file_length M (boot s) (dentry_inode (entry M (boot s) k))) \<le> MAX_PROGRAM"

text \<open>The state in which the program \<open>ino\<close> starts as process \<open>p\<close> with the argument \<open>c\<close>.\<close>

definition started :: "layout \<Rightarrow> (u32 \<Rightarrow> u8) \<Rightarrow> nat \<Rightarrow> u32 \<Rightarrow> (nat \<Rightarrow> u8) \<Rightarrow> nat \<Rightarrow> 'a proc_scheme \<Rightarrow> 'a proc_scheme \<Rightarrow> bool" where
  "started L M p ino a len s s' \<longleftrightarrow>
     (\<forall>i < unat (file_length M (boot s) ino). ld (PROGADDR + of_nat i) s' = Ok (file_byte M (boot s) (data s) ino i)) \<and>
     cr3 s' = prog_pd L (Suc p) \<and> esp s' = STACKBOT \<and> eflags s' AND 0x200 \<noteq> 0 \<and>
     tss_esp0 s' = kernel_stack (of_nat p) \<and> cur_loc s' = slot_loc p \<and>
     fds s' = stdio_fds \<and>
     (\<forall>j < BUFFASIZE. args (pcbs s' (slot_loc p)) ! j = (if j < len then a j else 0))"

lemma execute_starts:
  assumes "process_table s S" and "length (live S) < MAX_PROCESSES" and "frame_ok f"
    and "can_start L A M command c n m k s"
  defines "ino \<equiv> dentry_inode (entry M (boot s) k)"
  shows "\<exists>p s'. execute L f command s = Ok (Enters (entry_point M (boot s) (data s) ino), s') \<and>
    p < MAX_PROCESSES \<and> p \<notin> set (live S) \<and> (\<forall>j < p. j \<in> set (live S)) \<and>
    process_table s' (push (current_terminal s) p S) \<and>
    started L M p ino (\<lambda>j. c (n + 1 + j)) (m - n - 1) s s'"
proof -
  note D = process_tableD [OF assms(1)]
  have st: "layout_ok L" "tables_clear L (tabs s)" "paging_on s" "kernel_image A M s"
    "\<forall>a \<in> A. translate s a = Some a" "command_line (\<lambda>i. ptr_rd command i s) c n m"
    "\<forall>i < MAX_FILES. entry_ok (\<lambda>a. ld a s) M (boot s) i" "names_entry M (boot s) c n k"
    "program_file M A (boot s) (data s) ino" "unat (file_length M (boot s) ino) \<le> MAX_PROGRAM"
    using assms(4) unfolding can_start_def ino_def by blast+
  have g: "pcb_shape (frame_pcb f)" using assms(3) by (simp add: frame_ok_def)
  have "\<forall>a \<in> A. ld a s = Ok (M a)"
    using st(4,5) by (simp add: kernel_image_def ld_def)
  then have header: "load_header f command s = Ok (Some (entry M (boot s) k, n, entry_point M (boot s) (data s) ino))"
    using load_header_program [OF assms(3) st(6) _ st(7,8)] st(9) unfolding ino_def by blast
  obtain p where p: "p < MAX_PROCESSES" "p \<notin> set (live S)" "\<forall>j < p. j \<in> set (live S)"
    using least_free [OF D(1) assms(2)] by blast
  obtain s1 where s1: "new_process (frame_pcb f) s = Ok s1"
    "pcbs s1 (slot_loc p) = fresh_pcb (frame_pcb f) p
      (if S (current_terminal s) = [] then slot_loc p else pcb_loc s (current_terminal s)) s"
    "cur_loc s1 = slot_loc p" "boot s1 = boot s" "data s1 = data s" "tabs s1 = tabs s" "cr0 s1 = cr0 s"
    "cr3 s1 = cr3 s" "cr4 s1 = cr4 s" "mem s1 = mem s"
    using new_process_table [OF assms(1) g p] by blast
  have nz: "slot_loc p \<noteq> 0" by (rule slot_loc_nonzero [OF p(1)])
  have tr: "translate s1 = translate s" by (rule ext) (simp add: translate_def s1)
  then have rd: "ptr_rd command i s1 = ptr_rd command i s" for i
    by (simp add: ptr_rd_def ld_def s1(10) cong: option.case_cong)
  have zero: "args (pcbs s1 (slot_loc p)) = replicate ARG_SIZE 0"
    "file_desc (pcbs s1 (slot_loc p)) = stdio_fds" "pid (pcbs s1 (slot_loc p)) = of_nat p"
    using pcb_init_fields [OF g] by (simp_all add: s1(2) fresh_pcb_def)
  have "n < m" using st(6) by (simp add: command_line_def)
  then obtain B where B: "save_args (\<lambda>i. ptr_rd command i s1) n (n + 1) s1 =
      Ok (s1\<lparr>pcbs := (pcbs s1)(slot_loc p := (pcbs s1 (slot_loc p))\<lparr>args := B\<rparr>)\<rparr>)"
    "\<forall>j < BUFFASIZE. B ! j = (if j < m - n - 1 then c (n + 1 + j) else 0)"
    using save_args_bytes [of "\<lambda>i. ptr_rd command i s1" c n m "n + 1" s1] st(6) nz
    by (auto simp: rd s1(3) zero(1))
  define s2 where "s2 = s1\<lparr>pcbs := (pcbs s1)(slot_loc p := (pcbs s1 (slot_loc p))\<lparr>args := B\<rparr>)\<rparr>"
  have s2: "cur_loc s2 = slot_loc p" "boot s2 = boot s" "data s2 = data s" "tabs s2 = tabs s" "mem s2 = mem s"
    "paging_on s2" "pcbs s2 (slot_loc p) = (pcbs s1 (slot_loc p))\<lparr>args := B\<rparr>"
    using st(3) s1 by (simp_all add: s2_def cur_loc_def paging_on_def)
  obtain s3 where s3: "load_program L ino s2 = Ok s3" "same_procs (progs_init L (of_nat p) s2) s3"
    "\<forall>i < unat (file_length M (boot s) ino). ld (PROGADDR + of_nat i) s3 = Ok (file_byte M (boot s) (data s) ino i)"
    using load_program_memory [of L s2 p A M ino] st(1,2,4,9,10) s2 p(1) nz zero(3)
    by (auto simp: kernel_image_def)
  have "machine.more s3 = machine.more s2" using load_program_more [OF s3(1)] .
  then have more: "cur_loc s3 = slot_loc p" "pcbs s3 = pcbs s2"
    using s2(1) by (cases s2; cases s3; simp add: cur_loc_def)+
  have c3: "cr3 s3 = prog_pd L (Suc p)"
    using s3(2) progs_init_space(3) [of L s2 p] st(1,2) s2(4) p(1) unfolding same_procs_def
    by (metis machine.select_convs(4) machine.surjective machine.update_convs(1))
  obtain s' where s': "enter_program s3 = Ok s'" using enter_program_eq [of s3] more(1) nz by simp
  note eq = enter_program_eq [of s3, unfolded more(1), OF nz, unfolded s', simplified]
  have run: "execute L f command s = Ok (Enters (entry_point M (boot s) (data s) ino), s')"
    using assms(2) D(4) header s1(1) B(1) s3(1) s'
    by (simp add: execute_def s2_def ino_def)
  have "ld a s' = ld a s3" for a by (simp add: eq ld_def translate_def cong: option.case_cong)
  moreover have "(w OR 0x200) AND 0x200 \<noteq> 0" for w :: u32
    by (simp add: and.commute [of _ "0x200"] bit.conj_disj_distrib)
  ultimately have "started L M p ino (\<lambda>j. c (n + 1 + j)) (m - n - 1) s s'"
    unfolding started_def
    using s3(3) B(2) c3 more s2(7) zero by (simp add: eq cur_loc_def fds_def)
  moreover obtain q where "q < MAX_PROCESSES" "q \<notin> set (live S)" "\<forall>j < q. j \<in> set (live S)"
    "process_table s' (push (current_terminal s) q S)"
    using execute_pushes [OF assms(1,3) run] by blast
  moreover have "q = p" using p calculation by (metis linorder_neqE_nat)
  ultimately show ?thesis using run p by blast
qed

end
