(* ===== verification/Boot.thy ===== *)
theory Boot
  imports Idt Kernel_Run Program_Start
begin

text \<open>
  The entry point of the kernel (\<open>entry\<close> of \<open>kernel.c\<close>): the report about the Multiboot
  information, the segments, paging, the file system, the interrupt controllers and table, and the
  loop that starts the shell. The addresses and sizes that the linker and the assembly files give
  are a record.
\<close>

abbreviation MULTIBOOT_BOOTLOADER_MAGIC :: u32 where "MULTIBOOT_BOOTLOADER_MAGIC \<equiv> 0x2BADB002"
abbreviation IRQ_KEYBOARD :: u32 where "IRQ_KEYBOARD \<equiv> 1"
abbreviation SLAVE :: u32 where "SLAVE \<equiv> 2"

record symbols =
  ldt_addr :: u32
  ldt_size :: u32
  tss_addr :: u32
  tss_size :: u32
  wrapper_addr :: "wrapper \<Rightarrow> u32"
  shell_name :: u32

record kernel = kbd +
  idt :: "nat \<Rightarrow> idt_desc"
  ldt_desc_ptr :: seg_desc
  tss_desc_ptr :: seg_desc
  ldt_segment_selector :: u16
  ldt_register :: u16
  task_register :: u16

subsection \<open>Multiboot information\<close>

text \<open>Fields of \<open>multiboot_info_t\<close>, \<open>module_t\<close> and \<open>memory_map_t\<close>, by their offset.\<close>

definition field :: "u32 \<Rightarrow> u32 \<Rightarrow> 'a machine_scheme \<Rightarrow> u32 res" where
  "field p off s = load32 (\<lambda>a. ld a s) (p + off)"

abbreviation MBI_FLAGS :: u32 where "MBI_FLAGS \<equiv> 0"
abbreviation MBI_MEM_LOWER :: u32 where "MBI_MEM_LOWER \<equiv> 4"
abbreviation MBI_MEM_UPPER :: u32 where "MBI_MEM_UPPER \<equiv> 8"
abbreviation MBI_BOOT_DEVICE :: u32 where "MBI_BOOT_DEVICE \<equiv> 12"
abbreviation MBI_CMDLINE :: u32 where "MBI_CMDLINE \<equiv> 16"
abbreviation MBI_MODS_COUNT :: u32 where "MBI_MODS_COUNT \<equiv> 20"
abbreviation MBI_MODS_ADDR :: u32 where "MBI_MODS_ADDR \<equiv> 24"
abbreviation MBI_ELF_NUM :: u32 where "MBI_ELF_NUM \<equiv> 28"
abbreviation MBI_ELF_SIZE :: u32 where "MBI_ELF_SIZE \<equiv> 32"
abbreviation MBI_ELF_ADDR :: u32 where "MBI_ELF_ADDR \<equiv> 36"
abbreviation MBI_ELF_SHNDX :: u32 where "MBI_ELF_SHNDX \<equiv> 40"
abbreviation MBI_MMAP_LENGTH :: u32 where "MBI_MMAP_LENGTH \<equiv> 44"
abbreviation MBI_MMAP_ADDR :: u32 where "MBI_MMAP_ADDR \<equiv> 48"

abbreviation MOD_START :: u32 where "MOD_START \<equiv> 0"
abbreviation MOD_END :: u32 where "MOD_END \<equiv> 4"

abbreviation MMAP_SIZE :: u32 where "MMAP_SIZE \<equiv> 0"
abbreviation MMAP_BASE_ADDR_LOW :: u32 where "MMAP_BASE_ADDR_LOW \<equiv> 4"
abbreviation MMAP_BASE_ADDR_HIGH :: u32 where "MMAP_BASE_ADDR_HIGH \<equiv> 8"
abbreviation MMAP_LENGTH_LOW :: u32 where "MMAP_LENGTH_LOW \<equiv> 12"
abbreviation MMAP_LENGTH_HIGH :: u32 where "MMAP_LENGTH_HIGH \<equiv> 16"
abbreviation MMAP_TYPE :: u32 where "MMAP_TYPE \<equiv> 20"

definition CHECK_FLAG :: "u32 \<Rightarrow> nat \<Rightarrow> bool" where
  "CHECK_FLAG w b \<longleftrightarrow> w AND push_bit b 1 \<noteq> 0"

text \<open>\<open>printf\<close> with the values of fields as arguments.\<close>

fun fields :: "(u32 \<times> u32) list \<Rightarrow> 'a machine_scheme \<Rightarrow> u32 list res" where
  "fields [] s = Ok []"
| "fields ((p, off) # fs) s = bindE (field p off s) (\<lambda>v. bindE (fields fs s) (\<lambda>vs. Ok (v # vs)))"

definition say :: "(nat \<Rightarrow> u8 list) \<Rightarrow> string \<Rightarrow> u32 list \<Rightarrow> 'a console_scheme \<Rightarrow> 'a console_scheme res" where
  "say junk format vs s =
     bindE (printf junk (bytes_of format) (\<lambda>i. if i < length vs then vs ! i else 0) s) (\<lambda>(_, s). Ok s)"

definition say_fields :: "(nat \<Rightarrow> u8 list) \<Rightarrow> string \<Rightarrow> (u32 \<times> u32) list \<Rightarrow> 'a console_scheme \<Rightarrow> 'a console_scheme res" where
  "say_fields junk format fs s = bindE (fields fs s) (\<lambda>vs. say junk format vs s)"

definition if_flag :: "u32 \<Rightarrow> nat \<Rightarrow> ('a console_scheme \<Rightarrow> 'a console_scheme res) \<Rightarrow> 'a console_scheme \<Rightarrow>
    'a console_scheme res" where
  "if_flag mbi b f s = bindE (field mbi MBI_FLAGS s) (\<lambda>v. if CHECK_FLAG v b then f s else Ok s)"

text \<open>The first bytes of a module are of type \<open>char\<close>, so they are sign-extended.\<close>

definition first_bytes :: "(nat \<Rightarrow> u8 list) \<Rightarrow> u32 \<Rightarrow> 'a console_scheme \<Rightarrow> 'a console_scheme res" where
  "first_bytes junk module s = for_loopE 0 16 (\<lambda>i s.
     bindE (field module MOD_START s) (\<lambda>start. bindE (ld (start + of_nat i) s) (\<lambda>c.
     say junk ''0x%x '' [scast c] s))) s"

text \<open>
  The two loops of the report read their bounds again in each round. The counter and the pointer
  are 32 bits wide, so a loop of more than \<open>2 ^ 32\<close> rounds does not end.
\<close>

function module_loop :: "nat \<Rightarrow> (nat \<Rightarrow> u8 list) \<Rightarrow> u32 \<Rightarrow> u32 \<Rightarrow> nat \<Rightarrow> 'a console_scheme \<Rightarrow> 'a console_scheme res" where
  "module_loop fuel junk mbi module mod_count s =
     (if fuel = 0 then Err Diverges
      else
        bindE (field mbi MBI_MODS_COUNT s) (\<lambda>mods_count.
        if mod_count < unat mods_count then
          bindE (field module MOD_START s) (\<lambda>mod_start.
          bindE (say junk ''Module %d loaded at address: 0x%#x\<newline>'' [of_nat mod_count, mod_start] s) (\<lambda>s.
          bindE (field module MOD_END s) (\<lambda>mod_end.
          bindE (say junk ''Module %d ends at address: 0x%#x\<newline>'' [of_nat mod_count, mod_end] s) (\<lambda>s.
          bindE (say junk ''First few bytes of module:\<newline>'' [] s) (\<lambda>s.
          bindE (first_bytes junk module s) (\<lambda>s.
          bindE (say junk ''\<newline>'' [] s) (\<lambda>s.
          module_loop (fuel - 1) junk mbi module (Suc mod_count) s)))))))
        else Ok s))"
  by pat_completeness auto
termination by (relation "measure (\<lambda>(fuel, j, m, p, c, s). fuel)") auto

function mmap_loop :: "nat \<Rightarrow> (nat \<Rightarrow> u8 list) \<Rightarrow> u32 \<Rightarrow> u32 \<Rightarrow> 'a console_scheme \<Rightarrow> 'a console_scheme res" where
  "mmap_loop fuel junk mbi mmap s =
     (if fuel = 0 then Err Diverges
      else
        bindE (field mbi MBI_MMAP_ADDR s) (\<lambda>mmap_addr.
        bindE (field mbi MBI_MMAP_LENGTH s) (\<lambda>mmap_length.
        if mmap < mmap_addr + mmap_length then
          bindE (say_fields junk
              '' size = 0x%x,     base_addr = 0x%#x%#x\<newline>     type = 0x%x,  length    = 0x%#x%#x\<newline>''
              [(mmap, MMAP_SIZE), (mmap, MMAP_BASE_ADDR_HIGH), (mmap, MMAP_BASE_ADDR_LOW),
               (mmap, MMAP_TYPE), (mmap, MMAP_LENGTH_HIGH), (mmap, MMAP_LENGTH_LOW)] s) (\<lambda>s.
          bindE (field mmap MMAP_SIZE s) (\<lambda>size.
          mmap_loop (fuel - 1) junk mbi (mmap + size + 4) s))
        else Ok s)))"
  by pat_completeness auto
termination by (relation "measure (\<lambda>(fuel, j, m, p, s). fuel)") auto

declare module_loop.simps [simp del] mmap_loop.simps [simp del]

text \<open>The report; \<open>False\<close> is the early return when both bits 4 and 5 are set.\<close>

definition report_modules :: "(nat \<Rightarrow> u8 list) \<Rightarrow> u32 \<Rightarrow> 'a console_scheme \<Rightarrow> 'a console_scheme res" where
  "report_modules junk mbi s =
     bindE (field mbi MBI_MODS_ADDR s) (\<lambda>module. module_loop (2 ^ 32) junk mbi module 0 s)"

definition report_mmap :: "(nat \<Rightarrow> u8 list) \<Rightarrow> u32 \<Rightarrow> 'a console_scheme \<Rightarrow> 'a console_scheme res" where
  "report_mmap junk mbi s =
     bindE (say_fields junk ''mmap_addr = 0x%#x, mmap_length = 0x%x\<newline>''
       [(mbi, MBI_MMAP_ADDR), (mbi, MBI_MMAP_LENGTH)] s) (\<lambda>s.
     bindE (field mbi MBI_MMAP_ADDR s) (\<lambda>mmap. mmap_loop (2 ^ 32) junk mbi mmap s))"

definition report :: "(nat \<Rightarrow> u8 list) \<Rightarrow> u32 \<Rightarrow> 'a console_scheme \<Rightarrow> (bool \<times> 'a console_scheme) res" where
  "report junk mbi s =
     bindE (say_fields junk ''flags = 0x%#x\<newline>'' [(mbi, MBI_FLAGS)] s) (\<lambda>s.
     bindE (if_flag mbi 0 (say_fields junk ''mem_lower = %uKB, mem_upper = %uKB\<newline>''
       [(mbi, MBI_MEM_LOWER), (mbi, MBI_MEM_UPPER)]) s) (\<lambda>s.
     bindE (if_flag mbi 1 (say_fields junk ''boot_device = 0x%#x\<newline>'' [(mbi, MBI_BOOT_DEVICE)]) s) (\<lambda>s.
     bindE (if_flag mbi 2 (say_fields junk ''cmdline = %s\<newline>'' [(mbi, MBI_CMDLINE)]) s) (\<lambda>s.
     bindE (if_flag mbi 3 (report_modules junk mbi) s) (\<lambda>s.
     bindE (field mbi MBI_FLAGS s) (\<lambda>flags.
     if CHECK_FLAG flags 4 \<and> CHECK_FLAG flags 5
     then bindE (say junk ''Both bits 4 and 5 are set.\<newline>'' [] s) (\<lambda>s. Ok (False, s))
     else
       bindE (if_flag mbi 5 (say_fields junk
         ''elf_sec: num = %u, size = 0x%#x, addr = 0x%#x, shndx = 0x%#x\<newline>''
         [(mbi, MBI_ELF_NUM), (mbi, MBI_ELF_SIZE), (mbi, MBI_ELF_ADDR), (mbi, MBI_ELF_SHNDX)]) s) (\<lambda>s.
       bindE (if_flag mbi 6 (report_mmap junk mbi) s) (\<lambda>s.
       Ok (True, s)))))))))"

subsection \<open>Segments\<close>

text \<open>The instructions that load the two registers.\<close>

definition lldt :: "u16 \<Rightarrow> 'a kernel_scheme \<Rightarrow> 'a kernel_scheme" where
  [simp]: "lldt desc s = s\<lparr>ldt_register := desc\<rparr>"

definition ltr :: "u16 \<Rightarrow> 'a kernel_scheme \<Rightarrow> 'a kernel_scheme" where
  [simp]: "ltr desc s = s\<lparr>task_register := desc\<rparr>"

text \<open>The local descriptors are not initialised: the first argument is what they hold.\<close>

definition setup_ldt :: "seg_desc \<Rightarrow> symbols \<Rightarrow> 'a kernel_scheme \<Rightarrow> 'a kernel_scheme" where
  "setup_ldt garbage y s =
     (let the_ldt_desc = garbage\<lparr>granularity := 0, opsize := 1, seg_reserved := 0, avail := 0,
            seg_present := 1, seg_dpl := 0, seg_sys := 0, seg_type := 2\<rparr>;
          the_ldt_desc = SET_LDT_PARAMS the_ldt_desc (ldt_addr y) (ldt_size y)
      in lldt KERNEL_LDT (s\<lparr>ldt_desc_ptr := the_ldt_desc\<rparr>))"

definition setup_tss :: "seg_desc \<Rightarrow> symbols \<Rightarrow> 'a kernel_scheme \<Rightarrow> 'a kernel_scheme" where
  "setup_tss garbage y s =
     (let the_tss_desc = garbage\<lparr>granularity := 0, opsize := 0, seg_reserved := 0, avail := 0,
            seg_lim_19_16 := ucast (TSS_SIZE AND 0x000F0000), seg_present := 1, seg_dpl := 0, seg_sys := 0,
            seg_type := 9, seg_lim_15_00 := ucast (TSS_SIZE AND 0x0000FFFF)\<rparr>;
          the_tss_desc = SET_TSS_PARAMS the_tss_desc (tss_addr y) (tss_size y)
      in ltr KERNEL_TSS (s\<lparr>tss_desc_ptr := the_tss_desc, ldt_segment_selector := KERNEL_LDT,
           tss_ss0 := KERNEL_DS, tss_esp0 := 0x800000\<rparr>))"

subsection \<open>The entry point\<close>

definition setup_kernel :: "layout \<Rightarrow> symbols \<Rightarrow> seg_desc \<Rightarrow> seg_desc \<Rightarrow> u32 \<Rightarrow> 'a kernel_scheme \<Rightarrow> 'a kernel_scheme res" where
  "setup_kernel L y d1 d2 mbi s =
     (let s = setup_ldt d1 y s;
          s = setup_tss d2 y s;
          s = clear s;
          s = setcoords 0 0 0 s;
          s = paging_init L s in
      bindE (field mbi MBI_MODS_ADDR s) (\<lambda>fsmod.
      bindE (field fsmod MOD_START s) (\<lambda>mod_start.
      bindE (setup_fs mod_start s) (\<lambda>s.
      let s = i8259_init s;
          s = s\<lparr>idt := setup_exceptions (wrapper_addr y) (idt s)\<rparr>;
          s = enable_irq SLAVE s;
          s = enable_irq IRQ_KEYBOARD s;
          s = enable_irq RTC s
      in Ok (sti s)))))"

text \<open>Up to the shell; \<open>False\<close> when the entry point returns to the boot code.\<close>

definition kernel_entry :: "layout \<Rightarrow> symbols \<Rightarrow> (nat \<Rightarrow> u8 list) \<Rightarrow> seg_desc \<Rightarrow> seg_desc \<Rightarrow> u32 \<Rightarrow> u32 \<Rightarrow>
    'a kernel_scheme \<Rightarrow> (bool \<times> 'a kernel_scheme) res" where
  "kernel_entry L y junk d1 d2 magic addr s =
     (let s = clear s in
      if magic \<noteq> MULTIBOOT_BOOTLOADER_MAGIC
      then bindE (say junk ''Invalid magic number: 0x%#x\<newline>'' [magic] s) (\<lambda>s. Ok (False, s))
      else
        bindE (report junk addr s) (\<lambda>(go, s).
        if \<not> go then Ok (False, s)
        else bindE (setup_kernel L y d1 d2 addr s) (\<lambda>s. Ok (True, s))))"

text \<open>One round of the loop at the end, and the loop until a shell runs.\<close>

definition launch :: "layout \<Rightarrow> frame \<Rightarrow> u32 \<Rightarrow> 'a kbd_scheme \<Rightarrow> (exec_end \<times> 'a kbd_scheme) res" where
  "launch L f shell s =
     bindE (execute L f shell s) (\<lambda>(e, s).
     case e of
       Enters a \<Rightarrow> Ok (e, s)
     | Returns r \<Rightarrow> Ok (e, snd (printk (bytes_of ''Relaunching Shell... \<newline>'') s)))"

function shell_loop :: "nat \<Rightarrow> layout \<Rightarrow> frame \<Rightarrow> u32 \<Rightarrow> 'a kbd_scheme \<Rightarrow> (u32 \<times> 'a kbd_scheme) res" where
  "shell_loop fuel L f shell s =
     (if fuel = 0 then Err Diverges
      else
        bindE (launch L f shell s) (\<lambda>(e, s).
        case e of Enters a \<Rightarrow> Ok (a, s) | Returns r \<Rightarrow> shell_loop (fuel - 1) L f shell s))"
  by pat_completeness auto
termination by (relation "measure (\<lambda>(fuel, L, f, p, s). fuel)") auto

declare shell_loop.simps [simp del]

subsection \<open>The report only prints\<close>

lemma quiet_say: "say junk format vs s = Ok s' \<Longrightarrow> quiet s' = quiet s"
  by (auto simp: say_def bindE_eq_Ok dest: quiet_printf)

lemma quiet_say_fields: "say_fields junk format fs s = Ok s' \<Longrightarrow> quiet s' = quiet s"
  by (auto simp: say_fields_def bindE_eq_Ok dest: quiet_say)

lemma quiet_if_flag:
  "if_flag mbi b f s = Ok s' \<Longrightarrow> (\<And>u v. f u = Ok v \<Longrightarrow> quiet v = quiet u) \<Longrightarrow> quiet s' = quiet s"
  by (auto simp: if_flag_def bindE_eq_Ok split: if_splits)

lemma quiet_first_bytes: "first_bytes junk m s = Ok s' \<Longrightarrow> quiet s' = quiet s"
  unfolding first_bytes_def
  by (erule for_loopE_inv [where P = "\<lambda>u. quiet u = quiet s"]) (auto simp: bindE_eq_Ok dest: quiet_say)

lemma quiet_module_loop: "module_loop fuel junk mbi m k s = Ok s' \<Longrightarrow> quiet s' = quiet s"
proof (induction fuel arbitrary: k s)
  case 0
  then show ?case by (simp add: module_loop.simps)
next
  case (Suc fuel)
  from Suc.prems show ?case
    by (subst (asm) module_loop.simps)
      (auto simp: bindE_eq_Ok split: if_splits dest!: quiet_say quiet_first_bytes Suc.IH)
qed

lemma quiet_mmap_loop: "mmap_loop fuel junk mbi m s = Ok s' \<Longrightarrow> quiet s' = quiet s"
proof (induction fuel arbitrary: m s)
  case 0
  then show ?case by (simp add: mmap_loop.simps)
next
  case (Suc fuel)
  from Suc.prems show ?case
    by (subst (asm) mmap_loop.simps)
      (auto simp: bindE_eq_Ok split: if_splits dest!: quiet_say_fields Suc.IH)
qed

lemma quiet_report_parts:
  "if_flag mbi b (say_fields junk format fs) s = Ok s' \<Longrightarrow> quiet s' = quiet s"
  "if_flag mbi b (report_modules junk mbi) s = Ok s' \<Longrightarrow> quiet s' = quiet s"
  "if_flag mbi b (report_mmap junk mbi) s = Ok s' \<Longrightarrow> quiet s' = quiet s"
  by (erule quiet_if_flag, auto simp: report_modules_def report_mmap_def bindE_eq_Ok
      dest!: quiet_say_fields quiet_module_loop quiet_mmap_loop)+

lemma quiet_report: "report junk mbi s = Ok (go, s') \<Longrightarrow> quiet s' = quiet s"
  unfolding report_def
  by (auto simp: bindE_eq_Ok split: if_splits dest!: quiet_say quiet_say_fields quiet_report_parts)

subsection \<open>The segments\<close>

text \<open>A system segment as the processor reads it from its descriptor.\<close>

definition describes :: "seg_desc \<Rightarrow> u32 \<Rightarrow> u32 \<Rightarrow> u32 \<Rightarrow> bool" where
  "describes d base limit kind \<longleftrightarrow>
     cpu_base (seg_low d) (seg_high d) = base \<and> cpu_limit (seg_low d) (seg_high d) = limit \<and>
     cpu_type (seg_high d) = kind \<and> cpu_present (seg_high d) \<and> cpu_dpl (seg_high d) = 0 \<and>
     \<not> cpu_granular (seg_high d)"

abbreviation LDT_SEGMENT :: u32 where "LDT_SEGMENT \<equiv> 2"
abbreviation TSS_SEGMENT :: u32 where "TSS_SEGMENT \<equiv> 9"

lemma ldt_params_fields [simp]:
  "seg_type (SET_LDT_PARAMS d a l) = seg_type d" "seg_sys (SET_LDT_PARAMS d a l) = seg_sys d"
  "seg_dpl (SET_LDT_PARAMS d a l) = seg_dpl d" "seg_present (SET_LDT_PARAMS d a l) = seg_present d"
  "granularity (SET_LDT_PARAMS d a l) = granularity d"
  by (simp_all add: SET_LDT_PARAMS_def)

lemma params_describe:
  assumes "seg_sys d = 0" and "seg_dpl d = 0" and "seg_present d = 1" and "granularity d = 0"
  shows "describes (SET_LDT_PARAMS d a l) a (l AND 0x000FFFFF) (ucast (seg_type d))"
  using assms by (simp add: describes_def cpu_granular_def ldt_params_base ldt_params_limit seg_types
      seg_dpl_present seg_high_bit)

definition segments_ok :: "symbols \<Rightarrow> 'a kernel_scheme \<Rightarrow> bool" where
  "segments_ok y s \<longleftrightarrow>
     describes (ldt_desc_ptr s) (ldt_addr y) (ldt_size y AND 0x000FFFFF) LDT_SEGMENT \<and>
     describes (tss_desc_ptr s) (tss_addr y) (tss_size y AND 0x000FFFFF) TSS_SEGMENT \<and>
     ldt_register s = KERNEL_LDT \<and> task_register s = KERNEL_TSS \<and> ldt_segment_selector s = KERNEL_LDT \<and>
     tss_esp0 s = 0x800000 \<and> tss_ss0 s = KERNEL_DS"

lemma setup_segments: "segments_ok y (setup_tss d2 y (setup_ldt d1 y s))"
  using params_describe [of "d1\<lparr>granularity := 0, opsize := 1, seg_reserved := 0, avail := 0,
            seg_present := 1, seg_dpl := 0, seg_sys := 0, seg_type := 2\<rparr>" "ldt_addr y" "ldt_size y"]
    params_describe [of "d2\<lparr>granularity := 0, opsize := 0, seg_reserved := 0, avail := 0,
            seg_lim_19_16 := ucast (TSS_SIZE AND 0x000F0000), seg_present := 1, seg_dpl := 0, seg_sys := 0,
            seg_type := 9, seg_lim_15_00 := ucast (TSS_SIZE AND 0x0000FFFF)\<rparr>" "tss_addr y" "tss_size y"]
  by (simp add: segments_ok_def setup_tss_def setup_ldt_def tss_params)

subsection \<open>The state behind the initialisation\<close>

text \<open>What the initialisation of the devices leaves alone.\<close>

lemma controller_fields:
  "tabs (enable_irq n s) = tabs s" "cr0 (enable_irq n s) = cr0 s" "cr3 (enable_irq n s) = cr3 s"
  "cr4 (enable_irq n s) = cr4 s" "pic.more (enable_irq n s) = pic.more s"
  "tabs (i8259_init s) = tabs s" "cr0 (i8259_init s) = cr0 s" "cr3 (i8259_init s) = cr3 s"
  "cr4 (i8259_init s) = cr4 s" "pic.more (i8259_init s) = pic.more s"
  by (simp_all add: enable_irq_def i8259_init_def inb_def port_in_def outb_def port_out_def Let_def)

lemma pic_more_kernel:
  fixes s s' :: "'a kernel_scheme"
  assumes "pic.more s' = pic.more s"
  shows "procs_of s' = procs_of s" and "boot s' = boot s" and "data s' = data s" and "idt s' = idt s"
    and "segments_ok y s' = segments_ok y s"
  using assms by (cases s; cases s'; simp add: procs_of_def segments_ok_def)+

lemma machine_more_pic: "machine.more s' = machine.more s \<Longrightarrow> pic.more s' = pic.more s"
  by (cases s; cases s'; simp)

lemma quiet_kernel:
  fixes s s' :: "'a kernel_scheme"
  assumes "quiet s' = quiet s"
  shows "procs_of s' = procs_of s" and "boot s' = boot s" and "data s' = data s" and "idt s' = idt s"
    and "segments_ok y s' = segments_ok y s"
  using quiet_eqD(12,13) [OF assms] by (cases s; cases s'; simp add: procs_of_def segments_ok_def)+

lemma paging_init_more: "machine.more (paging_init L s) = machine.more s"
  unfolding paging_init_def low_loop Let_def split by (simp add: frame_simps)

lemma translate_cong:
  "tabs s' = tabs s \<Longrightarrow> cr0 s' = cr0 s \<Longrightarrow> cr3 s' = cr3 s \<Longrightarrow> cr4 s' = cr4 s \<Longrightarrow> translate s' = translate s"
  by (rule ext) (simp add: translate_def)

text \<open>Turning paging on leaves the tables of the processes as they were.\<close>

lemma paging_init_clear:
  assumes "layout_ok L" and "tables_clear L (tabs s)"
  shows "tables_clear L (tabs (paging_init L s))"
proof -
  have apart: "a \<noteq> prog_pd L k \<and> a \<noteq> prog_vt L k"
    if "a \<in> {page_directory L, page_table L, vid_table L}" "1 \<le> k" "k < 7" for a k
  proof -
    let ?P = "concat (map (\<lambda>k. [prog_pd L k, prog_pt L k, prog_vt L k, prog_term L k]) [1..<7])"
    have "prog_pd L k \<in> set ?P" "prog_vt L k \<in> set ?P" using that(2,3) by auto
    moreover have "set [page_directory L, page_table L, vid_table L] \<inter> set ?P = {}"
      using assms(1) unfolding layout_ok_def tables_of_def distinct_append by blast
    moreover have "a \<in> set [page_directory L, page_table L, vid_table L]" using that(1) by simp
    ultimately show ?thesis by blast
  qed
  have k: "(1 :: nat) \<le> 1" "(1 :: nat) < 7" by simp_all
  have other: "tabs (paging_init L s) b = tabs s b" if "b \<notin> {page_directory L, page_table L, vid_table L}" for b
    using that unfolding paging_init_def low_loop Let_def split by (auto simp: fun_eq_iff)
  have "unused_clear (tabs (paging_init L s)) (prog_pd L k) (prog_vt L k)" if "1 \<le> k" "k < 7" for k
  proof -
    have "prog_pd L k \<notin> {page_directory L, page_table L, vid_table L}"
      "prog_vt L k \<notin> {page_directory L, page_table L, vid_table L}"
      using apart [OF _ that] by blast+
    then show ?thesis
      using assms(2) that by (simp add: other tables_clear_def unused_clear_def)
  qed
  moreover have "unused_clear (tabs (paging_init L s)) (page_directory L) (vid_table L) \<and>
      tabs (paging_init L s) (page_directory L) PDENTRY144 = 0"
    using assms(2) layout_okD(6) [OF assms(1) k]
    unfolding paging_init_def low_loop Let_def split by (auto simp: tables_clear_def unused_clear_def)
  ultimately show ?thesis by (simp add: tables_clear_def)
qed

text \<open>The state when the file system is set up, and from there to the end.\<close>

definition paged :: "layout \<Rightarrow> symbols \<Rightarrow> seg_desc \<Rightarrow> seg_desc \<Rightarrow> 'a kernel_scheme \<Rightarrow> 'a kernel_scheme" where
  "paged L y d1 d2 s = paging_init L (setcoords 0 0 0 (clear (setup_tss d2 y (setup_ldt d1 y s))))"

definition devices_on :: "symbols \<Rightarrow> 'a kernel_scheme \<Rightarrow> 'a kernel_scheme" where
  "devices_on y s =
     (let s = i8259_init s;
          s = s\<lparr>idt := setup_exceptions (wrapper_addr y) (idt s)\<rparr>
      in sti (fold (\<lambda>n. enable_irq (of_nat n)) [2, 1, 8] s))"

lemma setup_kernel_eq:
  assumes "setup_kernel L y d1 d2 mbi s = Ok s'"
  shows "\<exists>b d. s' = devices_on y ((paged L y d1 d2 s)\<lparr>boot := b, data := d\<rparr>)"
  using assms
  by (auto simp: setup_kernel_def paged_def devices_on_def setup_fs_def bindE_eq_Ok Let_def)

lemma devices_on_state:
  shows "unmasked (devices_on y s) = {1, 2, 8} \<or> \<not> pic_device (dev s)"
    and "bit (eflags (devices_on y s)) 9"
    and "idt (devices_on y s) = setup_exceptions (wrapper_addr y) (idt s)"
    and "translate (devices_on y s) = translate s" and "mem (devices_on y s) = mem s"
    and "tabs (devices_on y s) = tabs s" and "cr0 (devices_on y s) = cr0 s"
    and "cr3 (devices_on y s) = cr3 s" and "cr4 (devices_on y s) = cr4 s"
    and "procs_of (devices_on y s) = procs_of s" and "boot (devices_on y s) = boot s"
    and "data (devices_on y s) = data s" and "segments_ok y (devices_on y s) = segments_ok y s"
proof -
  define t where "t = (i8259_init s)\<lparr>idt := setup_exceptions (wrapper_addr y) (idt s)\<rparr>"
  have more: "pic.more (i8259_init s) = pic.more s" by (rule controller_fields(10))
  note K = pic_more_kernel [OF more]
  define u where "u = fold (\<lambda>n. enable_irq (of_nat n)) [2, 1, 8] t"
  have dev: "devices_on y s = sti u"
    by (simp add: devices_on_def u_def t_def Let_def K(4))
  have um: "pic.more u = pic.more t" by (simp add: u_def controller_fields)
  note U = pic_more_kernel [OF um]
  have m: "tabs u = tabs s" "cr0 u = cr0 s" "cr3 u = cr3 s" "cr4 u = cr4 s" "mem u = mem s"
    by (simp_all add: u_def t_def controller_fields frame_simps)
  have ready: "pic_ready t" and none: "unmasked t = {}" if "pic_device (dev s)"
  proof -
    show "pic_ready t" using that by (simp add: pic_ready_def t_def i8259_init_state frame_simps)
    have "unmasked t = unmasked (i8259_init s)" by (simp add: unmasked_def t_def)
    then show "unmasked t = {}" by simp
  qed
  have "unmasked (devices_on y s) = {1, 2, 8}" if "pic_device (dev s)"
  proof -
    have "unmasked u = {2, 1, 8}"
      using pic.lines_fold [OF ready [OF that], of "[2, 1, 8]"] by (simp add: u_def none [OF that])
    moreover have "unmasked (sti u) = unmasked u" by (simp add: unmasked_def sti_def)
    ultimately show ?thesis by (simp add: dev insert_commute)
  qed
  then show "unmasked (devices_on y s) = {1, 2, 8} \<or> \<not> pic_device (dev s)" by blast
  show "bit (eflags (devices_on y s)) 9" by (simp add: dev sti_def IF_MASK_def bit_simps)
  show "idt (devices_on y s) = setup_exceptions (wrapper_addr y) (idt s)"
    by (simp add: dev sti_def U(4) t_def)
  show M: "tabs (devices_on y s) = tabs s" "cr0 (devices_on y s) = cr0 s" "cr3 (devices_on y s) = cr3 s"
    "cr4 (devices_on y s) = cr4 s" "mem (devices_on y s) = mem s"
    by (simp_all add: dev sti_def m)
  then show "translate (devices_on y s) = translate s" by (intro translate_cong)
  have "procs_of t = procs_of s" "boot t = boot s" "data t = data s" "segments_ok y t = segments_ok y s"
    using K by (simp_all add: t_def procs_of_def segments_ok_def)
  then show "procs_of (devices_on y s) = procs_of s" "boot (devices_on y s) = boot s"
    "data (devices_on y s) = data s" "segments_ok y (devices_on y s) = segments_ok y s"
    using U by (simp_all add: dev sti_def procs_of_def segments_ok_def)
qed

lemma paged_state:
  fixes s p :: "'a kernel_scheme"
  assumes "layout_ok L" and "tables_clear L (tabs s)" and p_def: "p = paged L y d1 d2 s"
  shows "a < 0x00800000 \<Longrightarrow> translate p a = (if a < 0x1000 then None else Some a)"
    and "paging_on p" and "cr3 p = page_directory L" and "tables_clear L (tabs p)"
    and "procs_of p = procs_of s" and "idt p = idt s" and "segments_ok y p" and "dev p = dev s"
proof -
  define t where "t = setcoords 0 0 0 (clear (setup_tss d2 y (setup_ldt d1 y s)))"
  have p: "p = paging_init L t" by (simp add: p_def paged_def t_def)
  have q: "quiet t = quiet (setup_tss d2 y (setup_ldt d1 y s))" by (simp add: t_def)
  have fields: "tabs t = tabs s" "dev t = dev s"
    using quiet_eqD(1,8) [OF q] by (simp_all add: setup_tss_def setup_ldt_def Let_def)
  have seg: "procs_of (setup_tss d2 y (setup_ldt d1 y s)) = procs_of s"
    "idt (setup_tss d2 y (setup_ldt d1 y s)) = idt s"
    by (simp_all add: setup_tss_def setup_ldt_def Let_def procs_of_def)
  have clear: "tables_clear L (tabs t)" using assms(2) fields by simp
  note S = paging_init_space [OF assms(1) clear]
  show "translate p a = (if a < 0x1000 then None else Some a)" if "a < 0x00800000"
    unfolding p using assms(1) clear that by (rule paging_init_identity)
  show "paging_on p" "cr3 p = page_directory L" using S(2-4) by (simp_all add: p paging_on_def)
  note M = pic_more_kernel [OF machine_more_pic [OF paging_init_more [of L t]], folded p]
  note Q = quiet_kernel [OF q]
  show "procs_of p = procs_of s" "idt p = idt s" "segments_ok y p"
    using M Q seg setup_segments by simp_all
  show "dev p = dev s"
    unfolding p paging_init_def low_loop Let_def split by (simp add: frame_simps fields)
  show "tables_clear L (tabs p)" unfolding p by (rule paging_init_clear [OF assms(1) clear])
qed

subsection \<open>The kernel after its entry point\<close>

definition kernel_ready :: "layout \<Rightarrow> symbols \<Rightarrow> 'a kernel_scheme \<Rightarrow> bool" where
  "kernel_ready L y s \<longleftrightarrow>
     paging_on s \<and> cr3 s = page_directory L \<and> tables_clear L (tabs s) \<and>
     (\<forall>a < 0x00800000. translate s a = (if a < 0x1000 then None else Some a)) \<and>
     process_table s (\<lambda>_. []) \<and> segments_ok y s \<and>
     unmasked s = {1, 2, 8} \<and> bit (eflags s) 9"

lemma kernel_entry_magic:
  "magic \<noteq> MULTIBOOT_BOOTLOADER_MAGIC \<Longrightarrow> kernel_entry L y junk d1 d2 magic mbi s = Ok (go, s') \<Longrightarrow>
   \<not> go \<and> quiet s' = quiet s"
  by (auto simp: kernel_entry_def Let_def bindE_eq_Ok dest: quiet_say)

lemma kernel_entry_ready:
  assumes "kernel_entry L y junk d1 d2 magic mbi s = Ok (True, s')"
    and "layout_ok L" and "tables_clear L (tabs s)" and "booted s" and "pic_device (dev s)"
  shows "kernel_ready L y s'" and "idt s' = setup_exceptions (wrapper_addr y) (idt s)"
    and "magic = MULTIBOOT_BOOTLOADER_MAGIC"
proof -
  show magic: "magic = MULTIBOOT_BOOTLOADER_MAGIC"
    using assms(1) by (rule_tac ccontr) (auto dest: kernel_entry_magic)
  obtain u where u: "report junk mbi (clear s) = Ok (True, u)" "setup_kernel L y d1 d2 mbi u = Ok s'"
    using assms(1) magic by (auto simp: kernel_entry_def Let_def bindE_eq_Ok split: if_splits)
  have q: "quiet u = quiet s" using quiet_report [OF u(1)] by simp
  note Q = quiet_eqD(1,8) [OF q] quiet_kernel [OF q]
  have clear: "tables_clear L (tabs u)" using assms(3) Q(1) by simp
  define p where "p = paged L y d1 d2 u"
  note P = paged_state [OF assms(2) clear p_def]
  obtain b d where s': "s' = devices_on y (p\<lparr>boot := b, data := d\<rparr>)"
    using setup_kernel_eq [OF u(2)] unfolding p_def by blast
  define v where "v = p\<lparr>boot := b, data := d\<rparr>"
  have v: "translate v = translate p" "tabs v = tabs p" "cr0 v = cr0 p" "cr3 v = cr3 p" "cr4 v = cr4 p"
    "procs_of v = procs_of p" "idt v = idt p" "segments_ok y v = segments_ok y p" "dev v = dev p"
    by (simp_all add: v_def procs_of_def segments_ok_def translate_def fun_eq_iff)
  note S = devices_on_state [of y v, folded s' [folded v_def]]
  have "procs_of s' = procs_of s" using S(10) v(6) P(5) Q(3) by simp
  then have "process_table s' (\<lambda>_. [])"
    using process_table_same [OF booted_table [OF assms(4)] procs_of_table] by blast
  moreover have "pic_device (dev v)" using assms(5) v(9) P(8) Q(2) by simp
  ultimately show "kernel_ready L y s'"
    using P S v unfolding kernel_ready_def by (simp add: paging_on_def)
  show "idt s' = setup_exceptions (wrapper_addr y) (idt s)" using S(3) v(7) P(6) Q(6) by simp
qed

text \<open>The shell: a kernel that is ready starts the program it is told to start as the only process.\<close>

definition holds_program :: "u32 set \<Rightarrow> (u32 \<Rightarrow> u8) \<Rightarrow> u32 \<Rightarrow> (nat \<Rightarrow> u8) \<Rightarrow> nat \<Rightarrow> nat \<Rightarrow> nat \<Rightarrow> 'a fs_scheme \<Rightarrow> bool" where
  "holds_program A M command c n m k s \<longleftrightarrow>
     kernel_image A M s \<and> command_line (\<lambda>i. ptr_rd command i s) c n m \<and>
     (\<forall>i < MAX_FILES. entry_ok (\<lambda>a. ld a s) M (boot s) i) \<and> names_entry M (boot s) c n k \<and>
     program_file M A (boot s) (data s) (dentry_inode (entry M (boot s) k)) \<and>
     unat (file_length M (boot s) (dentry_inode (entry M (boot s) k))) \<le> MAX_PROGRAM"

lemma ready_can_start:
  assumes "kernel_ready L y s" and "layout_ok L" and "holds_program A M command c n m k s"
  shows "can_start L A M command c n m k s"
proof -
  have "translate s a = Some a" if "a \<in> A" for a
  proof -
    have "0x1000 \<le> a" "a < 0x00800000" using assms(3) that by (auto simp: holds_program_def kernel_image_def)
    then show ?thesis using assms(1) by (auto simp: kernel_ready_def)
  qed
  then show ?thesis
    using assms by (simp add: kernel_ready_def holds_program_def can_start_def)
qed

lemma shell_starts:
  assumes "kernel_ready L y s" and "layout_ok L" and "holds_program A M shell c n m k s"
    and "frame_ok f" and "0 < fuel"
  defines "ino \<equiv> dentry_inode (entry M (boot s) k)"
  shows "\<exists>s'. shell_loop fuel L f shell s = Ok (entry_point M (boot s) (data s) ino, s') \<and>
    process_table s' ((\<lambda>_. [])(current_terminal s := [0])) \<and>
    started L M 0 ino (\<lambda>j. c (n + 1 + j)) (m - n - 1) s s'"
proof -
  have T: "process_table s (\<lambda>_. [])" using assms(1) by (simp add: kernel_ready_def)
  obtain p s' where s': "execute L f shell s = Ok (Enters (entry_point M (boot s) (data s) ino), s')"
    "\<forall>j < p. j \<in> set (live (\<lambda>_ :: nat. [] :: nat list))" "process_table s' (push (current_terminal s) p (\<lambda>_. []))"
    "started L M p ino (\<lambda>j. c (n + 1 + j)) (m - n - 1) s s'"
    using execute_starts [OF T _ assms(4) ready_can_start [OF assms(1-3)]]
    by (auto simp: live_def ino_def)
  have "p = 0"
  proof (rule ccontr)
    assume "p \<noteq> 0"
    then have "0 \<in> set (live (\<lambda>_ :: nat. [] :: nat list))" using s'(2) by auto
    then show False by (simp add: live_def)
  qed
  then show ?thesis
    using s' assms(5) by (subst shell_loop.simps) (simp add: launch_def push_def)
qed

text \<open>A round that enters the shell is a step of the kernel.\<close>

lemma first_round_step:
  assumes "shell_loop 1 L f shell s = Ok (a, s')" and "frame_ok f"
  shows "kernel_step L (Execute f shell) s s'"
proof -
  have "bindE (launch L f shell s) (\<lambda>(e, s).
      case e of Enters b \<Rightarrow> Ok (b, s) | Returns r \<Rightarrow> shell_loop 0 L f shell s) = Ok (a, s')"
    using assms(1) shell_loop.simps [of 1 L f shell s] by (simp cong: exec_end.case_cong)
  then obtain e u where e: "launch L f shell s = Ok (e, u)"
    and u: "(case e of Enters b \<Rightarrow> Ok (b, u) | Returns r \<Rightarrow> shell_loop 0 L f shell u) = Ok (a, s')"
    by (auto simp: bindE_eq_Ok)
  then have "e = Enters a" "u = s'" by (cases e; simp add: shell_loop.simps)+
  with e obtain d v where d: "execute L f shell s = Ok (d, v)"
    and v: "(case d of Enters b \<Rightarrow> Ok (d, v)
      | Returns r \<Rightarrow> Ok (d, snd (printk (bytes_of ''Relaunching Shell... \<newline>'') v))) = Ok (Enters a, s')"
    by (auto simp: launch_def bindE_eq_Ok)
  from v have "d = Enters a" "v = s'" by (cases d; simp)+
  with d have "execute L f shell s = Ok (Enters a, s')" by simp
  with assms(2) show ?thesis by (rule step_execute)
qed

text \<open>Without the shell the loop prints its message for ever.\<close>

lemma shell_loop_diverges:
  assumes "\<And>s. P s \<Longrightarrow> \<exists>r s'. launch L f shell s = Ok (Returns r, s') \<and> P s'" and "P s"
  shows "shell_loop fuel L f shell s = Err Diverges"
  using assms(2)
proof (induction fuel arbitrary: s)
  case (Suc fuel)
  obtain r s' where "launch L f shell s = Ok (Returns r, s')" "P s'" using assms(1) [OF Suc.prems] by blast
  then show ?case using Suc.IH by (subst shell_loop.simps) simp
qed (simp add: shell_loop.simps)

end
