(* ===== verification/Boot_Report.thy ===== *)
theory Boot_Report
  imports Boot
begin

text \<open>
  The report of the entry point about a Multiboot structure that a boot loader fills in as its
  standard says: the modules are there (bit 3), the other parts are there when their bits are set.
  The report ends, and it stores in the text window of the video card only.
\<close>

subsection \<open>Where the report prints\<close>

text \<open>
  \<open>putc\<close> does not scroll: after a newline on the last row the cursor is below the screen, and the
  next character is stored there, before the row is reduced. The text window of the card, where no
  memory of the machine is, has more rows than the screen.
\<close>

definition text_window :: "u32 set" where
  "text_window = {a. unat (a - VIDEO) < 0x8000}"

definition within :: "nat \<Rightarrow> 'a console_scheme \<Rightarrow> bool" where
  "within k s \<longleftrightarrow> (let t = current_terminal s in
     0 \<le> screen_x s t \<and> screen_x s t < NUM_COLS \<and> 0 \<le> screen_y s t \<and> screen_y s t < NUM_ROWS + int k)"

definition rows_below :: "nat \<Rightarrow> u8 \<Rightarrow> nat" where
  "rows_below k c = (if printable c then 0 else Suc k)"

lemma screen_in_window: "screen_region \<subseteq> text_window"
  by (auto simp: screen_region_def text_window_def)

lemma smod_nonneg: "0 \<le> (x :: int) \<Longrightarrow> 0 < n \<Longrightarrow> x smod n = x mod n"
  by (simp add: signed_modulo_int_def signed_divide_int_def sgn_if modulo_int_def [of x n] minus_div_mult_eq_mod)

lemma putc_in_window:
  assumes "within k s" and "k \<le> 150"
  shows "within (rows_below k c) (putc c s)" and "same_outside text_window s (putc c s)"
proof -
  define t where "t = current_terminal s"
  define i where "i = NUM_COLS * screen_y s t + screen_x s t"
  have x: "0 \<le> screen_x s t" "screen_x s t < 80" and y: "0 \<le> screen_y s t" "screen_y s t < 25 + int k"
    using assms(1) by (simp_all add: within_def t_def Let_def)
  have i: "0 \<le> i" "i < 16000" using x y assms(2) by (simp_all add: i_def)
  have cells: "cell i \<in> text_window" "cell i + 1 \<in> text_window"
    using cell_offset [of i] cell_offset_odd [of i] i by (simp_all add: text_window_def)
  show "same_outside text_window s (putc c s)"
    using cells by (auto simp: putc_def Let_def same_outside_def i_def t_def)
  have m: "0 \<le> (screen_x s t + 1) mod 80" "(screen_x s t + 1) mod 80 < 80" by simp_all
  show "within (rows_below k c) (putc c s)"
    using x y m sdiv_small [OF m]
    by (auto simp: putc_def Let_def within_def rows_below_def t_def smod_nonneg)
qed

subsection \<open>The state while the report runs\<close>

text \<open>
  The entry point runs before paging is on; the memory \<open>A\<close> still holds \<open>M\<close>, and only the text
  window and the cursor differ from the state \<open>s0\<close> where the report began.
\<close>

definition reporting :: "(nat \<Rightarrow> u8 list) \<Rightarrow> u32 set \<Rightarrow> (u32 \<Rightarrow> u8) \<Rightarrow> 'a console_scheme \<Rightarrow> nat \<Rightarrow>
    'a console_scheme \<Rightarrow> bool" where
  "reporting junk A M s0 k s \<longleftrightarrow>
     (\<forall>i. 64 \<le> length (junk i)) \<and> A \<inter> text_window = {} \<and> translate s = Some \<and> has_image A M s \<and>
     within k s \<and> quiet s = quiet s0 \<and> same_outside text_window s0 s"

lemma has_image_outside:
  assumes "has_image A M s" and "translate s = Some" and "translate t = Some" and "same_outside B s t" and "A \<inter> B = {}"
  shows "has_image A M t"
  using assms by (auto simp: has_image_def ld_def same_outside_def)

lemma quiet_translate: "quiet s = quiet t \<Longrightarrow> translate s = translate t"
  by (rule translate_cong) (auto dest: quiet_eqD)

lemma report_more: "reporting junk A M s0 k s \<Longrightarrow> k \<le> k' \<Longrightarrow> reporting junk A M s0 k' s"
  by (auto simp: reporting_def within_def Let_def)

lemma report_putc:
  assumes "reporting junk A M s0 k s" and "k \<le> 150"
  shows "reporting junk A M s0 (rows_below k c) (putc c s)"
proof -
  note R = assms(1) [unfolded reporting_def]
  have w: "within k s" using R by blast
  note P = putc_in_window [OF w assms(2), of c]
  have tr: "translate (putc c s) = Some" using R quiet_translate [OF quiet_putc [of c s]] by metis
  have "has_image A M (putc c s)" by (rule has_image_outside [OF _ _ tr P(2)]) (use R in auto)
  then show ?thesis using R P tr by (auto simp: reporting_def same_outside_def)
qed

lemma report_text:
  assumes "reporting junk A M s0 k s" and "k \<le> 150" and "\<forall>c \<in> set cs. printable c" and "cs \<noteq> []"
  shows "reporting junk A M s0 0 (fold putc cs s)"
  using assms
proof (induction cs arbitrary: k s)
  case (Cons c cs)
  have "reporting junk A M s0 0 (putc c s)"
    using report_putc [OF Cons.prems(1,2), of c] Cons.prems(3) by (simp add: rows_below_def)
  then show ?case using Cons.IH [of 0 "putc c s"] Cons.prems(3) by (cases "cs = []") simp_all
qed simp

subsection \<open>Lines\<close>

text \<open>The directives of a format, and how far below the screen its text may leave the cursor.\<close>

definition conversion :: "u8 \<Rightarrow> directive" where
  "conversion c = (if c = 0x78 then Hex else if c = 0x75 then Unsigned else if c = 0x64 then Signed else Percent)"

function directives :: "u8 list \<Rightarrow> directive list" where
  "directives cs =
     (case cs of
        [] \<Rightarrow> []
      | c # ds \<Rightarrow>
          if c = 0x25 \<and> ds \<noteq> [] then
            if hd ds = 0x23 then PaddedHex # directives (drop 2 ds) else conversion (hd ds) # directives (tl ds)
          else Char c # directives ds)"
  by pat_completeness auto
termination by (relation "measure length") auto

declare directives.simps [simp del]

definition row_after :: "nat \<Rightarrow> directive \<Rightarrow> nat" where
  "row_after k d = (case d of Char c \<Rightarrow> rows_below k c | _ \<Rightarrow> 0)"

definition prints_line :: "string \<Rightarrow> nat \<Rightarrow> nat \<Rightarrow> bool" where
  "prints_line format k k' \<longleftrightarrow>
     (let ds = directives (bytes_of format) in
      concat (map spell ds) = bytes_of format \<and> list_all directive_ok ds \<and> list_all (\<lambda>d. d \<noteq> CharArg) ds \<and>
      k + length ds \<le> 150 \<and> foldl row_after k ds \<le> k')"

lemma number_text_shown:
  assumes "2 \<le> r" and "r \<le> 36"
  shows "number_text r v \<noteq> []" and "\<forall>c \<in> set (number_text r v). printable c"
proof -
  have "list_all printable itoa_lookup" by code_simp
  then have "printable (itoa_lookup ! d)" if "d < 36" for d
    using that by (simp add: list_all_length itoa_lookup_def)
  moreover have "d < 36" if "d \<in> set (digits_rev r v)" for d using digits_rev_less [OF that] assms(2) by simp
  ultimately show "\<forall>c \<in> set (number_text r v). printable c" by (auto simp: number_text_def)
  show "number_text r v \<noteq> []" using assms(1) by (simp add: number_text_def digits_rev.simps [of r v])
qed

lemma directive_shown:
  assumes "d \<noteq> CharArg" and "\<And>c. d \<noteq> Char c"
  shows "text_of v d \<noteq> []" and "\<forall>c \<in> set (text_of v d). printable c"
  using assms number_text_shown [of 16 "unat v"] number_text_shown [of 10]
  by (cases d; auto simp: Let_def)+

lemma report_texts:
  assumes "reporting junk A M s0 k s" and "k + length ds \<le> 150" and "list_all (\<lambda>d. d \<noteq> CharArg) ds"
  shows "reporting junk A M s0 (foldl row_after k ds) (fold putc (texts arg n ds) s)"
  using assms
proof (induction ds arbitrary: k s n)
  case (Cons d ds)
  have "reporting junk A M s0 (row_after k d) (fold putc (text_of (arg n) d) s)"
  proof (cases "\<exists>c. d = Char c")
    case True
    then show ?thesis using report_putc [OF Cons.prems(1)] Cons.prems(2) by (auto simp: row_after_def)
  next
    case False
    then have "row_after k d = 0" by (cases d) (auto simp: row_after_def)
    then show ?thesis
      using report_text [OF Cons.prems(1)] directive_shown [of d "arg n"] False Cons.prems(2,3) by auto
  qed
  moreover have "row_after k d \<le> Suc k" by (simp add: row_after_def rows_below_def split: directive.split)
  then have "row_after k d + length ds \<le> 150" using Cons.prems(2) by simp
  ultimately show ?case using Cons.IH Cons.prems(3) by simp
qed simp

lemma report_say:
  assumes "prints_line format k k'" and "reporting junk A M s0 k s"
  shows "\<exists>s'. say junk format vs s = Ok s' \<and> reporting junk A M s0 k' s'"
proof -
  define ds where "ds = directives (bytes_of format)"
  have D: "concat (map spell ds) = bytes_of format" "list_all directive_ok ds" "list_all (\<lambda>d. d \<noteq> CharArg) ds"
    "k + length ds \<le> 150" "foldl row_after k ds \<le> k'"
    using assms(1) by (simp_all add: prints_line_def Let_def ds_def)
  have junk: "\<forall>i. 64 \<le> length (junk i)" using assms(2) by (simp add: reporting_def)
  show ?thesis
    using printf_texts [OF D(2) junk, unfolded D(1), of "\<lambda>i. if i < length vs then vs ! i else 0" s]
      report_more [OF report_texts [OF assms(2) D(4,3)] D(5)]
    by (simp add: say_def)
qed

text \<open>The fields of the structures.\<close>

lemma load32_image: "has_image A M s \<Longrightarrow> word_in A a \<Longrightarrow> load32 (\<lambda>a. ld a s) a = Ok (ld32 M a)"
  by (simp add: has_image_def word_in_def load32_def ld32_def)

lemma field_image: "has_image A M s \<Longrightarrow> word_in A (p + off) \<Longrightarrow> field p off s = Ok (ld32 M (p + off))"
  by (simp add: field_def load32_image)

lemma report_field: "reporting junk A M s0 k s \<Longrightarrow> word_in A (p + off) \<Longrightarrow> field p off s = Ok (ld32 M (p + off))"
  using field_image [of A M s p off] by (simp add: reporting_def)

lemma report_fields:
  assumes "reporting junk A M s0 k s" and "\<forall>(p, off) \<in> set fs. word_in A (p + off)"
  shows "\<exists>vs. fields fs s = Ok vs"
  using assms(2)
proof (induction fs)
  case (Cons f fs)
  then show ?case using report_field [OF assms(1)] by (cases f) auto
qed simp

lemma report_say_fields:
  assumes "prints_line format k k'" and "reporting junk A M s0 k s" and "\<forall>(p, off) \<in> set fs. word_in A (p + off)"
  shows "\<exists>s'. say_fields junk format fs s = Ok s' \<and> reporting junk A M s0 k' s'"
  using report_fields [OF assms(2,3)] report_say [OF assms(1,2)] by (auto simp: say_fields_def)

lemma report_if_flag:
  assumes "reporting junk A M s0 k s" and "word_in A mbi" and "k \<le> k'"
    and "CHECK_FLAG (ld32 M mbi) b \<Longrightarrow> \<exists>s'. f s = Ok s' \<and> reporting junk A M s0 k' s'"
  shows "\<exists>s'. if_flag mbi b f s = Ok s' \<and> reporting junk A M s0 k' s'"
  using assms(4) report_field [OF assms(1), of mbi 0] assms(2) report_more [OF assms(1,3)]
  by (cases "CHECK_FLAG (ld32 M mbi) b") (simp_all add: if_flag_def)

lemma report_flag_line:
  assumes "reporting junk A M s0 k s" and "word_in A mbi" and "prints_line format k k"
    and "CHECK_FLAG (ld32 M mbi) b \<Longrightarrow> \<forall>(p, off) \<in> set fs. word_in A (p + off)"
  shows "\<exists>s'. if_flag mbi b (say_fields junk format fs) s = Ok s' \<and> reporting junk A M s0 k s'"
  using report_if_flag [OF assms(1,2) order_refl] report_say_fields [OF assms(3,1,4)] by blast

subsection \<open>The lines of the report\<close>

text \<open>
  Each begins with the cursor at most three rows below the screen and leaves it at most two below;
  only the newline behind the bytes of a module follows another one without a line between them.
\<close>

lemma report_formats:
  "prints_line ''flags = 0x%#x\<newline>'' 3 3"
  "prints_line ''mem_lower = %uKB, mem_upper = %uKB\<newline>'' 3 3"
  "prints_line ''boot_device = 0x%#x\<newline>'' 3 3"
  "prints_line ''Module %d loaded at address: 0x%#x\<newline>'' 3 2"
  "prints_line ''Module %d ends at address: 0x%#x\<newline>'' 3 2"
  "prints_line ''First few bytes of module:\<newline>'' 3 2"
  "prints_line ''0x%x '' 2 2"
  "prints_line ''\<newline>'' 2 3"
  "prints_line ''elf_sec: num = %u, size = 0x%#x, addr = 0x%#x, shndx = 0x%#x\<newline>'' 3 3"
  "prints_line ''mmap_addr = 0x%#x, mmap_length = 0x%x\<newline>'' 3 3"
  "prints_line '' size = 0x%x,     base_addr = 0x%#x%#x\<newline>     type = 0x%x,  length    = 0x%#x%#x\<newline>'' 3 3"
  by code_simp+

subsection \<open>The parts of the report\<close>

lemma report_first_bytes:
  assumes "reporting junk A M s0 2 s" and "word_in A module" and "\<forall>i < 16. ld32 M module + of_nat i \<in> A"
  shows "\<exists>s'. first_bytes junk module s = Ok s' \<and> reporting junk A M s0 2 s'"
  unfolding first_bytes_def
proof (rule for_loopE_induct [where P = "\<lambda>_. reporting junk A M s0 2"])
  fix i :: nat and t
  assume "i < 16" and t: "reporting junk A M s0 2 t"
  then have "ld (ld32 M module + of_nat i) t = Ok (M (ld32 M module + of_nat i))"
    using assms(3) by (simp add: reporting_def has_image_def)
  then show "\<exists>t'. bindE (field module MOD_START t) (\<lambda>start. bindE (ld (start + of_nat i) t) (\<lambda>c.
      say junk ''0x%x '' [scast c] t)) = Ok t' \<and> reporting junk A M s0 2 t'"
    using report_field [OF t, of module 0] assms(2) report_say [OF report_formats(7) t] by simp
qed (use assms(1) in simp_all)

definition module_ok :: "u32 set \<Rightarrow> (u32 \<Rightarrow> u8) \<Rightarrow> u32 \<Rightarrow> bool" where
  "module_ok A M module \<longleftrightarrow>
     word_in A (module + MOD_START) \<and> word_in A (module + MOD_END) \<and>
     (\<forall>i < 16. ld32 M (module + MOD_START) + of_nat i \<in> A)"

lemma report_module_loop:
  assumes "reporting junk A M s0 3 s" and "word_in A (mbi + MBI_MODS_COUNT)" and "module_ok A M module"
    and "k \<le> unat (ld32 M (mbi + MBI_MODS_COUNT))" and "unat (ld32 M (mbi + MBI_MODS_COUNT)) < k + fuel"
  shows "\<exists>s'. module_loop fuel junk mbi module k s = Ok s' \<and> reporting junk A M s0 3 s'"
  using assms(1,4,5)
proof (induction fuel arbitrary: k s)
  case 0
  then show ?case by simp
next
  case (Suc fuel)
  note M = assms(3) [unfolded module_ok_def]
  note F = report_field [OF Suc.prems(1) assms(2)]
  have P: "\<exists>s'. module_loop (Suc fuel) junk mbi module k s = Ok s' \<and> reporting junk A M s0 3 s'"
    if "k < unat (ld32 M (mbi + MBI_MODS_COUNT))"
  proof -
    obtain s1 where s1: "say junk ''Module %d loaded at address: 0x%#x\<newline>'' [of_nat k, ld32 M (module + 0)] s = Ok s1"
      "reporting junk A M s0 2 s1"
      using report_say [OF report_formats(4) Suc.prems(1)] by blast
    obtain s2 where s2: "say junk ''Module %d ends at address: 0x%#x\<newline>'' [of_nat k, ld32 M (module + 4)] s1 = Ok s2"
      "reporting junk A M s0 2 s2"
      using report_say [OF report_formats(5) report_more [OF s1(2), of 3]] by auto
    obtain s3 where s3: "say junk ''First few bytes of module:\<newline>'' [] s2 = Ok s3" "reporting junk A M s0 2 s3"
      using report_say [OF report_formats(6) report_more [OF s2(2), of 3]] by auto
    obtain s4 where s4: "first_bytes junk module s3 = Ok s4" "reporting junk A M s0 2 s4"
      using report_first_bytes [OF s3(2), of module] M by auto
    obtain s5 where s5: "say junk ''\<newline>'' [] s4 = Ok s5" "reporting junk A M s0 3 s5"
      using report_say [OF report_formats(8) s4(2)] by blast
    show ?thesis
      using Suc.IH [OF s5(2), of "Suc k"] Suc.prems(3) that F report_field [OF Suc.prems(1), of module 0]
        report_field [OF s1(2), of module 4] M s1(1) s2(1) s3(1) s4(1) s5(1)
      by (subst module_loop.simps) simp
  qed
  show ?case
  proof (cases "k < unat (ld32 M (mbi + MBI_MODS_COUNT))")
    case False
    then show ?thesis using F Suc.prems(1) by (subst module_loop.simps) simp
  qed (rule P)
qed

text \<open>The memory map: \<open>n\<close> entries from \<open>p\<close> on that can be read, the last of which ends at or behind the end.\<close>

primrec mmap_chain :: "u32 set \<Rightarrow> (u32 \<Rightarrow> u8) \<Rightarrow> u32 \<Rightarrow> nat \<Rightarrow> u32 \<Rightarrow> bool" where
  "mmap_chain A M final 0 p \<longleftrightarrow> final \<le> p"
| "mmap_chain A M final (Suc n) p \<longleftrightarrow> p < final \<and>
     (\<forall>off \<in> {MMAP_SIZE, MMAP_BASE_ADDR_LOW, MMAP_BASE_ADDR_HIGH, MMAP_LENGTH_LOW, MMAP_LENGTH_HIGH, MMAP_TYPE}.
        word_in A (p + off)) \<and>
     mmap_chain A M final n (p + ld32 M (p + MMAP_SIZE) + 4)"

lemma report_mmap_loop:
  assumes "reporting junk A M s0 3 s" and "word_in A (mbi + MBI_MMAP_ADDR)" and "word_in A (mbi + MBI_MMAP_LENGTH)"
    and "mmap_chain A M (ld32 M (mbi + MBI_MMAP_ADDR) + ld32 M (mbi + MBI_MMAP_LENGTH)) n p" and "n < fuel"
  shows "\<exists>s'. mmap_loop fuel junk mbi p s = Ok s' \<and> reporting junk A M s0 3 s'"
  using assms(1,4,5)
proof (induction n arbitrary: fuel p s)
  case 0
  then have "\<not> p < ld32 M (mbi + 48) + ld32 M (mbi + 44)" by (simp add: not_less)
  then show ?case
    using 0 report_field [OF 0(1) assms(2)] report_field [OF 0(1) assms(3)]
    by (subst mmap_loop.simps) simp
next
  case (Suc n)
  note F = report_field [OF Suc.prems(1)]
  have c: "p < ld32 M (mbi + 48) + ld32 M (mbi + 44)" "word_in A p" "word_in A (p + 4)" "word_in A (p + 8)"
    "word_in A (p + 12)" "word_in A (p + 16)" "word_in A (p + 20)"
    "mmap_chain A M (ld32 M (mbi + 48) + ld32 M (mbi + 44)) n (p + ld32 M p + 4)"
    using Suc.prems(2) by simp_all
  obtain t where t: "say_fields junk
      '' size = 0x%x,     base_addr = 0x%#x%#x\<newline>     type = 0x%x,  length    = 0x%#x%#x\<newline>''
      [(p, MMAP_SIZE), (p, MMAP_BASE_ADDR_HIGH), (p, MMAP_BASE_ADDR_LOW),
       (p, MMAP_TYPE), (p, MMAP_LENGTH_HIGH), (p, MMAP_LENGTH_LOW)] s = Ok t" "reporting junk A M s0 3 t"
    using report_say_fields [OF report_formats(11) Suc.prems(1)] c(2-7) by force
  have "field p 0 t = Ok (ld32 M p)" using report_field [OF t(2), of p 0] c(2) by simp
  then show ?case
    using Suc.IH [OF t(2) c(8), of "fuel - 1"] Suc.prems(3) t(1) c(1) F [OF assms(2)] F [OF assms(3)]
    by (subst mmap_loop.simps) simp
qed

definition mmap_ok :: "u32 set \<Rightarrow> (u32 \<Rightarrow> u8) \<Rightarrow> u32 \<Rightarrow> bool" where
  "mmap_ok A M mbi \<longleftrightarrow>
     word_in A (mbi + MBI_MMAP_ADDR) \<and> word_in A (mbi + MBI_MMAP_LENGTH) \<and>
     (\<exists>n < 2 ^ 32. mmap_chain A M (ld32 M (mbi + MBI_MMAP_ADDR) + ld32 M (mbi + MBI_MMAP_LENGTH)) n
        (ld32 M (mbi + MBI_MMAP_ADDR)))"

lemma report_mmap:
  assumes "reporting junk A M s0 3 s" and "mmap_ok A M mbi"
  shows "\<exists>s'. report_mmap junk mbi s = Ok s' \<and> reporting junk A M s0 3 s'"
proof -
  note m = assms(2) [unfolded mmap_ok_def]
  obtain n where n: "n < 2 ^ 32" "mmap_chain A M (ld32 M (mbi + 48) + ld32 M (mbi + 44)) n (ld32 M (mbi + 48))"
    using m by blast
  obtain t where t: "say_fields junk ''mmap_addr = 0x%#x, mmap_length = 0x%x\<newline>''
      [(mbi, MBI_MMAP_ADDR), (mbi, MBI_MMAP_LENGTH)] s = Ok t" "reporting junk A M s0 3 t"
    using report_say_fields [OF report_formats(10) assms(1)] m by force
  have f: "field mbi 48 t = Ok (ld32 M (mbi + 48))" using report_field [OF t(2)] m by blast
  have "\<exists>s'. mmap_loop (2 ^ 32) junk mbi (ld32 M (mbi + 48)) t = Ok s' \<and> reporting junk A M s0 3 s'"
    using m by (intro report_mmap_loop [OF t(2) _ _ n(2,1)]) blast+
  then show ?thesis unfolding report_mmap_def t(1) bindE_simps f .
qed

text \<open>The command line: a string without control characters that end a line.\<close>

definition one_line :: "u32 set \<Rightarrow> (u32 \<Rightarrow> u8) \<Rightarrow> u32 \<Rightarrow> bool" where
  "one_line A M p \<longleftrightarrow> (\<exists>n < 2 ^ 31. (\<forall>i \<le> n. p + of_nat i \<in> A) \<and> M (p + of_nat n) = 0 \<and>
     (\<forall>i < n. M (p + of_nat i) \<noteq> 0 \<and> printable (M (p + of_nat i))))"

lemma report_string:
  assumes "reporting junk A M s0 0 s" and "n < 2 ^ 31" and "\<forall>i \<le> n. p + of_nat i \<in> A" and "M (p + of_nat n) = 0"
    and "\<forall>i < n. M (p + of_nat i) \<noteq> 0 \<and> printable (M (p + of_nat i))" and "j \<le> n"
  shows "\<exists>s'. puts_ptr p j s = Ok s' \<and> reporting junk A M s0 0 s'"
  using assms(6,1)
proof (induction j arbitrary: s rule: inc_induct)
  case base
  then have "ptr_rd p n s = Ok 0" using assms(3,4) by (simp add: ptr_rd_def reporting_def has_image_def)
  then show ?case using assms(2) base by (subst puts_ptr.simps) simp
next
  case (step j)
  let ?c = "M (p + of_nat j)"
  have c: "?c \<noteq> 0" "printable ?c" using assms(5) step.hyps by auto
  have "ptr_rd p j s = Ok ?c"
    using assms(3) step.hyps step.prems by (simp add: ptr_rd_def reporting_def has_image_def)
  moreover have "reporting junk A M s0 0 (putc ?c s)"
    using report_putc [OF step.prems, of ?c] c(2) by (simp add: rows_below_def)
  ultimately show ?case using step.IH assms(2) step.hyps c by (subst puts_ptr.simps) simp
qed

lemma print_prefix:
  assumes "list_all directive_ok ds" and "\<forall>i. 64 \<le> length (junk i)"
  shows "print_from junk arg (concat (map spell ds) @ rest) n k s =
    print_from junk arg rest (n + length (concat (map spell ds))) (k + length (filter takes_arg ds))
      (fold putc (texts arg k ds) s)"
  using assms(1)
proof (induction ds arbitrary: n k s)
  case (Cons d ds)
  then show ?case using assms(2) by (simp add: print_directive add.assoc)
qed simp

lemma report_command_line:
  assumes "reporting junk A M s0 3 s" and "one_line A M p"
  shows "\<exists>s'. say junk ''cmdline = %s\<newline>'' [p] s = Ok s' \<and> reporting junk A M s0 3 s'"
proof -
  define ds where "ds = map Char (bytes_of ''cmdline = '')"
  define arg where "arg = (\<lambda>i. if i < length [p] then [p] ! i else 0)"
  have ds: "bytes_of ''cmdline = %s\<newline>'' @ [0] = concat (map spell ds) @ [0x25, 0x73, CH_NEWLINE, 0]"
    "list_all directive_ok ds" "list_all (\<lambda>d. d \<noteq> CharArg) ds" "3 + length ds \<le> 150"
    "foldl row_after 3 ds = 0" "filter takes_arg ds = []"
    unfolding ds_def by code_simp+
  have junk: "\<forall>i. 64 \<le> length (junk i)" using assms(1) by (simp add: reporting_def)
  define t where "t = fold putc (texts arg 0 ds) s"
  have t: "reporting junk A M s0 0 t"
    using report_texts [OF assms(1) ds(4,3), of arg 0] ds(5) by (simp add: t_def)
  obtain u where u: "puts_ptr p 0 t = Ok u" "reporting junk A M s0 0 u"
    using report_string [OF t, of _ p 0] assms(2) unfolding one_line_def by blast
  have "printf junk (bytes_of ''cmdline = %s\<newline>'') arg s =
      Ok (length (concat (map spell ds)) + 3, putc CH_NEWLINE u)"
    unfolding printf_def ds(1) print_prefix [OF ds(2) junk] t_def [symmetric]
    using u(1) by (simp add: ds(6) arg_def)
  moreover have "reporting junk A M s0 3 (putc CH_NEWLINE u)"
    using report_more [OF report_putc [OF u(2), of CH_NEWLINE], of 3] by (simp add: rows_below_def)
  ultimately show ?thesis by (simp add: say_def arg_def)
qed

subsection \<open>The whole report\<close>

text \<open>
  What the standard says of the structure at \<open>mbi\<close>: a bit of the flags announces a part that can be
  read, and bits 4 and 5 exclude each other. The modules are there, with at least 16 bytes in the
  first one. That a command line is one line, and a memory map a chain that is walked to its end,
  are the only conditions on the contents.
\<close>

definition mbi_ok :: "u32 set \<Rightarrow> (u32 \<Rightarrow> u8) \<Rightarrow> u32 \<Rightarrow> bool" where
  "mbi_ok A M mbi \<longleftrightarrow>
     (let flag = CHECK_FLAG (ld32 M (mbi + MBI_FLAGS)) in
      word_in A (mbi + MBI_FLAGS) \<and>
      (flag 0 \<longrightarrow> word_in A (mbi + MBI_MEM_LOWER) \<and> word_in A (mbi + MBI_MEM_UPPER)) \<and>
      (flag 1 \<longrightarrow> word_in A (mbi + MBI_BOOT_DEVICE)) \<and>
      (flag 2 \<longrightarrow> word_in A (mbi + MBI_CMDLINE) \<and> one_line A M (ld32 M (mbi + MBI_CMDLINE))) \<and>
      flag 3 \<and> word_in A (mbi + MBI_MODS_COUNT) \<and> word_in A (mbi + MBI_MODS_ADDR) \<and>
      module_ok A M (ld32 M (mbi + MBI_MODS_ADDR)) \<and>
      \<not> (flag 4 \<and> flag 5) \<and>
      (flag 5 \<longrightarrow> word_in A (mbi + MBI_ELF_NUM) \<and> word_in A (mbi + MBI_ELF_SIZE) \<and>
         word_in A (mbi + MBI_ELF_ADDR) \<and> word_in A (mbi + MBI_ELF_SHNDX)) \<and>
      (flag 6 \<longrightarrow> mmap_ok A M mbi))"

lemma report_modules:
  assumes "reporting junk A M s0 3 s" and "word_in A (mbi + MBI_MODS_COUNT)" and "word_in A (mbi + MBI_MODS_ADDR)"
    and "module_ok A M (ld32 M (mbi + MBI_MODS_ADDR))"
  shows "\<exists>s'. report_modules junk mbi s = Ok s' \<and> reporting junk A M s0 3 s'"
  using report_module_loop [OF assms(1,2,4), of 0 "2 ^ 32"] report_field [OF assms(1,3)]
    unat_u32_less [of "ld32 M (mbi + MBI_MODS_COUNT)"]
  by (simp add: report_modules_def)

lemma report_ends:
  assumes "reporting junk A M s0 3 s" and "mbi_ok A M mbi"
  shows "\<exists>u. report junk mbi s = Ok (True, u) \<and> reporting junk A M s0 3 u"
proof -
  note B = assms(2) [unfolded mbi_ok_def Let_def]
  have w: "word_in A mbi" using B by simp
  have "\<forall>(p, off) \<in> set [(mbi, MBI_FLAGS)]. word_in A (p + off)" using w by simp
  then obtain s1 where s1: "say_fields junk ''flags = 0x%#x\<newline>'' [(mbi, MBI_FLAGS)] s = Ok s1" "reporting junk A M s0 3 s1"
    using report_say_fields [OF report_formats(1) assms(1)] by blast
  have "\<forall>(p, off) \<in> set [(mbi, MBI_MEM_LOWER), (mbi, MBI_MEM_UPPER)]. word_in A (p + off)" if "CHECK_FLAG (ld32 M mbi) 0"
    using B that by simp
  then obtain s2 where s2: "if_flag mbi 0 (say_fields junk ''mem_lower = %uKB, mem_upper = %uKB\<newline>''
      [(mbi, MBI_MEM_LOWER), (mbi, MBI_MEM_UPPER)]) s1 = Ok s2" "reporting junk A M s0 3 s2"
    using report_flag_line [OF s1(2) w report_formats(2), of 0] by blast
  have "\<forall>(p, off) \<in> set [(mbi, MBI_BOOT_DEVICE)]. word_in A (p + off)" if "CHECK_FLAG (ld32 M mbi) 1"
    using B that by simp
  then obtain s3 where s3: "if_flag mbi 1 (say_fields junk ''boot_device = 0x%#x\<newline>'' [(mbi, MBI_BOOT_DEVICE)]) s2 = Ok s3"
    "reporting junk A M s0 3 s3"
    using report_flag_line [OF s2(2) w report_formats(3), of 1] by blast
  have "\<exists>u. say_fields junk ''cmdline = %s\<newline>'' [(mbi, MBI_CMDLINE)] s3 = Ok u \<and> reporting junk A M s0 3 u"
    if "CHECK_FLAG (ld32 M mbi) 2"
    using report_command_line [OF s3(2)] report_field [OF s3(2), of mbi MBI_CMDLINE] B that
    by (simp add: say_fields_def)
  then obtain s4 where s4: "if_flag mbi 2 (say_fields junk ''cmdline = %s\<newline>'' [(mbi, MBI_CMDLINE)]) s3 = Ok s4"
    "reporting junk A M s0 3 s4"
    using report_if_flag [OF s3(2) w order_refl, of 2] by blast
  obtain s5 where s5: "if_flag mbi 3 (report_modules junk mbi) s4 = Ok s5" "reporting junk A M s0 3 s5"
    using report_if_flag [OF s4(2) w order_refl, of 3] report_modules [OF s4(2)] B by blast
  have "\<forall>(p, off) \<in> set [(mbi, MBI_ELF_NUM), (mbi, MBI_ELF_SIZE), (mbi, MBI_ELF_ADDR), (mbi, MBI_ELF_SHNDX)].
      word_in A (p + off)" if "CHECK_FLAG (ld32 M mbi) 5"
    using B that by simp
  then obtain s6 where s6: "if_flag mbi 5 (say_fields junk ''elf_sec: num = %u, size = 0x%#x, addr = 0x%#x, shndx = 0x%#x\<newline>''
      [(mbi, MBI_ELF_NUM), (mbi, MBI_ELF_SIZE), (mbi, MBI_ELF_ADDR), (mbi, MBI_ELF_SHNDX)]) s5 = Ok s6"
    "reporting junk A M s0 3 s6"
    using report_flag_line [OF s5(2) w report_formats(9), of 5] by blast
  have "mmap_ok A M mbi" if "CHECK_FLAG (ld32 M mbi) 6" using B that by simp
  then obtain s7 where s7: "if_flag mbi 6 (report_mmap junk mbi) s6 = Ok s7" "reporting junk A M s0 3 s7"
    using report_if_flag [OF s6(2) w order_refl, of 6] report_mmap [OF s6(2)] by blast
  have "field mbi 0 s5 = Ok (ld32 M mbi)" using report_field [OF s5(2), of mbi 0] w by simp
  moreover have "\<not> (CHECK_FLAG (ld32 M mbi) 4 \<and> CHECK_FLAG (ld32 M mbi) 5)" using B by simp
  ultimately have "report junk mbi s = Ok (True, s7)"
    unfolding report_def s1(1) s2(1) s3(1) s4(1) s5(1) bindE_simps by (simp only: if_False bindE_simps s6(1) s7(1))
  then show ?thesis using s7(2) by blast
qed

end
