(* ===== verification/Sample_State.thy ===== *)
theory Sample_State
  imports Line_Discipline Pit
begin

text \<open>
  Concrete kernel states, devices and memory images, on which the hypotheses of the properties
  are evaluated: the machine before paging is switched on, three empty terminals, and devices
  that behave as documented.
\<close>

subsection \<open>A kernel state\<close>

definition sample_pcb :: pcb where
  "sample_pcb = \<lparr>pid = 0, pcb_esp = 0, pcb_ebp = 0, pagedir = 0, curr_esp = 0, curr_ebp = 0,
     curr_eip = 0, curr_pd = 0, term_num = 0, status = 0, lastpcb_ptr = 0,
     args = replicate ARG_SIZE 0, file_desc = stdio_fds\<rparr>"

definition sample_kernel :: "(u32 \<Rightarrow> u8) \<Rightarrow> (io_event list \<Rightarrow> nat \<Rightarrow> u16 \<Rightarrow> u32) \<Rightarrow> kbd" where
  "sample_kernel M d = \<lparr>mem = M, tabs = (\<lambda>_ _. 0), cr0 = 0, cr3 = 0, cr4 = 0, esp = 0, ebp = 0,
     eflags = 0, dev = d, io_log = [], master_mask = 0, slave_mask = 0, screen_x = (\<lambda>_. 0),
     screen_y = (\<lambda>_. 0), current_terminal = 0, int_flag = 0, boot = 0, data = 0x2000,
     pcbs = (\<lambda>_. sample_pcb), pcb_loc = (\<lambda>t. if t = 0 then PCB0_LOC else 0), prev_pcb = (\<lambda>_. 0),
     memoryspace = (\<lambda>_. 0), prog_count = (\<lambda>_. 0), tss_esp0 = 0, tss_ss0 = 0,
     functionflags = (\<lambda>_ _. OFF), enter_flag = (\<lambda>_. OFF), read_flag = (\<lambda>_. OFF),
     keyboardbuffer = (\<lambda>_. replicate BUFFERSIZE 0), bufferindex = (\<lambda>_. 0),
     writebuffer = (\<lambda>_. replicate BUFFERSIZE 0), writeindex = (\<lambda>_. 0)\<rparr>"

abbreviation "no_device \<equiv> (\<lambda>_ _ _. 0)"
abbreviation "plain_kernel \<equiv> sample_kernel (\<lambda>_. 0) no_device"

lemma sample_fields [simp]:
  "mem (sample_kernel M d) = M" "dev (sample_kernel M d) = d" "io_log (sample_kernel M d) = []"
  "tabs (sample_kernel M d) = (\<lambda>_ _. 0)" "current_terminal (sample_kernel M d) = 0"
  "screen_x (sample_kernel M d) = (\<lambda>_. 0)" "screen_y (sample_kernel M d) = (\<lambda>_. 0)"
  "boot (sample_kernel M d) = 0" "data (sample_kernel M d) = 0x2000" "int_flag (sample_kernel M d) = 0"
  "functionflags (sample_kernel M d) = (\<lambda>_ _. OFF)" "enter_flag (sample_kernel M d) = (\<lambda>_. OFF)"
  "read_flag (sample_kernel M d) = (\<lambda>_. OFF)" "bufferindex (sample_kernel M d) = (\<lambda>_. 0)"
  "keyboardbuffer (sample_kernel M d) = (\<lambda>_. replicate BUFFERSIZE 0)"
  "writebuffer (sample_kernel M d) = (\<lambda>_. replicate BUFFERSIZE 0)"
  "writeindex (sample_kernel M d) = (\<lambda>_. 0)" "pcbs (sample_kernel M d) = (\<lambda>_. sample_pcb)"
  "pcb_loc (sample_kernel M d) = (\<lambda>t. if t = 0 then PCB0_LOC else 0)"
  "memoryspace (sample_kernel M d) = (\<lambda>_. 0)" "prog_count (sample_kernel M d) = (\<lambda>_. 0)"
  by (simp_all add: sample_kernel_def)

lemma sample_translate [simp]: "translate (sample_kernel M d) a = Some a"
  by (simp add: translate_def sample_kernel_def)

lemma sample_ld [simp]: "ld a (sample_kernel M d) = Ok (M a)"
  by (simp add: ld_def)

lemma sample_mapped [simp]: "n \<le> 2 ^ 32 \<Longrightarrow> mapped p n (sample_kernel M d)"
  by (auto simp: mapped_def of_nat_u32_inject)

lemma sample_kbd_ok [simp]: "kbd_ok (sample_kernel M d)"
  by (simp add: kbd_ok_def columns_ok_def)

subsection \<open>Devices\<close>

definition sample_pics :: "io_event list \<Rightarrow> nat \<Rightarrow> u16 \<Rightarrow> u32" where
  "sample_pics log w p = (if p = MASTER_DATA then snd (master_pic log) else snd (slave_pic log))"

lemma sample_pics_ready: "pic_ready (sample_kernel M sample_pics)"
  by (simp add: pic_ready_def pic_device_def sample_pics_def pic_state_def)

definition sample_rtc :: "io_event list \<Rightarrow> nat \<Rightarrow> u16 \<Rightarrow> u32" where
  "sample_rtc log w p = (case rtc_regs (\<lambda>_. 0) log of (i, r) \<Rightarrow> r i)"

lemma sample_rtc_device: "rtc_device (\<lambda>_. 0) sample_rtc"
  by (auto simp: rtc_device_def sample_rtc_def Let_def split: prod.splits)

definition sample_keys :: "u8 list \<Rightarrow> io_event list \<Rightarrow> nat \<Rightarrow> u16 \<Rightarrow> u32" where
  "sample_keys ks log w p =
     (let n = length (filter is_kb_read log) in if n < length ks then ucast (ks ! n) else 0)"

lemma sample_keys_device: "keyboard_device ks (sample_keys ks)"
proof -
  have "ucast (ucast c :: u32) = c" for c :: u8
    by (rule bit_word_eqI) (simp add: bit_simps)
  then show ?thesis by (simp add: keyboard_device_def sample_keys_def Let_def)
qed

subsection \<open>A file system image\<close>

text \<open>
  The boot block at 0 with one inode, one data block and the entry ``a'' of type 2 and inode 0;
  the inode block has length 3 and block number 0; the data block holds ``abcd''.
\<close>

definition sample_image :: "u32 \<Rightarrow> u8" where
  "sample_image a =
     (if a = 4 \<or> a = 8 then 1 else if a = 64 then 0x61 else if a = 96 then 2
      else if a = 0x1000 then 3
      else if a = 0x2000 then 0x61 else if a = 0x2001 then 0x62
      else if a = 0x2002 then 0x63 else if a = 0x2003 then 0x64 else 0)"

definition sample_area :: "u32 set" where
  "sample_area = {a. a < 0x3000}"

lemma sample_holds: "has_image A sample_image (sample_kernel sample_image d)"
  by (simp add: has_image_def)

lemma sample_words [simp]:
  "ld32 sample_image (num_inodes_at 0) = 1" "max_block sample_image 0 = 1"
  "file_length sample_image 0 0 = 3"
  by (simp_all add: ld32_def sample_image_def num_inodes_at_def max_block_def file_length_def
      num_data_block_at_def inode_at_def)

lemma sample_block: "p < 8192 \<Longrightarrow> file_block sample_image 0 0 p = 0"
  by (cases "p < 4096") (simp_all add: file_block_def blocks_at_def inode_at_def ld32_def sample_image_def
      div_eq_dividend_iff le_div_geq)

lemma sample_stored: "p \<le> 4 \<Longrightarrow> stored sample_image sample_area 0 0x2000 0 p"
  using sample_block [of p]
  by (auto simp: stored_def indexed_def word_in_def sample_area_def blocks_at_def inode_at_def
      file_addr_def data_at_def word_less_nat_alt unat_add_lem [THEN iffD1] unat_of_nat_u32)

lemma sample_entry: "entry sample_image 0 0 = (0x61 # replicate 63 0)[32 := 2]"
  by code_simp

lemma sample_names:
  "entry_name sample_image 0 0 = [0x61]" "name_length sample_image 0 0 = 1"
  by (code_simp | simp add: name_length_def sample_entry)+

lemma sample_unnamed: "list_all (\<lambda>i. entry_name sample_image 0 i = []) [1..<63]"
  by code_simp

lemma sample_terminated: "i < 63 \<Longrightarrow> \<exists>j < 64. sample_image (entry_at 0 (of_nat i) + of_nat j) = 0"
proof -
  assume i: "i < 63"
  have "list_all (\<lambda>i. sample_image (entry_at 0 (of_nat i) + of_nat 1) = 0) [0..<63]" by code_simp
  with i have "sample_image (entry_at 0 (of_nat i) + of_nat 1) = 0" by (simp add: list_all_iff)
  then show ?thesis by (intro exI [of _ 1]) simp
qed

lemma sample_entry_ok: "i < 63 \<Longrightarrow> entry_ok (\<lambda>a. Ok (sample_image a)) sample_image 0 i"
  using sample_terminated by (simp add: entry_ok_def loads_def)

lemma sample_entry_in: "entry_in sample_area sample_image 0 0"
  using sample_terminated [of 0]
  by (auto simp: entry_in_def word_in_def num_inodes_at_def entry_at_def sample_area_def
      word_less_nat_alt unat_add_lem [THEN iffD1] unat_of_nat_u32)

lemma sample_file: "file_in sample_area sample_image 0 0x2000 0"
proof -
  have "header_in sample_area 0 0"
    by (simp add: header_in_def word_in_def sample_area_def inode_at_def num_data_block_at_def)
  then show ?thesis
    using sample_entry_in sample_stored by (simp add: file_in_def)
qed

subsection \<open>Page tables\<close>

text \<open>Every table on a page of its own.\<close>

definition sample_layout :: layout where
  "sample_layout = \<lparr>page_directory = 0x500000, page_table = 0x501000, vid_table = 0x502000,
     prog_pd = (\<lambda>k. 0x510000 + of_nat k * 0x1000), prog_pt = (\<lambda>k. 0x520000 + of_nat k * 0x1000),
     prog_vt = (\<lambda>k. 0x530000 + of_nat k * 0x1000), prog_term = (\<lambda>k. 0x540000 + of_nat k * 0x1000)\<rparr>"

lemma sample_layout_ok: "layout_ok sample_layout"
  by (simp add: layout_ok_def tables_of_def sample_layout_def page_aligned_def upt_conv_Cons)

lemma sample_tables_clear: "tables_clear L (\<lambda>_ _. 0)"
  by (simp add: tables_clear_def unused_clear_def)

end
