(* ===== verification/User_Calls.thy ===== *)
theory User_Calls
  imports Program_Start
begin

text \<open>
  The two calls that hand something to the program: its arguments and the text screen.
\<close>

subsection \<open>Arguments\<close>

lemma getargs_copies:
  assumes "cur_loc s \<noteq> 0" and "length (args (pcbs s (cur_loc s))) = ARG_SIZE"
    and "args (pcbs s (cur_loc s)) ! 0 \<noteq> 0" and "args (pcbs s (cur_loc s)) ! 0 \<noteq> 0x25"
    and "0 < n" and "n \<le> ARG_SIZE" and "mapped buf n s"
  shows "\<exists>s'. getargs buf (int n) s = Ok (0, s') \<and>
    (\<forall>i < n. ld (buf + of_nat i) s' = Ok (args (pcbs s (cur_loc s)) ! i)) \<and> same_procs s s'"
proof -
  let ?A = "args (pcbs s (cur_loc s))"
  have un: "unat (of_nat n :: u32) = n" using assms(6) by (simp add: unat_of_nat_u32)
  have len: "length (take n ?A) = n" using assms(2,6) by simp
  obtain s' where s': "copy_out buf (take n ?A) s = Ok s'" "\<forall>i < n. ptr_rd buf i s' = Ok (take n ?A ! i)"
    "usr_rest buf n s' = usr_rest buf n s"
    using copy_out_bytes [of buf "take n ?A" s, unfolded len, OF assms(7)] by blast
  have "getargs buf (int n) s = Ok (0, s')"
    using assms(1-6) s'(1) by (simp add: getargs_def cur_pcb_def get_pcb_def un Let_def)
  then show ?thesis
    using s'(2) usr_rest_same_procs [OF s'(3)] assms(2,6) by (auto simp: ptr_rd_def)
qed

lemma getargs_none:
  assumes "cur_loc s \<noteq> 0" and "args (pcbs s (cur_loc s)) ! 0 = 0 \<or> nbytes = 0"
  shows "getargs buf nbytes s = Ok (-1, s)"
  using assms by (auto simp: getargs_def cur_pcb_def get_pcb_def)

text \<open>More than 128 bytes are copied from behind the array of arguments.\<close>

lemma getargs_overrun:
  assumes "cur_loc s \<noteq> 0" and "length (args (pcbs s (cur_loc s))) = ARG_SIZE"
    and "args (pcbs s (cur_loc s)) ! 0 \<noteq> 0" and "args (pcbs s (cur_loc s)) ! 0 \<noteq> 0x25"
    and "int ARG_SIZE < n" and "n < 2 ^ 32"
  shows "getargs buf n s = Err OutOfBounds"
proof -
  have "unat (word_of_int n :: u32) = nat n"
    using assms(5,6) by (simp add: unsigned_of_int take_bit_int_eq_self)
  then show ?thesis
    using assms by (simp add: getargs_def cur_pcb_def get_pcb_def Let_def) arith
qed

text \<open>The started program gets its argument, padded with zeros.\<close>

lemma started_getargs:
  assumes "started L M p ino a len s s'" and "process_table s' S" and "S (current_terminal s') = p # ps"
    and "0 < len" and "a 0 \<noteq> 0" and "a 0 \<noteq> 0x25"
    and "0 < n" and "n \<le> ARG_SIZE" and "mapped buf n s'"
  shows "\<exists>s''. getargs buf (int n) s' = Ok (0, s'') \<and>
    (\<forall>i < n. ld (buf + of_nat i) s'' = Ok (if i < len then a i else 0))"
proof -
  note C = current_process [OF assms(2,3)]
  let ?A = "args (pcbs s' (cur_loc s'))"
  have A: "\<forall>j < BUFFASIZE. ?A ! j = (if j < len then a j else 0)"
    using assms(1) by (simp add: started_def)
  have "length ?A = ARG_SIZE"
    using assms(2) C(1,2) by (simp add: process_table_def pcb_shape_def)
  moreover have "?A ! 0 = a 0" using A assms(4) by simp
  ultimately have "\<exists>s''. getargs buf (int n) s' = Ok (0, s'') \<and>
    (\<forall>i < n. ld (buf + of_nat i) s'' = Ok (?A ! i)) \<and> same_procs s' s''"
    using C(6) assms(5-9) by (intro getargs_copies) simp_all
  then show ?thesis using A assms(8) by auto
qed

lemma started_getargs_none:
  assumes "started L M p ino a len s s'" and "process_table s' S" and "S (current_terminal s') = p # ps"
    and "len = 0 \<or> a 0 = 0 \<or> a 0 = 0x25" and "0 < n"
  shows "getargs buf (int n) s' = Ok (-1, s')"
proof -
  note C = current_process [OF assms(2,3)]
  let ?A = "args (pcbs s' (cur_loc s'))"
  have "?A ! 0 = (if 0 < len then a 0 else 0)" using assms(1) by (simp add: started_def)
  then have "?A ! 0 = 0 \<or> ?A ! 0 = 0x25" using assms(4) by auto
  then show ?thesis using C(6) assms(5) by (auto simp: getargs_def cur_pcb_def get_pcb_def)
qed

text \<open>With an argument that does not begin with a percent sign, and without one.\<close>

lemma execute_getargs:
  assumes "process_table s S" and "length (live S) < MAX_PROCESSES" and "frame_ok f"
    and "can_start L A M command c n m k s"
  shows "\<exists>e s'. execute L f command s = Ok (Enters e, s') \<and>
    (\<forall>buf len. 0 < len \<and> len \<le> ARG_SIZE \<and> mapped buf len s' \<longrightarrow>
      (if n + 1 < m \<and> c (n + 1) \<noteq> 0x25
       then \<exists>s''. getargs buf (int len) s' = Ok (0, s'') \<and>
         (\<forall>i < len. ld (buf + of_nat i) s'' = Ok (if i < m - n - 1 then c (n + 1 + i) else 0))
       else getargs buf (int len) s' = Ok (-1, s')))"
proof -
  obtain p ino e s' where s': "execute L f command s = Ok (Enters e, s')"
    "process_table s' (push (current_terminal s) p S)"
    "started L M p ino (\<lambda>j. c (n + 1 + j)) (m - n - 1) s s'"
    using execute_starts [OF assms(1-4)] by blast
  have "current_terminal s' = current_terminal s"
    by (rule execute_pushes [OF assms(1,3) s'(1)]) simp
  then have stack: "push (current_terminal s) p S (current_terminal s') = p # S (current_terminal s)"
    by (simp add: push_def)
  have "c (n + 1) \<noteq> 0" if "n + 1 < m" using assms(4) that by (simp add: can_start_def command_line_def)
  then show ?thesis
    using started_getargs [OF s'(3,2) stack] started_getargs_none [OF s'(3,2) stack] s'(1) by auto
qed

subsection \<open>Video memory\<close>

text \<open>A 32-bit value in memory, as the program reads it.\<close>

lemma foldE_steps: "foldE f [] = Ok" "foldE f (x # xs) = (\<lambda>s. bindE (f x s) (foldE f xs))"
  by (rule ext, simp)+

lemma bindE_Ok: "bindE r Ok = r"
  by (cases r) simp_all

lemma st_word_copy: "st_word a w s = copy_out a [byte_at w 0, byte_at w 1, byte_at w 2, byte_at w 3] s"
  by (simp add: st_word_def copy_out_def for_loopE_def upt_conv_Cons ptr_wr_def foldE_steps bindE_Ok)

lemma byte_bits:
  "n < 32 \<Longrightarrow> bit (push_bit (8 * k) (ucast (byte_at w k)) :: u32) n \<longleftrightarrow> 8 * k \<le> n \<and> n < 8 * k + 8 \<and> bit w n"
  by (auto simp: byte_at_def bit_simps)

lemma join_bytes:
  "ucast (byte_at w 0) OR push_bit 8 (ucast (byte_at w 1)) OR push_bit 16 (ucast (byte_at w 2)) OR
   push_bit 24 (ucast (byte_at w 3)) = w"
proof (rule bit_word_eqI)
  fix n
  assume "n < LENGTH(32)"
  then have n: "n < 32" by simp
  then have "n < 8 \<or> 8 \<le> n \<and> n < 16 \<or> 16 \<le> n \<and> n < 24 \<or> 24 \<le> n" by linarith
  then show "bit (ucast (byte_at w 0) OR push_bit 8 (ucast (byte_at w 1)) OR push_bit 16 (ucast (byte_at w 2)) OR
    push_bit 24 (ucast (byte_at w 3)) :: u32) n = bit w n"
    using byte_bits [OF n, of 0 w] byte_bits [OF n, of 1 w] byte_bits [OF n, of 2 w] byte_bits [OF n, of 3 w] n
    by (auto simp: bit_or_iff)
qed

lemma st_word_load:
  assumes "mapped a 4 s"
  shows "\<exists>s'. st_word a w s = Ok s' \<and> load32 (\<lambda>x. ld x s') a = Ok w \<and> translate s' = translate s"
proof -
  obtain s' where s': "st_word a w s = Ok s'" "usr_rest a 4 s' = usr_rest a 4 s"
    "\<forall>i < 4. ptr_rd a i s' = Ok ([byte_at w 0, byte_at w 1, byte_at w 2, byte_at w 3] ! i)"
    using copy_out_bytes [of a "[byte_at w 0, byte_at w 1, byte_at w 2, byte_at w 3]" s] assms
    by (auto simp: st_word_copy numeral_eq_Suc)
  have "ld a s' = Ok (byte_at w 0)" "ld (a + 1) s' = Ok (byte_at w 1)" "ld (a + 2) s' = Ok (byte_at w 2)"
    "ld (a + 3) s' = Ok (byte_at w 3)"
    using spec [OF s'(3), of 0] spec [OF s'(3), of 1] spec [OF s'(3), of 2] spec [OF s'(3), of 3]
    by (simp_all add: ptr_rd_def numeral_2_eq_2 numeral_3_eq_3)
  then have "load32 (\<lambda>x. ld x s') a = Ok w" by (simp add: load32_def join_bytes [simplified])
  moreover have "translate s' = translate s"
    using same_procsD(4) s'(2) usr_rest_eqD(1) by blast
  ultimately show ?thesis using s'(1) by blast
qed

text \<open>
  A pointer into the program's part of memory receives the address of the screen. Pointers below
  the program's load address are refused although they are the program's own memory; pointers up to
  \<open>PROGADDR + 4MB\<close> are accepted although its memory ends at 132MB.
\<close>

lemma vidmap_stores:
  assumes "PROGADDR \<le> p" and "p \<le> PROGADDR + MB4" and "mapped p 4 s"
  shows "\<exists>s'. vidmap p s = Ok (0, s') \<and> load32 (\<lambda>x. ld x s') p = Ok TEXTSCREENVIDMEM \<and>
    translate s' = translate s"
proof -
  have "p \<noteq> 0" "\<not> p < PROGADDR" "\<not> PROGADDR + MB4 < p" using assms(1,2) by auto
  then show ?thesis
    using st_word_load [OF assms(3), of TEXTSCREENVIDMEM] by (auto simp: vidmap_def)
qed

lemma vidmap_refuses: "p < PROGADDR \<or> PROGADDR + MB4 < p \<Longrightarrow> vidmap p s = Ok (-1, s)"
  by (auto simp: vidmap_def)

lemma vidmap_faults:
  assumes "layout_ok L" and "tables_clear L (tabs s)" and "paging_on s" and "p < 6"
    and "0x08400000 \<le> a" and "a \<le> PROGADDR + MB4"
  shows "vidmap a (progs_init L (of_nat p) s) = Err PageFault"
proof -
  let ?s = "progs_init L (of_nat p) s"
  note S = progs_init_space [OF assms(1,2,4)]
  have "unat (drop_bit 22 a) = 33"
    using assms(5,6) by (intro drop_22_iff [of 33 a, THEN iffD2]) (auto simp: word_le_nat_alt word_less_nat_alt)
  moreover have "prog_pd L (Suc p) AND ADDR_MASK = prog_pd L (Suc p)"
    using layout_okD(2) [OF assms(1), of "Suc p"] assms(4) by (simp add: page_aligned_def)
  ultimately have "tabs ?s (cr3 ?s AND ADDR_MASK) (unat (drop_bit 22 a)) = 0"
    using S(1,3) by (simp add: space_def)
  then have "translate ?s a = None"
    using assms(3) S(4,5) by (simp add: translate_def paging_on_def walk_absent)
  moreover have "\<not> a < PROGADDR" "a \<noteq> 0" using assms(5) by (auto simp: word_le_nat_alt word_less_nat_alt)
  ultimately show ?thesis
    using assms(6) by (auto simp: vidmap_def st_word_def st_def)
qed

end
