(* ===== verification/Sample_Program.thy ===== *)
theory Sample_Program
  imports Sample_State User_Calls Kernel_Run
begin

text \<open>
  A kernel with paging on, a file system with one program and a command that starts it with an
  argument: the state on which the properties of \<open>execute\<close> are evaluated.
\<close>

subsection \<open>Memory\<close>

text \<open>
  The file system is at 6MB: one inode, one data block, the entry ``a'' of type 2 and inode 0. The
  file has 128 bytes, the magic number, and the entry point \<open>0x08048054\<close>. The command
  ``a xy'' is at \<open>0x610000\<close>. The structure of the boot loader is at \<open>0x611100\<close>: the sizes of the
  memory, the boot device, a command line (the same text), one module, which is the file system, and
  a memory map of one entry; the module's structure is at \<open>0x611200\<close>, the map at \<open>0x611300\<close>.
\<close>

definition boot_structures :: "u32 \<Rightarrow> u8" where
  "boot_structures a =
     (if a = 0x611100 then 0x4F
      else if a = 0x611104 then 0x7F else if a = 0x611105 then 2 else if a = 0x611109 then 0x1C
      else if a = 0x61110F then 0x80 else if a = 0x611112 then 0x61 else if a = 0x611114 then 1
      else if a = 0x611119 then 0x12 else if a = 0x61111A then 0x61
      else if a = 0x61112C then 24 else if a = 0x611131 then 0x13 else if a = 0x611132 then 0x61
      else if a = 0x611202 then 0x60 else if a = 0x611205 then 0x30 else if a = 0x611206 then 0x60
      else if a = 0x611300 then 20 else if a = 0x61130E then 0x80 else if a = 0x611314 then 1 else 0)"

definition prog_memory :: "u32 \<Rightarrow> u8" where
  "prog_memory a =
     (if a < 0x601000 then
        if a = 0x600004 \<or> a = 0x600008 then 1 else if a = 0x600040 then 0x61 else if a = 0x600060 then 2 else 0
      else if a < 0x602000 then if a = 0x601000 then 128 else 0
      else if a < 0x610000 then
        if a = 0x602000 then 0x7F else if a = 0x602001 then 0x45
        else if a = 0x602002 then 0x4C else if a = 0x602003 then 0x46
        else if a = 0x602018 then 0x54 else if a = 0x602019 then 0x80
        else if a = 0x60201A then 0x04 else if a = 0x60201B then 0x08 else 0
      else if a = 0x610000 then 0x61 else if a = 0x610001 then 0x20
      else if a = 0x610002 then 0x78 else if a = 0x610003 then 0x79
      else if a < 0x611100 then 0 else boot_structures a)"

definition prog_area :: "u32 set" where
  "prog_area = {a. 0x600000 \<le> a \<and> a < 0x612000}"

text \<open>The kernel's 4MB page, in a page directory that is none of the processes'.\<close>

definition prog_kernel :: kbd where
  "prog_kernel = (sample_kernel prog_memory no_device)\<lparr>boot := 0x600000, data := 0x602000,
     cr0 := 0x80000001, cr4 := 0x10, cr3 := 0x7000,
     tabs := (\<lambda>b i. if b = 0x7000 \<and> i = 1 then 0x00400183 else 0)\<rparr>"

definition prog_frame :: frame where
  "prog_frame = \<lparr>elfbuf = replicate 4 0, addrbuf = replicate 128 0, prgname = replicate 128 0,
     frame_pcb = sample_pcb\<rparr>"

lemma prog_frame_ok: "frame_ok prog_frame"
  by (simp add: frame_ok_def prog_frame_def sample_pcb_def pcb_shape_def stdio_fds_def)

lemma prog_fields [simp]:
  "mem prog_kernel = prog_memory" "boot prog_kernel = 0x600000" "data prog_kernel = 0x602000"
  "current_terminal prog_kernel = 0" "prog_count prog_kernel = (\<lambda>_. 0)"
  "memoryspace prog_kernel = (\<lambda>_. 0)" "pcbs prog_kernel = (\<lambda>_. sample_pcb)"
  by (simp_all add: prog_kernel_def)

lemma prog_translate:
  assumes "0x00400000 \<le> a" and "a < 0x00800000"
  shows "translate prog_kernel a = Some a"
proof -
  have i: "unat (drop_bit 22 a) = 1"
    using assms by (intro drop_22_iff [of 1 a, THEN iffD2]) (auto simp: word_le_nat_alt word_less_nat_alt)
  then have "drop_bit 22 a = 1" by (metis unsigned_word_eqI unsigned_1)
  with low_bits [of a 22] have "(0x00400183 AND 0xFFC00000) OR (a AND 0x003FFFFF) = a"
    by (simp add: mask_eq_exp_minus_1)
  then show ?thesis
    by (simp add: translate_def prog_kernel_def walk_def Let_def i)
qed

lemma prog_ld [simp]: "0x00400000 \<le> a \<Longrightarrow> a < 0x00800000 \<Longrightarrow> ld a prog_kernel = Ok (prog_memory a)"
  by (simp add: ld_def prog_translate)

lemma prog_is_booted: "booted prog_kernel"
  by (simp add: booted_def sample_pcb_def pcb_shape_def stdio_fds_def flags_small_def free_fd_def)

lemma prog_booted: "process_table prog_kernel (\<lambda>_. [])"
  by (rule booted_table [OF prog_is_booted])

subsection \<open>The program\<close>

definition prog_command :: "nat \<Rightarrow> u8" where
  "prog_command i = prog_memory (0x610000 + of_nat i)"

lemma prog_command_line: "command_line (\<lambda>i. ptr_rd 0x610000 i prog_kernel) prog_command 1 4"
proof -
  have "ptr_rd 0x610000 i prog_kernel = Ok (prog_command i)" if "i \<le> 4" for i
    using that unfolding ptr_rd_def prog_command_def
    by (intro prog_ld) (simp_all add: word_le_nat_alt word_less_nat_alt unat_word_ariths unat_of_nat_u32)
  moreover have c: "prog_command 0 = 0x61" "prog_command 1 = 0x20" "prog_command 2 = 0x78"
    "prog_command 3 = 0x79" "prog_command 4 = 0"
    by (simp_all add: prog_command_def prog_memory_def)
  moreover have "prog_command i \<noteq> 0" if "1 < i" "i < 4" for i
  proof -
    have "i = 2 \<or> i = 3" using that by auto
    then show ?thesis using c by auto
  qed
  ultimately show ?thesis by (simp add: command_line_def c)
qed

lemma prog_names: "names_entry prog_memory 0x600000 prog_command 1 0"
proof -
  have "entry_name prog_memory 0x600000 0 = cstr (\<lambda>j. if j < 1 then prog_command j else 0) 31" by code_simp
  then show ?thesis by (simp add: names_entry_def)
qed

lemma prog_entry: "entry prog_memory 0x600000 0 = (0x61 # replicate 63 0)[32 := 2]"
  by code_simp

lemma prog_entries: "i < 63 \<Longrightarrow> entry_ok (\<lambda>a. ld a prog_kernel) prog_memory 0x600000 i"
proof -
  assume i: "i < 63"
  have "list_all (\<lambda>i. prog_memory (entry_at 0x600000 (of_nat i) + of_nat 1) = 0) [0..<63]" by code_simp
  with i have "prog_memory (entry_at 0x600000 (of_nat i) + of_nat 1) = 0" by (simp add: list_all_iff)
  then have "\<exists>j < 64. prog_memory (entry_at 0x600000 (of_nat i) + of_nat j) = 0"
    by (intro exI [of _ 1]) simp
  moreover have "ld (entry_at 0x600000 (of_nat i) + of_nat j) prog_kernel =
      Ok (prog_memory (entry_at 0x600000 (of_nat i) + of_nat j))" if "j < 64" for j
    using i that unfolding entry_at_def
    by (intro prog_ld) (simp_all add: word_le_nat_alt word_less_nat_alt unat_word_ariths unat_of_nat_u32)
  ultimately show ?thesis by (simp add: entry_ok_def loads_def)
qed

lemma prog_header:
  "header_in prog_area 0x600000 0" "file_length prog_memory 0x600000 0 = 128"
  by (simp_all add: header_in_def word_in_def prog_area_def inode_at_def num_data_block_at_def
      file_length_def ld32_def prog_memory_def)

lemma prog_block: "q < 4096 \<Longrightarrow> file_block prog_memory 0x600000 0 q = 0"
  by (simp add: file_block_def blocks_at_def inode_at_def ld32_def prog_memory_def)

lemma prog_stored: "q < 128 \<Longrightarrow> stored prog_memory prog_area 0x600000 0x602000 0 q"
  using prog_block [of q]
  by (auto simp: stored_def indexed_def word_in_def prog_area_def blocks_at_def inode_at_def max_block_def
      num_data_block_at_def ld32_def prog_memory_def file_addr_def data_at_def word_less_nat_alt
      word_le_nat_alt unat_word_ariths unat_of_nat_u32)

lemma prog_bytes:
  "file_byte prog_memory 0x600000 0x602000 0 0 = 0x7F" "file_byte prog_memory 0x600000 0x602000 0 1 = 0x45"
  "file_byte prog_memory 0x600000 0x602000 0 2 = 0x4C" "file_byte prog_memory 0x600000 0x602000 0 3 = 0x46"
  "file_byte prog_memory 0x600000 0x602000 0 24 = 0x54" "file_byte prog_memory 0x600000 0x602000 0 25 = 0x80"
  "file_byte prog_memory 0x600000 0x602000 0 26 = 0x04" "file_byte prog_memory 0x600000 0x602000 0 27 = 0x08"
  by code_simp+

lemma prog_file: "program_file prog_memory prog_area 0x600000 0x602000 0"
  using prog_header prog_stored prog_bytes
  by (simp add: program_file_def)

lemma prog_entry_point: "entry_point prog_memory 0x600000 0x602000 0 = 0x08048054"
  using prog_bytes by (simp add: entry_point_def)

lemma prog_tables_apart:
  assumes "1 \<le> k" and "k < 7"
  shows "prog_pd sample_layout k \<noteq> 0x7000" and "prog_vt sample_layout k \<noteq> 0x7000"
proof -
  have "k = 1 \<or> k = 2 \<or> k = 3 \<or> k = 4 \<or> k = 5 \<or> k = 6" using assms by auto
  then show "prog_pd sample_layout k \<noteq> 0x7000" "prog_vt sample_layout k \<noteq> 0x7000"
    by (elim disjE; simp add: sample_layout_def)+
qed

lemma prog_can_start: "can_start sample_layout prog_area prog_memory 0x610000 prog_command 1 4 0 prog_kernel"
proof -
  have "kernel_image prog_area prog_memory prog_kernel"
    by (auto simp: kernel_image_def prog_area_def word_le_nat_alt word_less_nat_alt)
  moreover have "\<forall>a \<in> prog_area. translate prog_kernel a = Some a"
    by (auto simp: prog_area_def word_le_nat_alt word_less_nat_alt intro!: prog_translate)
  moreover have "tables_clear sample_layout (tabs prog_kernel)"
    using prog_tables_apart
    by (simp add: tables_clear_def unused_clear_def prog_kernel_def) (simp add: sample_layout_def)
  moreover have "paging_on prog_kernel"
    by (simp add: paging_on_def prog_kernel_def sample_kernel_def bit_simps)
  moreover have "dentry_inode (entry prog_memory 0x600000 0) = 0"
    unfolding prog_entry by code_simp
  ultimately show ?thesis
    using sample_layout_ok prog_command_line prog_entries prog_names prog_file prog_header(2)
    by (simp add: can_start_def)
qed

text \<open>The started program's first page is mapped.\<close>

lemma prog_started_mapped:
  assumes "execute sample_layout prog_frame 0x610000 prog_kernel = Ok (Enters e, s')"
  shows "mapped PROGADDR 1 s'"
proof -
  have "dentry_inode (entry prog_memory (boot prog_kernel) 0) = 0"
    unfolding prog_fields prog_entry by code_simp
  then obtain p where "started sample_layout prog_memory p 0 (\<lambda>j. prog_command (1 + 1 + j)) (4 - 1 - 1) prog_kernel s'"
    using execute_starts [OF prog_booted _ prog_frame_ok prog_can_start] assms by (auto simp: live_def)
  then have "ld PROGADDR s' \<noteq> Err PageFault"
    using prog_header(2) by (auto simp: started_def dest: spec [of _ 0])
  then show ?thesis by (auto simp: mapped_def ld_def split: option.splits)
qed

subsection \<open>Descriptors\<close>

text \<open>The image of \<open>Sample_State\<close>, in which the name at \<open>0x40\<close> exists and the one at
  \<open>0x2000\<close> does not; and a process whose descriptors are all in use.\<close>

definition sample_dentry :: dentry where
  "sample_dentry = entry sample_image 0 0"

abbreviation "file_kernel \<equiv> sample_kernel sample_image no_device"

definition full_kernel :: kbd where
  "full_kernel = file_kernel\<lparr>pcbs := (\<lambda>_. sample_pcb\<lparr>file_desc :=
     stdio_fds[2 := opened sample_dentry, 3 := opened sample_dentry, 4 := opened sample_dentry,
       5 := opened sample_dentry, 6 := opened sample_dentry, 7 := opened sample_dentry]\<rparr>)\<rparr>"

lemma sample_dentry_fields: "dentry_type sample_dentry = 2" "dentry_inode sample_dentry = 0"
  unfolding sample_dentry_def sample_entry by code_simp+

lemma sample_fds: "fds file_kernel = stdio_fds" "cur_loc file_kernel = PCB0_LOC" "fds_ok file_kernel"
  by (simp_all add: fds_ok_def fds_def cur_loc_def sample_pcb_def stdio_ok)

lemma sample_first_free: "first_free stdio_fds 2 2"
  by (simp add: first_free_def stdio_fds_def free_fd_def)

lemma sample_opens: "opens 0x40 file_kernel (Some sample_dentry)"
proof -
  have "c_string (\<lambda>i. ptr_rd 0x40 i file_kernel) 1"
    by (simp add: c_string_def ptr_rd_def sample_image_def)
  moreover have "cstr (\<lambda>i. sample_image (0x40 + of_nat i)) 31 = [0x61]" by code_simp
  then have "read_dentry_by_name (\<lambda>a. Ok (sample_image a)) 0 (\<lambda>i. Ok (sample_image (0x40 + of_nat i))) =
      Ok (0, Some (entry sample_image 0 0))"
    using sample_entry_ok sample_names
    by (intro read_dentry_by_name_found [where f = "\<lambda>i. sample_image (0x40 + of_nat i)"])
      (simp_all add: reads_name_def)
  ultimately show ?thesis
    unfolding opens_def by (intro conjI exI [of _ 1]) (simp_all add: ptr_rd_def sample_dentry_def)
qed

text \<open>The same image with the clock as its entry, and a clock in the machine.\<close>

definition clock_image :: "u32 \<Rightarrow> u8" where
  "clock_image a = (if a = 96 then 0 else sample_image a)"

abbreviation "clock_kernel \<equiv> sample_kernel clock_image sample_rtc"

definition clock_dentry :: dentry where
  "clock_dentry = entry clock_image 0 0"

lemma clock_entry: "entry clock_image 0 0 = 0x61 # replicate 63 0"
  by code_simp

lemma clock_dentry_fields: "dentry_type clock_dentry = 0"
  unfolding clock_dentry_def clock_entry by code_simp

lemma clock_fds: "fds clock_kernel = stdio_fds" "fds_ok clock_kernel"
  by (simp_all add: fds_ok_def fds_def cur_loc_def sample_pcb_def stdio_ok)

lemma clock_entry_ok: "i < 63 \<Longrightarrow> entry_ok (\<lambda>a. Ok (clock_image a)) clock_image 0 i"
proof -
  assume "i < 63"
  from sample_terminated [OF this] have "\<exists>j < 64. clock_image (entry_at 0 (of_nat i) + of_nat j) = 0"
    by (auto simp: clock_image_def)
  then show ?thesis by (simp add: entry_ok_def loads_def)
qed

lemma clock_names: "entry_name clock_image 0 0 = [0x61]"
  by code_simp

lemma clock_opens: "opens 0x40 clock_kernel (Some clock_dentry)"
proof -
  have "c_string (\<lambda>i. ptr_rd 0x40 i clock_kernel) 1"
    by (simp add: c_string_def ptr_rd_def clock_image_def sample_image_def)
  moreover have "cstr (\<lambda>i. clock_image (0x40 + of_nat i)) 31 = [0x61]" by code_simp
  then have "read_dentry_by_name (\<lambda>a. Ok (clock_image a)) 0 (\<lambda>i. Ok (clock_image (0x40 + of_nat i))) =
      Ok (0, Some (entry clock_image 0 0))"
    using clock_entry_ok clock_names
    by (intro read_dentry_by_name_found [where f = "\<lambda>i. clock_image (0x40 + of_nat i)"])
      (simp_all add: reads_name_def)
  ultimately show ?thesis
    unfolding opens_def by (intro conjI exI [of _ 1]) (simp_all add: ptr_rd_def clock_dentry_def)
qed

lemma sample_missing: "opens 0x2000 file_kernel None"
proof -
  have "list_all (\<lambda>i. sample_image (0x2000 + of_nat i) \<noteq> 0) [0..<4] \<and> sample_image (0x2000 + of_nat 4) = 0"
    by code_simp
  then have "c_string (\<lambda>i. ptr_rd 0x2000 i file_kernel) 4"
    by (auto simp: c_string_def ptr_rd_def list_all_iff)
  moreover have c: "cstr (\<lambda>i. sample_image (0x2000 + of_nat i)) 31 = [0x61, 0x62, 0x63, 0x64]" by code_simp
  have "entry_name sample_image 0 j \<noteq> [0x61, 0x62, 0x63, 0x64]" if "j < 63" for j
    using that sample_names sample_unnamed by (cases "j = 0") (auto simp: list_all_iff)
  then have "read_dentry_by_name (\<lambda>a. Ok (sample_image a)) 0 (\<lambda>i. Ok (sample_image (0x2000 + of_nat i))) =
      Ok (-1, None)"
    using sample_entry_ok c
    by (intro read_dentry_by_name_missing [where M = sample_image and f = "\<lambda>i. sample_image (0x2000 + of_nat i)"])
      (simp_all add: reads_name_def)
  ultimately show ?thesis
    unfolding opens_def by (intro conjI exI [of _ 4]) (simp_all add: ptr_rd_def)
qed

lemma full_fields [simp]: "ld a full_kernel = ld a file_kernel" "boot full_kernel = 0"
  "cur_loc full_kernel = PCB0_LOC"
  "fds full_kernel = stdio_fds[2 := opened sample_dentry, 3 := opened sample_dentry, 4 := opened sample_dentry,
       5 := opened sample_dentry, 6 := opened sample_dentry, 7 := opened sample_dentry]"
  by (simp_all add: full_kernel_def ld_def translate_def sample_kernel_def fds_def cur_loc_def cong: option.case_cong)

lemma full_ok: "fds_ok full_kernel"
  by (simp add: fds_ok_def stdio_ok table_ok_update opened_ok)

lemma full_opens: "opens 0x40 full_kernel (Some sample_dentry)"
  using sample_opens by (simp add: opens_def ptr_rd_def)

lemma full_table: "\<forall>j. 2 \<le> j \<and> j < FOPS_NUM \<longrightarrow> fds full_kernel ! j \<noteq> free_fd"
proof (intro allI impI)
  fix j
  assume "2 \<le> j \<and> j < FOPS_NUM"
  then have "j = 2 \<or> j = 3 \<or> j = 4 \<or> j = 5 \<or> j = 6 \<or> j = 7" by auto
  moreover have "opened sample_dentry \<noteq> free_fd" by (simp add: opened_def free_fd_def)
  ultimately show "fds full_kernel ! j \<noteq> free_fd" by (auto simp: stdio_fds_def)
qed

end
