(* ===== verification/Boot_Shell.thy ===== *)
theory Boot_Shell
  imports Boot_Report Sample_Program
begin

text \<open>
  From the boot loader to the shell: the entry point reaches its loop, with the file system where the
  first module is, and the shell starts. The sample state at the end is a kernel right after the
  boot loader.
\<close>

text \<open>What a region of memory answers; a loader that knows at least this much agrees on it.\<close>

definition answers :: "u32 set \<Rightarrow> (u32 \<Rightarrow> u8) \<Rightarrow> u32 \<Rightarrow> u8 res" where
  "answers A M a = (if a \<in> A then Ok (M a) else Err PageFault)"

subsection \<open>The entry point succeeds\<close>

text \<open>
  The Multiboot structure at \<open>mbi\<close> is well-formed, its first module is the file system, and
  everything lies in the memory \<open>A\<close>.
\<close>

definition module_start :: "(u32 \<Rightarrow> u8) \<Rightarrow> u32 \<Rightarrow> u32" where
  "module_start M mbi = ld32 M (ld32 M (mbi + MBI_MODS_ADDR))"

definition boot_info :: "u32 set \<Rightarrow> (u32 \<Rightarrow> u8) \<Rightarrow> u32 \<Rightarrow> bool" where
  "boot_info A M mbi \<longleftrightarrow> mbi_ok A M mbi \<and> word_in A (num_inodes_at (module_start M mbi))"

definition data_start :: "(u32 \<Rightarrow> u8) \<Rightarrow> u32 \<Rightarrow> u32" where
  "data_start M bt = bt + BLOCK_SIZE + ld32 M (num_inodes_at bt) * BLOCK_SIZE"

lemma blanked_outside: "a \<notin> screen_region \<Longrightarrow> blanked 4000 m a = m a"
  by (simp add: screen_region_def blanked_def)

lemma paged_memory:
  assumes "layout_ok L" and "tables_clear L (tabs s)" and "kernel_image A M s" and "A \<inter> screen_region = {}"
  shows "has_image A M (paged L y d1 d2 s)" and "kernel_image A M (paged L y d1 d2 s)"
proof -
  define t where "t = setcoords 0 0 0 (clear (setup_tss d2 y (setup_ldt d1 y s)))"
  have q: "quiet t = quiet (setup_tss d2 y (setup_ldt d1 y s))" by (simp add: t_def)
  have clear: "tables_clear L (tabs t)"
    using assms(2) quiet_eqD(1) [OF q] by (simp add: setup_tss_def setup_ldt_def Let_def)
  have blank: "mem (paged L y d1 d2 s) = blanked 4000 (mem s)"
    using paging_init_space(5) [OF assms(1) clear]
    by (simp add: paged_def t_def [symmetric]) (simp add: t_def setup_tss_def setup_ldt_def Let_def)
  have m: "mem (paged L y d1 d2 s) a = M a" "0x1000 \<le> a" "a < 0x00800000" if "a \<in> A" for a
  proof -
    have "a \<notin> screen_region" using assms(4) that by blast
    then show "mem (paged L y d1 d2 s) a = M a" "0x1000 \<le> a" "a < 0x00800000"
      using blank assms(3) that by (simp_all add: kernel_image_def blanked_outside)
  qed
  then show "kernel_image A M (paged L y d1 d2 s)" by (simp add: kernel_image_def)
  have "translate (paged L y d1 d2 s) a = Some a" if "a \<in> A" for a
    using paged_state(1) [OF assms(1,2) refl, where a = a] m(2,3) [OF that] by simp
  then show "has_image A M (paged L y d1 d2 s)"
    using m(1) by (simp add: has_image_def ld_def)
qed

lemma translate_fs: "translate (s\<lparr>boot := b\<rparr>) = translate s" "translate (s\<lparr>boot := b, data := d\<rparr>) = translate s"
  by (simp_all add: translate_def fun_eq_iff)

lemma setup_kernel_image:
  assumes "layout_ok L" and "tables_clear L (tabs s)" and "kernel_image A M s" and "A \<inter> screen_region = {}"
    and "boot_info A M mbi"
  shows "\<exists>s'. setup_kernel L y d1 d2 mbi s = Ok s' \<and> kernel_image A M s' \<and> has_image A M s' \<and>
    boot s' = module_start M mbi \<and> data s' = data_start M (module_start M mbi)"
proof -
  define p where "p = paged L y d1 d2 s"
  define b where "b = module_start M mbi"
  note P = paged_memory [OF assms(1-4), of y d1 d2, folded p_def]
  have B: "boot_info A M mbi" by (rule assms(5))
  have f: "field mbi MBI_MODS_ADDR p = Ok (ld32 M (mbi + MBI_MODS_ADDR))"
    "field (ld32 M (mbi + MBI_MODS_ADDR)) 0 p = Ok b"
    using B field_image [OF P(1), of mbi MBI_MODS_ADDR] field_image [OF P(1), of _ 0]
    by (simp_all add: boot_info_def mbi_ok_def module_ok_def Let_def b_def module_start_def)
  have "has_image A M (p\<lparr>boot := b\<rparr>)"
    using P(1) by (simp add: has_image_def ld_def translate_fs cong: option.case_cong)
  then have "setup_fs b p = Ok (p\<lparr>boot := b, data := data_start M b\<rparr>)"
    using B load32_image [of A M "p\<lparr>boot := b\<rparr>" "num_inodes_at b"]
    by (simp add: setup_fs_def Let_def boot_info_def b_def data_start_def)
  then have run: "setup_kernel L y d1 d2 mbi s = Ok (devices_on y (p\<lparr>boot := b, data := data_start M b\<rparr>))"
    using f by (simp add: setup_kernel_def Let_def p_def paged_def devices_on_def)
  define v where "v = p\<lparr>boot := b, data := data_start M b\<rparr>"
  have v: "translate v = translate p" "mem v = mem p"
    by (simp_all add: v_def translate_fs)
  note S = devices_on_state [of y v]
  have "kernel_image A M (devices_on y v)" "has_image A M (devices_on y v)"
    using P S(4,5) v by (simp_all add: kernel_image_def has_image_def ld_def cong: option.case_cong)
  moreover have "boot (devices_on y v) = b" "data (devices_on y v) = data_start M b"
    using S(11,12) by (simp_all add: v_def)
  ultimately show ?thesis using run by (simp add: v_def b_def)
qed

text \<open>The state the boot loader leaves: protected mode without paging, the cursor on the screen.\<close>

definition loaded :: "layout \<Rightarrow> u32 set \<Rightarrow> (u32 \<Rightarrow> u8) \<Rightarrow> 'a kernel_scheme \<Rightarrow> bool" where
  "loaded L A M s \<longleftrightarrow> \<not> bit (cr0 s) 31 \<and> tables_clear L (tabs s) \<and> booted s \<and>
     pic_device (dev s) \<and> cursor_ok s \<and> kernel_image A M s \<and> A \<inter> text_window = {}"

lemma kernel_entry_succeeds:
  assumes "loaded L A M s" and "layout_ok L" and "boot_info A M mbi" and "\<forall>i. 64 \<le> length (junk i)"
  shows "\<exists>s'. kernel_entry L y junk d1 d2 MULTIBOOT_BOOTLOADER_MAGIC mbi s = Ok (True, s') \<and>
    kernel_image A M s' \<and> has_image A M s' \<and>
    boot s' = module_start M mbi \<and> data s' = data_start M (module_start M mbi)"
proof -
  note D = assms(1) [unfolded loaded_def]
  have screen: "A \<inter> screen_region = {}" using D screen_in_window by blast
  have tr: "translate s = Some" using D by (simp add: translate_def fun_eq_iff)
  have trc: "translate (clear s) = Some" using tr quiet_translate [OF quiet_clear] by metis
  have img: "kernel_image A M (clear s)"
    unfolding kernel_image_def
  proof (intro ballI)
    fix a
    assume a: "a \<in> A"
    then have "a \<notin> screen_region" using screen by blast
    then show "0x1000 \<le> a \<and> a < 0x00800000 \<and> mem (clear s) a = M a"
      using D a by (simp add: blanked_outside kernel_image_def)
  qed
  then have has: "has_image A M (clear s)" by (simp add: has_image_def kernel_image_def ld_def trc)
  have "within 3 (clear s)" using D by (simp add: on_screen_def within_def Let_def)
  then have "reporting junk A M (clear s) 3 (clear s)"
    using D has trc assms(4) by (simp add: reporting_def same_outside_def)
  then obtain u where u: "report junk mbi (clear s) = Ok (True, u)" "reporting junk A M (clear s) 3 u"
    using report_ends assms(3) unfolding boot_info_def by blast
  have "tables_clear L (tabs u)" using D quiet_eqD(1) [OF quiet_report [OF u(1)]] quiet_eqD(1) [OF quiet_clear [of s]] by simp
  moreover have "kernel_image A M u" using img u(2) D by (auto simp: kernel_image_def reporting_def same_outside_def)
  ultimately show ?thesis
    using setup_kernel_image [OF assms(2) _ _ screen assms(3), of u y d1 d2] u(1)
    by (auto simp: kernel_entry_def Let_def)
qed

subsection \<open>The shell\<close>

text \<open>In terms of what is in memory before the kernel runs: the program that the command names.\<close>

definition program_in :: "u32 set \<Rightarrow> (u32 \<Rightarrow> u8) \<Rightarrow> u32 \<Rightarrow> u32 \<Rightarrow> (nat \<Rightarrow> u8) \<Rightarrow> nat \<Rightarrow> nat \<Rightarrow> nat \<Rightarrow> bool" where
  "program_in A M bt command c n m k \<longleftrightarrow>
     command_line (\<lambda>i. answers A M (command + of_nat i)) c n m \<and>
     (\<forall>i < MAX_FILES. entry_ok (answers A M) M bt i) \<and> names_entry M bt c n k \<and>
     program_file M A bt (data_start M bt) (dentry_inode (entry M bt k)) \<and>
     unat (file_length M bt (dentry_inode (entry M bt k))) \<le> MAX_PROGRAM"

lemma answers_image: "has_image A M s \<Longrightarrow> answers A M a = Ok v \<Longrightarrow> ld a s = Ok v"
  by (auto simp: answers_def has_image_def split: if_splits)

lemma program_in_holds:
  assumes "program_in A M (boot s) command c n m k" and "kernel_image A M s" and "has_image A M s"
    and "data s = data_start M (boot s)"
  shows "holds_program A M command c n m k s"
proof -
  have "command_line (\<lambda>i. ptr_rd command i s) c n m"
    using assms(1) answers_image [OF assms(3)] by (simp add: program_in_def command_line_def ptr_rd_def)
  moreover have "entry_ok (\<lambda>a. ld a s) M (boot s) i" if "i < MAX_FILES" for i
    using assms(1) that answers_image [OF assms(3)] by (simp add: program_in_def entry_ok_def loads_def)
  ultimately show ?thesis
    using assms by (simp add: program_in_def holds_program_def)
qed

lemma boot_starts:
  assumes "loaded L A M s" and "layout_ok L" and "boot_info A M mbi" and "\<forall>i. 64 \<le> length (junk i)"
    and "program_in A M (module_start M mbi) (shell_name y) c n m k" and "frame_ok f"
  defines "bt \<equiv> module_start M mbi"
  defines "ino \<equiv> dentry_inode (entry M bt k)"
  shows "\<exists>s' s''. kernel_entry L y junk d1 d2 MULTIBOOT_BOOTLOADER_MAGIC mbi s = Ok (True, s') \<and>
    kernel_ready L y s' \<and>
    shell_loop 1 L f (shell_name y) s' = Ok (entry_point M bt (data_start M bt) ino, s'') \<and>
    process_table s'' ((\<lambda>_. [])(current_terminal s' := [0])) \<and>
    started L M 0 ino (\<lambda>j. c (n + 1 + j)) (m - n - 1) s' s''"
proof -
  obtain s' where s': "kernel_entry L y junk d1 d2 MULTIBOOT_BOOTLOADER_MAGIC mbi s = Ok (True, s')"
    "kernel_image A M s'" "has_image A M s'" "boot s' = bt" "data s' = data_start M bt"
    using kernel_entry_succeeds [OF assms(1-4)] unfolding bt_def by blast
  have ready: "kernel_ready L y s'"
    using kernel_entry_ready(1) [OF s'(1) assms(2)] assms(1) by (simp add: loaded_def)
  have "holds_program A M (shell_name y) c n m k s'"
    using program_in_holds [of A M s'] assms(5) s' by (simp add: bt_def)
  from shell_starts [OF ready assms(2) this assms(6), of 1] show ?thesis
    using s' ready by (auto simp: ino_def)
qed

lemma boot_steps:
  assumes "loaded L A M s" and "layout_ok L" and "boot_info A M mbi" and "\<forall>i. 64 \<le> length (junk i)"
    and "program_in A M (module_start M mbi) (shell_name y) c n m k" and "frame_ok f"
  shows "\<exists>s' s''. kernel_entry L y junk d1 d2 MULTIBOOT_BOOTLOADER_MAGIC mbi s = Ok (True, s') \<and>
    kernel_step L (Execute f (shell_name y)) s' s'' \<and> process_table s'' ((\<lambda>_. [])(current_terminal s' := [0]))"
  using boot_starts [OF assms] first_round_step [OF _ assms(6)] by blast

subsection \<open>A kernel behind the boot loader\<close>

text \<open>The memory of the sample program, before paging is on, with two interrupt controllers.\<close>

definition boot_symbols :: symbols where
  "boot_symbols = \<lparr>ldt_addr = 0x401000, ldt_size = 31, tss_addr = 0x402000, tss_size = 103,
     wrapper_addr = (\<lambda>_. 0x403000), shell_name = 0x610000\<rparr>"

definition zero_seg :: seg_desc where
  "zero_seg = \<lparr>seg_lim_15_00 = 0, base_15_00 = 0, base_23_16 = 0, seg_type = 0, seg_sys = 0, seg_dpl = 0,
     seg_present = 0, seg_lim_19_16 = 0, avail = 0, seg_reserved = 0, opsize = 0, granularity = 0, base_31_24 = 0\<rparr>"

definition zero_gate :: idt_desc where
  "zero_gate = \<lparr>offset_15_00 = 0, seg_selector = 0, reserved4 = 0, reserved3 = 0, reserved2 = 0, reserved1 = 0,
     gate_size = 0, reserved0 = 0, gate_dpl = 0, gate_present = 0, offset_31_16 = 0\<rparr>"

definition boot_kernel :: kernel where
  "boot_kernel = kbd.extend (sample_kernel prog_memory sample_pics)
     (kernel.fields (\<lambda>_. zero_gate) zero_seg zero_seg 0 0 0)"

lemma boot_fields:
  "mem boot_kernel = prog_memory" "tabs boot_kernel = (\<lambda>_ _. 0)" "cr0 boot_kernel = 0"
  "dev boot_kernel = sample_pics" "current_terminal boot_kernel = 0" "screen_x boot_kernel = (\<lambda>_. 0)"
  "screen_y boot_kernel = (\<lambda>_. 0)" "prog_count boot_kernel = (\<lambda>_. 0)" "memoryspace boot_kernel = (\<lambda>_. 0)"
  "pcbs boot_kernel = (\<lambda>_. sample_pcb)"
  by (simp_all add: boot_kernel_def sample_kernel_def kbd.extend_def)

lemma boot_loaded: "loaded sample_layout prog_area prog_memory boot_kernel"
proof -
  have "booted boot_kernel"
    by (simp add: booted_def boot_fields sample_pcb_def pcb_shape_def stdio_fds_def flags_small_def free_fd_def)
  moreover have "pic_device sample_pics" by (simp add: pic_device_def sample_pics_def)
  moreover have "kernel_image prog_area prog_memory boot_kernel"
    by (auto simp: kernel_image_def boot_fields prog_area_def word_le_nat_alt word_less_nat_alt)
  moreover have "prog_area \<inter> text_window = {}"
  proof -
    have "a \<notin> text_window" if "0x600000 \<le> a" "a < 0x612000" for a
      using that unat_sub [of VIDEO a] by (simp add: text_window_def word_le_nat_alt word_less_nat_alt)
    then show ?thesis by (auto simp: prog_area_def)
  qed
  ultimately show ?thesis
    using sample_tables_clear by (simp add: loaded_def boot_fields on_screen_def)
qed

lemma boot_module: "module_start prog_memory 0x611100 = 0x600000" "data_start prog_memory 0x600000 = 0x602000"
  by (simp_all add: module_start_def data_start_def num_inodes_at_def ld32_def prog_memory_def boot_structures_def)

lemma boot_command_line: "one_line prog_area prog_memory 0x610000"
proof -
  have c: "prog_memory 0x610000 = 0x61" "prog_memory 0x610001 = 0x20" "prog_memory 0x610002 = 0x78"
    "prog_memory 0x610003 = 0x79" "prog_memory 0x610004 = 0"
    by (simp_all add: prog_memory_def)
  show ?thesis
    unfolding one_line_def
  proof (intro exI [of _ 4] conjI allI impI)
    show "0x610000 + of_nat i \<in> prog_area" if "i \<le> 4" for i
      using that by (simp add: prog_area_def word_le_nat_alt word_less_nat_alt unat_word_ariths unat_of_nat_u32)
    show "prog_memory (0x610000 + of_nat i) \<noteq> 0" "prog_memory (0x610000 + of_nat i) \<noteq> CH_NEWLINE"
      "prog_memory (0x610000 + of_nat i) \<noteq> CH_RETURN" if "i < 4" for i
    proof -
      have "i = 0 \<or> i = 1 \<or> i = 2 \<or> i = 3" using that by auto
      then show "prog_memory (0x610000 + of_nat i) \<noteq> 0" "prog_memory (0x610000 + of_nat i) \<noteq> CH_NEWLINE"
        "prog_memory (0x610000 + of_nat i) \<noteq> CH_RETURN" by (elim disjE; simp add: c)+
    qed
  qed (simp_all add: c)
qed

lemma boot_words:
  "ld32 prog_memory 0x611100 = 0x4F" "ld32 prog_memory 0x611110 = 0x610000" "ld32 prog_memory 0x611114 = 1"
  "ld32 prog_memory 0x611118 = 0x611200" "ld32 prog_memory 0x61112C = 24" "ld32 prog_memory 0x611130 = 0x611300"
  "ld32 prog_memory 0x611200 = 0x600000" "ld32 prog_memory 0x611300 = 20"
  by (simp_all add: ld32_def prog_memory_def boot_structures_def)

lemma boot_mmap: "mmap_ok prog_area prog_memory 0x611100"
proof -
  have "mmap_chain prog_area prog_memory 0x611318 (Suc 0) 0x611300"
    by (simp add: boot_words word_in_def prog_area_def)
  then show ?thesis
    by (auto simp: mmap_ok_def boot_words word_in_def prog_area_def intro!: exI [of _ "Suc 0"])
qed

lemma boot_module_ok: "module_ok prog_area prog_memory 0x611200"
proof -
  have "0x600000 + of_nat i \<in> prog_area" if "i < 16" for i
    using that by (simp add: prog_area_def word_le_nat_alt word_less_nat_alt unat_word_ariths unat_of_nat_u32)
  then show ?thesis by (simp add: module_ok_def boot_words word_in_def prog_area_def)
qed

lemma boot_info: "boot_info prog_area prog_memory 0x611100"
proof -
  have flags: "CHECK_FLAG 0x4F 3" "\<not> CHECK_FLAG 0x4F 4" "\<not> CHECK_FLAG 0x4F 5" by code_simp+
  have "mbi_ok prog_area prog_memory 0x611100"
    using flags boot_mmap boot_module_ok boot_command_line
    by (simp add: mbi_ok_def Let_def boot_words) (simp add: word_in_def prog_area_def)
  then show ?thesis
    by (simp add: boot_info_def boot_module word_in_def prog_area_def num_inodes_at_def)
qed

lemma boot_program: "program_in prog_area prog_memory 0x600000 0x610000 prog_command 1 4 0"
proof -
  have A: "answers prog_area prog_memory a = Ok (prog_memory a)" if "0x600000 \<le> a" "a < 0x612000" for a
    using that by (simp add: answers_def prog_area_def)
  have L: "ld a prog_kernel = Ok (prog_memory a) \<and> answers prog_area prog_memory a = Ok (prog_memory a)"
    if "0x600000 \<le> a" "a < 0x612000" for a
    using that A by (auto simp: word_le_nat_alt word_less_nat_alt intro!: prog_ld)
  have R: "answers prog_area prog_memory (0x610000 + of_nat i) = ptr_rd 0x610000 i prog_kernel" if "i \<le> 4" for i
    unfolding ptr_rd_def using that L [of "0x610000 + of_nat i"]
    by (simp add: word_le_nat_alt word_less_nat_alt unat_word_ariths unat_of_nat_u32)
  have "answers prog_area prog_memory 0x610004 = ptr_rd 0x610000 4 prog_kernel" using R [of 4] by simp
  then have "command_line (\<lambda>i. answers prog_area prog_memory (0x610000 + of_nat i)) prog_command 1 4"
    using prog_command_line R by (simp add: command_line_def)
  moreover have "entry_ok (answers prog_area prog_memory) prog_memory 0x600000 i" if "i < 63" for i
  proof -
    have "answers prog_area prog_memory (entry_at 0x600000 (of_nat i) + of_nat j) =
        Ok (prog_memory (entry_at 0x600000 (of_nat i) + of_nat j))" if "j < 64" for j
      using \<open>i < 63\<close> that unfolding entry_at_def
      by (intro A) (simp_all add: word_le_nat_alt word_less_nat_alt unat_word_ariths unat_of_nat_u32)
    then show ?thesis using prog_entries [OF that] by (simp add: entry_ok_def loads_def)
  qed
  moreover have "dentry_inode (entry prog_memory 0x600000 0) = 0"
    unfolding prog_entry by code_simp
  ultimately show ?thesis
    using prog_names prog_file prog_header(2) by (simp add: program_in_def boot_module)
qed

lemma boot_junk: "\<forall>i. 64 \<le> length ((\<lambda>_ :: nat. replicate 64 (0 :: u8)) i)"
  by simp

end
