(* ===== verification/Start.thy ===== *)
theory Start
  imports Boot_Shell
begin

text \<open>
  The first instructions of the kernel (\<open>boot.S\<close>) and the tables they load (\<open>x86_desc.S\<close>): from
  the jump of the boot loader to \<open>start\<close>, with the Multiboot values in two registers, to the call of
  the entry point, and what the segment selectors of the kernel select afterwards.
\<close>

subsection \<open>The Multiboot header\<close>

text \<open>What the boot loader looks for in the image: the three words, which must have the sum 0.\<close>

abbreviation MULTIBOOT_HEADER_MAGIC :: u32 where "MULTIBOOT_HEADER_MAGIC \<equiv> 0x1BADB002"
abbreviation MULTIBOOT_HEADER_FLAGS :: u32 where "MULTIBOOT_HEADER_FLAGS \<equiv> 0x00000003"

definition multiboot_header :: "u32 list" where
  "multiboot_header = [MULTIBOOT_HEADER_MAGIC, MULTIBOOT_HEADER_FLAGS,
     - (MULTIBOOT_HEADER_MAGIC + MULTIBOOT_HEADER_FLAGS)]"

lemma multiboot_checksum: "sum_list multiboot_header = 0"
  by (simp add: multiboot_header_def)

subsection \<open>The tables\<close>

text \<open>The task state segment is 104 bytes of zeros, the local descriptor table four empty entries.\<close>

definition initial_tss :: "u8 list" where
  "initial_tss = replicate 104 0"

definition initial_ldt :: "64 word list" where
  "initial_ldt = replicate 4 0"

definition linked_tss_size :: u32 where
  "linked_tss_size = of_nat (length initial_tss) - 1"

definition linked_ldt_size :: u32 where
  "linked_ldt_size = of_nat (8 * length initial_ldt) - 1"

definition initial_gdt :: "64 word list" where
  "initial_gdt = [0, 0, 0x00CF9A000000FFFF, 0x00CF92000000FFFF, 0x00CFFA000000FFFF, 0x00CFF2000000FFFF, 0, 0]"

definition gdt_size :: u16 where
  "gdt_size = of_nat (8 * length initial_gdt) - 1"

definition idt_size :: u16 where
  "idt_size = of_nat (8 * NUM_VEC) - 1"

text \<open>
  The last two entries are the variables \<open>tss_desc_ptr\<close> and \<open>ldt_desc_ptr\<close>, which the entry point
  sets. An entry is the pair of its two words, the lower address first.
\<close>

definition quad_words :: "64 word \<Rightarrow> u32 \<times> u32" where
  "quad_words q = (ucast q, ucast (drop_bit 32 q))"

definition gdt :: "'a kernel_scheme \<Rightarrow> (u32 \<times> u32) list" where
  "gdt s = (map quad_words initial_gdt)
     [6 := (seg_low (tss_desc_ptr s), seg_high (tss_desc_ptr s)),
      7 := (seg_low (ldt_desc_ptr s), seg_high (ldt_desc_ptr s))]"

subsection \<open>The first instructions\<close>

datatype seg_reg = CS | SS | DS | ES | FS | GS

text \<open>The size of a table less one and its address; the padding aligns the address.\<close>

record x86_desc =
  desc_padding :: u16
  desc_size :: u16
  desc_addr :: u32

text \<open>
  The registers that the boot code loads. The addresses are those of the two tables and of the
  instruction behind the call.
\<close>

record cpu = kernel +
  gdtr :: x86_desc
  idtr :: x86_desc
  seg_regs :: "seg_reg \<Rightarrow> u16"

record boot_labels =
  gdt_addr :: u32
  idt_addr :: u32
  halt_addr :: u32

text \<open>
  The operands in memory are \<open>gdt_desc_ptr\<close> and \<open>idt_desc_ptr\<close>, without padding in front of the size;
  the two instructions read only the size and the address.
\<close>

definition gdt_desc :: "boot_labels \<Rightarrow> x86_desc" where
  "gdt_desc b = \<lparr>desc_padding = 0, desc_size = gdt_size, desc_addr = gdt_addr b\<rparr>"

definition idt_desc_reg :: "boot_labels \<Rightarrow> x86_desc" where
  "idt_desc_reg b = \<lparr>desc_padding = 0, desc_size = idt_size, desc_addr = idt_addr b\<rparr>"

definition lgdt :: "x86_desc \<Rightarrow> 'a cpu_scheme \<Rightarrow> 'a cpu_scheme" where
  "lgdt desc s = s\<lparr>gdtr := desc\<rparr>"

definition lidt :: "x86_desc \<Rightarrow> 'a cpu_scheme \<Rightarrow> 'a cpu_scheme" where
  "lidt desc s = s\<lparr>idtr := desc\<rparr>"

definition load_seg :: "seg_reg \<Rightarrow> u16 \<Rightarrow> 'a cpu_scheme \<Rightarrow> 'a cpu_scheme" where
  "load_seg r sel s = s\<lparr>seg_regs := (seg_regs s)(r := sel)\<rparr>"

definition pushl :: "u32 \<Rightarrow> 'a machine_scheme \<Rightarrow> 'a machine_scheme res" where
  "pushl w s = st_word (esp s - 4) w (s\<lparr>esp := esp s - 4\<rparr>)"

text \<open>
  The entry point finds its arguments above the return address. The result tells whether it
  reached its loop; otherwise it returns and the processor halts for ever.
\<close>

definition start :: "layout \<Rightarrow> symbols \<Rightarrow> boot_labels \<Rightarrow> (nat \<Rightarrow> u8 list) \<Rightarrow> seg_desc \<Rightarrow> seg_desc \<Rightarrow> u32 \<Rightarrow> u32 \<Rightarrow>
    'a cpu_scheme \<Rightarrow> (bool \<times> 'a cpu_scheme) res" where
  "start L y b junk d1 d2 eax ebx s =
     (let s = cli s;
          s = lgdt (gdt_desc b) s;
          s = lidt (idt_desc_reg b) s;
          s = load_seg CS KERNEL_CS s;
          s = s\<lparr>esp := 0x800000\<rparr>;
          s = load_seg SS (ucast KERNEL_DS) s;
          s = load_seg DS (ucast KERNEL_DS) s;
          s = load_seg ES (ucast KERNEL_DS) s;
          s = load_seg FS (ucast KERNEL_DS) s;
          s = load_seg GS (ucast KERNEL_DS) s in
      bindE (pushl ebx s) (\<lambda>s.
      bindE (pushl eax s) (\<lambda>s.
      bindE (pushl (halt_addr b) s) (\<lambda>s.
      bindE (load32 (\<lambda>a. ld a s) (esp s + 4)) (\<lambda>magic.
      bindE (load32 (\<lambda>a. ld a s) (esp s + 8)) (\<lambda>addr.
      kernel_entry L y junk d1 d2 magic addr s))))))"

subsection \<open>What a selector selects\<close>

text \<open>
  The entry of the global table at the index of the selector, when bit 2 asks for that table and
  the whole entry is inside its limit. Entry 0 cannot be used.
\<close>

definition selected :: "u16 \<Rightarrow> 'a cpu_scheme \<Rightarrow> (u32 \<times> u32) option" where
  "selected sel s =
     (let i = unat (drop_bit 3 sel) in
      if bit sel 2 \<or> i = 0 \<or> unat (desc_size (gdtr s)) < 8 * i + 7 then None else Some (gdt s ! i))"

text \<open>The last byte of a segment.\<close>

definition cpu_last :: "u32 \<Rightarrow> u32 \<Rightarrow> u32" where
  "cpu_last lo hi =
     (if cpu_granular hi then push_bit 12 (cpu_limit lo hi) OR 0xFFF else cpu_limit lo hi)"

definition segment :: "u32 \<Rightarrow> u32 \<Rightarrow> u32 \<Rightarrow> u32 \<Rightarrow> (u32 \<times> u32) option \<Rightarrow> bool" where
  "segment base final kind dpl e =
     (case e of
        None \<Rightarrow> False
      | Some (lo, hi) \<Rightarrow> cpu_base lo hi = base \<and> cpu_last lo hi = final \<and> cpu_type hi = kind \<and>
          cpu_dpl hi = dpl \<and> cpu_present hi)"

abbreviation CODE_SEGMENT :: u32 where "CODE_SEGMENT \<equiv> 0x1A"
abbreviation DATA_SEGMENT :: u32 where "DATA_SEGMENT \<equiv> 0x12"

text \<open>
  Flat code and data segments for the kernel and for the programs, the local table, and the task
  state segment.
\<close>

definition selectors_ok :: "symbols \<Rightarrow> 'a cpu_scheme \<Rightarrow> bool" where
  "selectors_ok y s \<longleftrightarrow>
     segment 0 0xFFFFFFFF CODE_SEGMENT 0 (selected KERNEL_CS s) \<and>
     segment 0 0xFFFFFFFF DATA_SEGMENT 0 (selected (ucast KERNEL_DS) s) \<and>
     segment 0 0xFFFFFFFF CODE_SEGMENT 3 (selected USER_CS s) \<and>
     segment 0 0xFFFFFFFF DATA_SEGMENT 3 (selected USER_DS s) \<and>
     segment (tss_addr y) 103 TSS_SEGMENT 0 (selected (task_register s) s) \<and>
     segment (ldt_addr y) 31 LDT_SEGMENT 0 (selected (ldt_register s) s)"

lemma selected_gdt:
  assumes "desc_size (gdtr s) = gdt_size"
  shows "selected KERNEL_CS s = Some (0xFFFF, 0x00CF9A00)" and "selected (ucast KERNEL_DS) s = Some (0xFFFF, 0x00CF9200)"
    and "selected USER_CS s = Some (0xFFFF, 0x00CFFA00)" and "selected USER_DS s = Some (0xFFFF, 0x00CFF200)"
    and "selected KERNEL_TSS s = Some (seg_low (tss_desc_ptr s), seg_high (tss_desc_ptr s))"
    and "selected KERNEL_LDT s = Some (seg_low (ldt_desc_ptr s), seg_high (ldt_desc_ptr s))"
  using assms
  by (simp_all add: selected_def gdt_def gdt_size_def initial_gdt_def quad_words_def Let_def)

lemma describes_segment:
  "describes d base limit kind \<Longrightarrow> segment base limit kind 0 (Some (seg_low d, seg_high d))"
  by (simp add: describes_def segment_def cpu_last_def)

lemma flat_segments:
  "segment 0 0xFFFFFFFF CODE_SEGMENT 0 (Some (0xFFFF, 0x00CF9A00))"
  "segment 0 0xFFFFFFFF DATA_SEGMENT 0 (Some (0xFFFF, 0x00CF9200))"
  "segment 0 0xFFFFFFFF CODE_SEGMENT 3 (Some (0xFFFF, 0x00CFFA00))"
  "segment 0 0xFFFFFFFF DATA_SEGMENT 3 (Some (0xFFFF, 0x00CFF200))"
  by code_simp+

text \<open>The sizes are those of the tables above.\<close>

definition linked :: "symbols \<Rightarrow> bool" where
  "linked y \<longleftrightarrow> ldt_size y = linked_ldt_size \<and> tss_size y = linked_tss_size"

lemma selectors:
  assumes "desc_size (gdtr s) = gdt_size" and "segments_ok y s" and "linked y"
  shows "selectors_ok y s"
proof -
  have size: "linked_ldt_size AND 0xFFFFF = 31" "linked_tss_size AND 0xFFFFF = 103" by code_simp+
  have ok: "describes (ldt_desc_ptr s) (ldt_addr y) 31 LDT_SEGMENT" "ldt_register s = KERNEL_LDT"
    "describes (tss_desc_ptr s) (tss_addr y) 103 TSS_SEGMENT" "task_register s = KERNEL_TSS"
    using assms(2) unfolding segments_ok_def conjunct1 [OF assms(3) [unfolded linked_def]]
      conjunct2 [OF assms(3) [unfolded linked_def]] size by blast+
  show ?thesis
    unfolding selectors_ok_def ok(2,4) selected_gdt [OF assms(1)]
    using flat_segments ok(1,3) by (blast intro: describes_segment)
qed

subsection \<open>The call of the entry point\<close>

text \<open>Without paging a push is an update of memory.\<close>

definition with_word :: "u32 \<Rightarrow> u32 \<Rightarrow> (u32 \<Rightarrow> u8) \<Rightarrow> u32 \<Rightarrow> u8" where
  "with_word a w m = m(a := byte_at w 0, a + 1 := byte_at w 1, a + 2 := byte_at w 2, a + 3 := byte_at w 3)"

lemma pushl_unpaged:
  assumes "\<not> bit (cr0 s) 31"
  shows "pushl w s = Ok (s\<lparr>mem := with_word (esp s - 4) w (mem s), esp := esp s - 4\<rparr>)"
  using assms by (simp add: pushl_def st_word_def st_def translate_def with_word_def)

lemma load32_unpaged:
  assumes "\<not> bit (cr0 s) 31"
  shows "load32 (\<lambda>a. ld a s) a = Ok (ld32 (mem s) a)"
  using assms by (simp add: load32_def ld_def translate_def ld32_def)

text \<open>What the entry point finds in its registers and on its stack.\<close>

definition entered :: "boot_labels \<Rightarrow> u32 \<Rightarrow> u32 \<Rightarrow> 'a cpu_scheme \<Rightarrow> 'a cpu_scheme" where
  "entered b eax ebx s =
     s\<lparr>eflags := eflags s AND NOT IF_MASK, gdtr := gdt_desc b, idtr := idt_desc_reg b,
       seg_regs := (\<lambda>r. if r = CS then KERNEL_CS else ucast KERNEL_DS),
       mem := with_word 0x7FFFF4 (halt_addr b) (with_word 0x7FFFF8 eax (with_word 0x7FFFFC ebx (mem s))),
       esp := 0x7FFFF4\<rparr>"

lemma start_enters:
  assumes "\<not> bit (cr0 s) 31"
  shows "start L y b junk d1 d2 eax ebx s = kernel_entry L y junk d1 d2 eax ebx (entered b eax ebx s)"
proof -
  have all: "(seg_regs s)(CS := KERNEL_CS, SS := 24, DS := 24, ES := 24, FS := 24, GS := 24) =
      (\<lambda>r. if r = CS then KERNEL_CS else ucast KERNEL_DS)"
  proof
    fix r
    show "((seg_regs s)(CS := KERNEL_CS, SS := 24, DS := 24, ES := 24, FS := 24, GS := 24)) r =
        (if r = CS then KERNEL_CS else ucast KERNEL_DS)"
      by (cases r) simp_all
  qed
  define m where "m = mem (entered b eax ebx s)"
  have args: "ld32 m 0x7FFFF8 = eax" "ld32 m 0x7FFFFC = ebx"
    using join_bytes by (simp_all add: m_def entered_def with_word_def ld32_def)
  show ?thesis
    using assms args
    by (simp add: start_def Let_def lgdt_def lidt_def load_seg_def cli_def pushl_unpaged load32_unpaged all m_def)
      (simp add: entered_def)
qed

lemma entered_fields:
  "tabs (entered b eax ebx s) = tabs s" "cr0 (entered b eax ebx s) = cr0 s" "dev (entered b eax ebx s) = dev s"
  "idt (entered b eax ebx s) = idt s" "booted (entered b eax ebx s) = booted s"
  "gdtr (entered b eax ebx s) = gdt_desc b" "idtr (entered b eax ebx s) = idt_desc_reg b"
  "seg_regs (entered b eax ebx s) = (\<lambda>r. if r = CS then KERNEL_CS else ucast KERNEL_DS)"
  by (simp_all add: entered_def booted_def)

text \<open>The stack is the last twelve bytes below the first 8MB.\<close>

lemma entered_memory:
  assumes "a < 0x7FFFF4"
  shows "mem (entered b eax ebx s) a = mem s a"
proof -
  have "a \<noteq> x" if "0x7FFFF4 \<le> x" for x using assms that by (auto simp: word_le_nat_alt word_less_nat_alt)
  then show ?thesis by (simp add: entered_def with_word_def)
qed

lemma entered_loaded:
  assumes "loaded L A M s" and "\<forall>a \<in> A. a < 0x7FFFF4"
  shows "loaded L A M (entered b eax ebx s)"
proof -
  have "cursor_ok (entered b eax ebx s) = cursor_ok s" by (simp add: on_screen_def entered_def)
  then show ?thesis
    using assms by (auto simp: loaded_def kernel_image_def entered_fields entered_memory)
qed

subsection \<open>The entry point keeps the registers\<close>

lemma kernel_entry_more:
  fixes s s' :: "'a kernel_scheme"
  assumes "kernel_entry L y junk d1 d2 magic mbi s = Ok (True, s')"
  shows "kernel.more s' = kernel.more s"
proof -
  have pic: "kernel.more v = kernel.more u" if "pic.more v = pic.more u" for u v :: "'a kernel_scheme"
    using that by (cases u; cases v; simp)
  have quiet: "kernel.more v = kernel.more u" if "quiet v = quiet u" for u v :: "'a kernel_scheme"
    using quiet_eqD(13) [OF that] by (cases u; cases v; simp)
  have magic: "magic = MULTIBOOT_BOOTLOADER_MAGIC"
    using assms by (rule_tac ccontr) (auto dest: kernel_entry_magic)
  obtain u where u: "report junk mbi (clear s) = Ok (True, u)" "setup_kernel L y d1 d2 mbi u = Ok s'"
    using assms magic by (auto simp: kernel_entry_def Let_def bindE_eq_Ok split: if_splits)
  have "quiet u = quiet s" using quiet_report [OF u(1)] by simp
  then have 1: "kernel.more u = kernel.more s" by (rule quiet)
  define v where "v = clear (setup_tss d2 y (setup_ldt d1 y u))"
  have "quiet v = quiet (setup_tss d2 y (setup_ldt d1 y u))" by (simp add: v_def)
  then have "kernel.more v = kernel.more (setup_tss d2 y (setup_ldt d1 y u))" by (rule quiet)
  then have 2: "kernel.more v = kernel.more u" by (simp add: setup_tss_def setup_ldt_def Let_def)
  have "quiet (setcoords 0 0 0 v) = quiet v" by simp
  then have 3: "kernel.more (setcoords 0 0 0 v) = kernel.more v" by (rule quiet)
  have 4: "kernel.more (paged L y d1 d2 u) = kernel.more (setcoords 0 0 0 v)"
    unfolding paged_def v_def by (rule pic, rule machine_more_pic, rule paging_init_more)
  obtain i d where s': "s' = devices_on y ((paged L y d1 d2 u)\<lparr>boot := i, data := d\<rparr>)"
    using setup_kernel_eq [OF u(2)] by blast
  define p where "p = (paged L y d1 d2 u)\<lparr>boot := i, data := d\<rparr>"
  define t where "t = (i8259_init p)\<lparr>idt := setup_exceptions (wrapper_addr y) (idt (i8259_init p))\<rparr>"
  have "kernel.more (fold (\<lambda>n. enable_irq (of_nat n)) [2, 1, 8] t) = kernel.more t"
    by (rule pic) (simp add: controller_fields)
  moreover have "kernel.more (i8259_init p) = kernel.more p" by (rule pic) (simp add: controller_fields)
  ultimately have "kernel.more s' = kernel.more p"
    unfolding s' p_def [symmetric] devices_on_def Let_def t_def [symmetric] by (simp add: sti_def) (simp add: t_def)
  then show ?thesis using 1 2 3 4 by (simp add: p_def)
qed

lemma kernel_entry_registers:
  fixes s s' :: "'a cpu_scheme"
  assumes "kernel_entry L y junk d1 d2 magic mbi s = Ok (True, s')"
  shows "gdtr s' = gdtr s" and "idtr s' = idtr s" and "seg_regs s' = seg_regs s"
  using kernel_entry_more [OF assms] by (cases s; cases s'; simp)+

subsection \<open>From the boot loader to the loop of the entry point\<close>

lemma start_ready:
  fixes s s' :: "'a cpu_scheme"
  assumes "start L y b junk d1 d2 eax ebx s = Ok (True, s')" and "\<not> bit (cr0 s) 31"
    and "layout_ok L" and "tables_clear L (tabs s)" and "booted s" and "pic_device (dev s)"
  shows "kernel_ready L y s'" and "idt s' = setup_exceptions (wrapper_addr y) (idt s)"
    and "gdtr s' = gdt_desc b" and "idtr s' = idt_desc_reg b"
    and "seg_regs s' = (\<lambda>r. if r = CS then KERNEL_CS else ucast KERNEL_DS)"
    and "linked y \<Longrightarrow> selectors_ok y s'"
proof -
  have run: "kernel_entry L y junk d1 d2 eax ebx (entered b eax ebx s) = Ok (True, s')"
    using assms(1) by (simp add: start_enters [OF assms(2)])
  note K = kernel_entry_ready [OF run assms(3), unfolded entered_fields, OF assms(4-6)]
  show "kernel_ready L y s'" "idt s' = setup_exceptions (wrapper_addr y) (idt s)" by (fact K)+
  show "gdtr s' = gdt_desc b" "idtr s' = idt_desc_reg b"
    "seg_regs s' = (\<lambda>r. if r = CS then KERNEL_CS else ucast KERNEL_DS)"
    unfolding kernel_entry_registers [OF run] entered_fields by (rule refl)+
  then show "selectors_ok y s'" if "linked y"
    using K(1) that by (auto simp: kernel_ready_def gdt_desc_def intro!: selectors)
qed

lemma start_boots:
  assumes "loaded L A M s" and "layout_ok L" and "boot_info A M mbi" and "\<forall>i. 64 \<le> length (junk i)"
    and "program_in A M (module_start M mbi) (shell_name y) c n m k" and "frame_ok f"
    and "\<forall>a \<in> A. a < 0x7FFFF4"
  defines "bt \<equiv> module_start M mbi"
  defines "ino \<equiv> dentry_inode (entry M bt k)"
  shows "\<exists>s' s''. start L y b junk d1 d2 MULTIBOOT_BOOTLOADER_MAGIC mbi s = Ok (True, s') \<and>
    kernel_ready L y s' \<and>
    shell_loop 1 L f (shell_name y) s' = Ok (entry_point M bt (data_start M bt) ino, s'') \<and>
    process_table s'' ((\<lambda>_. [])(current_terminal s' := [0])) \<and>
    started L M 0 ino (\<lambda>j. c (n + 1 + j)) (m - n - 1) s' s''"
proof -
  have "\<not> bit (cr0 s) 31" using assms(1) by (simp add: loaded_def)
  then show ?thesis
    using boot_starts [OF entered_loaded [OF assms(1,7)] assms(2-6)]
    by (simp add: start_enters bt_def ino_def)
qed

subsection \<open>A processor behind the boot loader\<close>

text \<open>The registers hold what the boot loader left in them.\<close>

definition boot_cpu :: cpu where
  "boot_cpu = kernel.extend boot_kernel (cpu.fields \<lparr>desc_padding = 0, desc_size = 0x27, desc_addr = 0x9000\<rparr>
       \<lparr>desc_padding = 0, desc_size = 0, desc_addr = 0\<rparr> (\<lambda>_. 8))"

definition sample_labels :: boot_labels where
  "sample_labels = \<lparr>gdt_addr = 0x404000, idt_addr = 0x405000, halt_addr = 0x400060\<rparr>"

lemma boot_linked: "linked boot_symbols"
  by (simp add: linked_def boot_symbols_def linked_ldt_size_def linked_tss_size_def initial_ldt_def initial_tss_def)

lemma boot_cpu_fields:
  "mem boot_cpu = mem boot_kernel" "tabs boot_cpu = tabs boot_kernel" "cr0 boot_cpu = cr0 boot_kernel"
  "dev boot_cpu = dev boot_kernel" "current_terminal boot_cpu = current_terminal boot_kernel"
  "screen_x boot_cpu = screen_x boot_kernel" "screen_y boot_cpu = screen_y boot_kernel"
  "prog_count boot_cpu = prog_count boot_kernel" "memoryspace boot_cpu = memoryspace boot_kernel"
  "pcbs boot_cpu = pcbs boot_kernel" "idt boot_cpu = idt boot_kernel"
  by (simp_all add: boot_cpu_def kernel.extend_def)

lemma boot_cpu_loaded: "loaded sample_layout prog_area prog_memory boot_cpu"
proof -
  have "kernel_image prog_area prog_memory boot_cpu = kernel_image prog_area prog_memory boot_kernel"
    "booted boot_cpu = booted boot_kernel" "cursor_ok boot_cpu = cursor_ok boot_kernel"
    by (simp_all add: kernel_image_def booted_def on_screen_def boot_cpu_fields)
  then show ?thesis using boot_loaded by (simp add: loaded_def boot_cpu_fields)
qed

lemma boot_area_below: "\<forall>a \<in> prog_area. a < 0x7FFFF4"
  by (auto simp: prog_area_def word_less_nat_alt)

end
