(* ===== verification/Entry_Frame.thy ===== *)
theory Entry_Frame
  imports Start
begin

text \<open>
  The registers of the interrupted program in the assembly wrappers: \<open>sys_call_handler\<close> of
  \<open>wrapper.S\<close>, which hands three of them to the C function of the call, and the wrappers of
  \<open>handlers.S\<close>, which save all of them around the C handler.
\<close>

subsection \<open>Registers and stack\<close>

datatype reg = EAX | EBX | ECX | EDX | ESI | EDI | EBP

text \<open>The kernel stack is the list of its words, the top first, together with its address.\<close>

record regs =
  general :: "reg \<Rightarrow> u32"
  segments :: "seg_reg \<Rightarrow> u16"
  stack :: "u32 list"
  sp :: u32

definition set_reg :: "reg \<Rightarrow> u32 \<Rightarrow> regs \<Rightarrow> regs" where
  "set_reg x w r = r\<lparr>general := (general r)(x := w)\<rparr>"

definition set_seg :: "seg_reg \<Rightarrow> u16 \<Rightarrow> regs \<Rightarrow> regs" where
  "set_seg x w r = r\<lparr>segments := (segments r)(x := w)\<rparr>"

definition push_word :: "u32 \<Rightarrow> regs \<Rightarrow> regs" where
  "push_word w r = r\<lparr>stack := w # stack r, sp := sp r - 4\<rparr>"

definition push_reg :: "reg \<Rightarrow> regs \<Rightarrow> regs" where
  "push_reg x r = push_word (general r x) r"

definition push_seg :: "seg_reg \<Rightarrow> regs \<Rightarrow> regs" where
  "push_seg x r = push_word (ucast (segments r x)) r"

definition drop_words :: "nat \<Rightarrow> regs \<Rightarrow> regs" where
  "drop_words n r = r\<lparr>stack := drop n (stack r), sp := sp r + of_nat (4 * n)\<rparr>"

definition pop_reg :: "reg \<Rightarrow> regs \<Rightarrow> regs" where
  "pop_reg x r = drop_words 1 (set_reg x (stack r ! 0) r)"

definition pop_seg :: "seg_reg \<Rightarrow> regs \<Rightarrow> regs" where
  "pop_seg x r = drop_words 1 (set_seg x (ucast (stack r ! 0)) r)"

definition pushal :: "regs \<Rightarrow> regs" where
  "pushal r = fold push_word (map (general r) [EAX, ECX, EDX, EBX] @ [sp r] @ map (general r) [EBP, ESI, EDI]) r"

definition popal :: "regs \<Rightarrow> regs" where
  "popal r = fold pop_reg [EBX, EDX, ECX, EAX] (drop_words 1 (fold pop_reg [EDI, ESI, EBP] r))"

subsection \<open>A call of a C function\<close>

text \<open>
  A C function may leave anything in \<open>ecx\<close> and \<open>edx\<close> and in the words of its arguments. It
  restores the other registers, and its result is in \<open>eax\<close>.
\<close>

record scratch =
  left_ecx :: u32
  left_edx :: u32
  left_arg1 :: u32
  left_arg2 :: u32
  left_arg3 :: u32

definition c_returns :: "scratch \<Rightarrow> u32 \<Rightarrow> regs \<Rightarrow> regs" where
  "c_returns v n r = set_reg EAX n (set_reg ECX (left_ecx v) (set_reg EDX (left_edx v) r))"

definition c_returns3 :: "scratch \<Rightarrow> u32 \<Rightarrow> regs \<Rightarrow> regs" where
  "c_returns3 v n r = c_returns v n (r\<lparr>stack := [left_arg1 v, left_arg2 v, left_arg3 v] @ drop 3 (stack r)\<rparr>)"

subsection \<open>System calls\<close>

definition enter_call :: "regs \<Rightarrow> regs" where
  "enter_call r =
     (let r = fold push_reg [EBX, ECX, EDX, ESI, EDI, EBP] r;
          r = fold push_seg [DS, GS, FS, ES] r;
          r = set_reg EDI 0x18 r;
          r = fold (\<lambda>x r. set_seg x (ucast (general r EDI)) r) [DS, GS, FS, ES] r;
          r = set_reg EAX (general r EAX - 1) r
      in fold push_reg [EDX, ECX, EBX] r)"

definition leave_call :: "regs \<Rightarrow> regs" where
  "leave_call r =
     (let r = drop_words 3 r;
          r = fold pop_seg [ES, FS, GS, DS] r
      in fold pop_reg [EBP, EDI, ESI, EDX, ECX, EBX] r)"

text \<open>
  The call returns to the program with its registers, or the processor goes on elsewhere: in a new
  program or, behind its own call of \<open>execute\<close>, in the parent.
\<close>

datatype wrapper_end = Iret regs | Leaves call_end

definition sys_call_wrapper :: "layout \<Rightarrow> frame \<Rightarrow> int \<Rightarrow> ('a kbd_scheme \<Rightarrow> 'a kbd_scheme res) list \<Rightarrow> scratch \<Rightarrow>
    regs \<Rightarrow> 'a kbd_scheme \<Rightarrow> (wrapper_end \<times> 'a kbd_scheme) res" where
  "sys_call_wrapper L f g irqs v r s =
     (if general r EAX = 0 \<or> general r EAX > 10 then Ok (Iret (set_reg EAX (-1) r), s)
      else
        let r = enter_call r in
        bindE (sys_call_table L f g irqs (unat (general r EAX)) (stack r ! 0) (stack r ! 1) (stack r ! 2) s) (\<lambda>(e, s).
        Ok (case e of Back n \<Rightarrow> Iret (leave_call (c_returns3 v (of_int n) r)) | _ \<Rightarrow> Leaves e, s)))"

text \<open>The registers that the call reads.\<close>

definition passed :: "regs \<Rightarrow> call_regs" where
  "passed r = \<lparr>reg_eax = general r EAX, reg_ebx = general r EBX, reg_ecx = general r ECX, reg_edx = general r EDX\<rparr>"

lemmas frame_defs = set_reg_def set_seg_def push_word_def push_reg_def push_seg_def drop_words_def
  pop_reg_def pop_seg_def c_returns_def c_returns3_def

lemma entered_call:
  shows "general (enter_call r) EAX = general r EAX - 1"
    and "take 3 (stack (enter_call r)) = [general r EBX, general r ECX, general r EDX]"
    and "segments (enter_call r) x = (if x = CS \<or> x = SS then segments r x else 0x18)"
  by (cases x; simp add: enter_call_def frame_defs Let_def)+

lemma seg_word: "ucast (ucast (x :: u16) :: u32) = x"
  by (rule bit_word_eqI) (auto simp: bit_simps)

text \<open>Whatever the C function leaves, only \<open>eax\<close> differs behind the call.\<close>

lemma call_returns: "leave_call (c_returns3 v n (enter_call r)) = set_reg EAX n r"
proof -
  have "general (leave_call (c_returns3 v n (enter_call r))) x = general (set_reg EAX n r) x" for x
    by (cases x) (simp_all add: leave_call_def enter_call_def frame_defs Let_def)
  moreover have "segments (leave_call (c_returns3 v n (enter_call r))) x = segments (set_reg EAX n r) x" for x
    by (cases x) (simp_all add: seg_word leave_call_def enter_call_def frame_defs Let_def)
  moreover have "stack (leave_call (c_returns3 v n (enter_call r))) = stack (set_reg EAX n r)"
    "sp (leave_call (c_returns3 v n (enter_call r))) = sp (set_reg EAX n r)"
    by (simp_all add: leave_call_def enter_call_def frame_defs Let_def)
  ultimately show ?thesis by (intro regs.equality) (simp_all add: fun_eq_iff)
qed

lemma wrapper_is_sys_call:
  "sys_call_wrapper L f g irqs v r s =
     bindE (sys_call L f g irqs (passed r) s) (\<lambda>(e, s').
     Ok (case e of Back n \<Rightarrow> Iret (set_reg EAX (of_int n) r) | _ \<Rightarrow> Leaves e, s'))"
proof -
  have "stack (enter_call r) ! 0 = general r EBX" "stack (enter_call r) ! 1 = general r ECX"
    "stack (enter_call r) ! 2 = general r EDX"
    by (simp_all add: enter_call_def frame_defs Let_def)
  then show ?thesis
    by (simp add: sys_call_wrapper_def sys_call_def passed_def Let_def entered_call(1) call_returns
        cong: call_end.case_cong)
qed

subsection \<open>Exceptions and devices\<close>

text \<open>All wrappers of \<open>handlers.S\<close> are this one around different handlers.\<close>

definition irq_wrapper :: "scratch \<Rightarrow> u32 \<Rightarrow> regs \<Rightarrow> regs" where
  "irq_wrapper v n r = popal (c_returns v n (pushal r))"

lemma irq_wrapper_keeps: "irq_wrapper v n r = r"
proof -
  have "general (irq_wrapper v n r) x = general r x" for x
    by (cases x) (simp_all add: irq_wrapper_def popal_def pushal_def frame_defs)
  moreover have "segments (irq_wrapper v n r) = segments r" "stack (irq_wrapper v n r) = stack r"
    "sp (irq_wrapper v n r) = sp r"
    by (simp_all add: irq_wrapper_def popal_def pushal_def frame_defs)
  ultimately show ?thesis by (intro regs.equality) (simp_all add: fun_eq_iff)
qed

end
