(* ===== verification/Own_Page.thy ===== *)
theory Own_Page
  imports Sys_Entry Program_Start
begin

text \<open>
  Where the kernel stores for a program: a call whose buffer begins in the page of the current process
  stores in that page only, however many bytes it is asked for. Behind the page nothing is mapped, so
  a call that runs past its end faults there. The handlers of the interrupts are not calls of a program.
\<close>

subsection \<open>Stores that stay in a set of physical addresses\<close>

definition stores_in :: "u32 set \<Rightarrow> 'a machine_scheme \<Rightarrow> 'a machine_scheme \<Rightarrow> bool" where
  "stores_in A s s' \<longleftrightarrow> (\<forall>a. a \<notin> A \<longrightarrow> mem s' a = mem s a) \<and> translate s' = translate s"

lemma stores_in_refl: "stores_in A s s"
  by (simp add: stores_in_def)

lemma stores_in_trans: "stores_in A s t \<Longrightarrow> stores_in A t u \<Longrightarrow> stores_in A s u"
  by (simp add: stores_in_def)

lemma stores_in_eq: "mem s' = mem s \<Longrightarrow> translate s' = translate s \<Longrightarrow> stores_in A s s'"
  by (simp add: stores_in_def)

text \<open>The bytes from \<open>b\<close> on are in \<open>A\<close>, up to the first one that is not mapped.\<close>

definition leads_into :: "u32 set \<Rightarrow> 'a machine_scheme \<Rightarrow> u32 \<Rightarrow> bool" where
  "leads_into A s b \<longleftrightarrow> (\<forall>i. (\<forall>j \<le> i. translate s (b + of_nat j) \<noteq> None) \<longrightarrow>
     translate s (b + of_nat i) \<in> Some ` A)"

definition mapped_to :: "nat \<Rightarrow> u32 \<Rightarrow> 'a machine_scheme \<Rightarrow> bool" where
  "mapped_to k b s \<longleftrightarrow> (\<forall>j < k. translate s (b + of_nat j) \<noteq> None)"

lemma mapped_to_0 [simp]: "mapped_to 0 b s"
  by (simp add: mapped_to_def)

lemma leads_into_cong: "translate s' = translate s \<Longrightarrow> leads_into A s' b = leads_into A s b"
  and mapped_to_cong: "translate s' = translate s \<Longrightarrow> mapped_to k b s' = mapped_to k b s"
  by (simp_all add: leads_into_def mapped_to_def)

text \<open>One more byte.\<close>

lemma st_stores:
  assumes "st (b + of_nat k) v s = Ok s'" and "leads_into A s b" and "mapped_to k b s"
  shows "stores_in A s s'" and "leads_into A s' b" and "mapped_to (Suc k) b s'"
proof -
  obtain x where x: "translate s (b + of_nat k) = Some x" and s': "s' = s\<lparr>mem := (mem s)(x := v)\<rparr>"
    using assms(1) by (auto simp: st_def split: option.splits)
  have all: "\<forall>j \<le> k. translate s (b + of_nat j) \<noteq> None"
    using assms(3) x by (auto simp: mapped_to_def le_less)
  then have "x \<in> A" using assms(2) x by (auto simp: leads_into_def)
  then show "stores_in A s s'" by (auto simp: stores_in_def s')
  show "leads_into A s' b" using assms(2) leads_into_cong [of s' s] by (simp add: s')
  show "mapped_to (Suc k) b s'" using all by (simp add: mapped_to_def s' less_Suc_eq_le)
qed

lemmas ptr_wr_stores = st_stores [folded ptr_wr_def]

lemma read_loop_stores:
  "read_loop img (ptr_wr b) bt dt ino mb fl left pos k s = Ok (n, s') \<Longrightarrow> leads_into A s b \<Longrightarrow>
   mapped_to k b s \<Longrightarrow> stores_in A s s'"
proof (induction left arbitrary: pos k s)
  case (Suc left)
  show ?case
  proof (cases "s' = s")
    case False
    then obtain v t where t: "ptr_wr b k v s = Ok t"
      "read_loop img (ptr_wr b) bt dt ino mb fl left (pos + 1) (Suc k) t = Ok (n, s')"
      using Suc.prems(1) by (auto simp: Let_def bindE_eq_Ok split: if_splits)
    note W = ptr_wr_stores [OF t(1) Suc.prems(2,3)]
    show ?thesis by (rule stores_in_trans [OF W(1) Suc.IH [OF t(2) W(2,3)]])
  qed (simp add: stores_in_refl)
qed (simp add: stores_in_refl)

lemma read_data_stores:
  assumes "read_data img (ptr_wr b) null bt dt ino off len s = Ok (n, s')" and "leads_into A s b"
  shows "stores_in A s s'"
  using assms read_loop_stores [OF _ assms(2)]
  by (auto simp: read_data_def Let_def bindE_eq_Ok stores_in_refl split: if_splits)

lemma loop_stores:
  assumes "for_loopE 0 n (\<lambda>i. ptr_wr b i (f i)) s = Ok s'" and "leads_into A s b"
  shows "stores_in A s s' \<and> leads_into A s' b \<and> mapped_to n b s'"
  using assms(1)
proof (induction n arbitrary: s')
  case (Suc n)
  then obtain t where t: "for_loopE 0 n (\<lambda>i. ptr_wr b i (f i)) s = Ok t" "ptr_wr b n (f n) t = Ok s'"
    by (auto simp: for_loopE_Suc bindE_eq_Ok)
  note T = Suc.IH [OF t(1)]
  note W = ptr_wr_stores [OF t(2), of A]
  show ?case using T W stores_in_trans by blast
qed (simp add: stores_in_refl assms(2))

lemma copy_out_stores: "copy_out b bs s = Ok s' \<Longrightarrow> leads_into A s b \<Longrightarrow> stores_in A s s'"
  unfolding copy_out_def by (drule (1) loop_stores) simp

lemma read_line_stores:
  "read_line t b left k s = Ok (n, s') \<Longrightarrow> leads_into A s b \<Longrightarrow> mapped_to k b s \<Longrightarrow> stores_in A s s'"
proof (induction left arbitrary: k s)
  case (Suc left)
  from Suc.prems(1) obtain c u where u: "ptr_wr b k c s = Ok u"
    "(if c = CH_NEWLINE then Ok (Suc k, u) else read_line t b left (Suc k) u) = Ok (n, s')"
    by (auto simp: bindE_eq_Ok)
  note W = ptr_wr_stores [OF u(1) Suc.prems(2,3)]
  show ?case
  proof (cases "c = CH_NEWLINE")
    case False
    then show ?thesis using u(2) Suc.IH [OF _ W(2,3)] stores_in_trans [OF W(1)] by simp
  qed (use u W in simp)
qed (simp add: stores_in_refl)

subsection \<open>The calls\<close>

lemma upd_fd_stores: "upd_fd fd f s = Ok s' \<Longrightarrow> stores_in A s s'"
  by (auto simp: upd_fd_def upd_pcb_def bindE_eq_Ok intro!: stores_in_eq ext simp: translate_def split: if_splits)

lemma fs_read_stores:
  assumes "fs_read fd b n s = Ok (r, s')" and "leads_into A s b"
  shows "stores_in A s s'"
proof (cases "s' = s")
  case False
  then obtain ino pos k u where u: "read_data (\<lambda>s a. ld a s) (ptr_wr b) (b = 0) (boot s) (data s) ino pos
      (word_of_int n) s = Ok (k, u)"
    and s': "s' = u \<or> upd_fd fd (\<lambda>e. e\<lparr>file_pos := file_pos e + word_of_int k\<rparr>) u = Ok s'"
    using assms(1) by (auto simp: fs_read_def Let_def bindE_eq_Ok split: if_splits)
  have "stores_in A s u" by (rule read_data_stores [OF u assms(2)])
  with s' show ?thesis using upd_fd_stores stores_in_trans by blast
qed (simp add: stores_in_refl)

lemma dir_read_stores:
  assumes "dir_read fd b n s = Ok (r, s')" and "leads_into A s b"
  shows "stores_in A s s'"
proof (cases "s' = s")
  case False
  then obtain bs u f where u: "copy_out b bs s = Ok u" "upd_fd fd f u = Ok s'"
    using assms(1)
    by (auto simp: dir_read_def Let_def bindE_eq_Ok split: if_splits option.splits)
  show ?thesis by (rule stores_in_trans [OF copy_out_stores [OF u(1) assms(2)] upd_fd_stores [OF u(2)]])
qed (simp add: stores_in_refl)

lemma getargs_stores:
  "getargs b n s = Ok (r, s') \<Longrightarrow> leads_into A s b \<Longrightarrow> stores_in A s s'"
  by (auto simp: getargs_def Let_def bindE_eq_Ok stores_in_refl split: if_splits dest: copy_out_stores)

lemma vidmap_stores_in:
  assumes "vidmap b s = Ok (r, s')" and "leads_into A s b"
  shows "stores_in A s s'"
proof (cases "s' = s")
  case False
  then obtain v0 v1 v2 v3 s1 s2 s3 where w: "st (b + of_nat 0) v0 s = Ok s1"
    "st (b + of_nat (Suc 0)) v1 s1 = Ok s2" "st (b + of_nat (Suc (Suc 0))) v2 s2 = Ok s3"
    "st (b + of_nat (Suc (Suc (Suc 0)))) v3 s3 = Ok s'"
    using assms(1) by (auto simp: vidmap_def st_word_def bindE_eq_Ok add.commute split: if_splits)
  note W1 = st_stores [OF w(1) assms(2) mapped_to_0]
  note W2 = st_stores [OF w(2) W1(2,3)]
  note W3 = st_stores [OF w(3) W2(2,3)]
  note W4 = st_stores [OF w(4) W3(2,3)]
  show ?thesis using W1(1) W2(1) W3(1) W4(1) stores_in_trans by blast
qed (simp add: stores_in_refl)

lemma steady_translate: "steady s s' \<Longrightarrow> translate s' = translate s"
  by (rule ext) (simp add: translate_def steady_def same_spaces_def)

text \<open>The variables of the keyboard are not in the memory of the model.\<close>

lemma mem_flags:
  "mem (set_flag t i v s) = mem s" "mem (set_enter t v s) = mem s" "mem (set_read t v s) = mem s"
  "mem (set_bufferindex t v s) = mem s" "mem (set_writeindex t v s) = mem s"
  by (simp_all add: set_flag_def set_enter_def set_read_def set_bufferindex_def set_writeindex_def)

lemma mem_clear_buffer: "mem (clear_keyboard_buffer u s) = mem s"
  unfolding clear_keyboard_buffer_def Let_def mem_flags
  by (rule for_loop_preserves [where P = "\<lambda>t. mem t = mem s"]) (simp_all add: mem_flags)

lemma kview_stores: "kview s' = kview s \<Longrightarrow> mem s' = mem s \<Longrightarrow> stores_in A s s'"
  using steady_translate [OF kview_steady] by (intro stores_in_eq)

lemma line_wait_stores: "stores_in A s (line_wait s)"
  by (rule kview_stores [OF line_wait_procs]) (simp add: line_wait_def Let_def mem_flags sti_def)

lemma line_read_stores:
  assumes "line_read t b n s = Ok (r, s')" and "leads_into A s b"
  shows "stores_in A s s'"
proof -
  obtain v k w where v: "for_loopE 0 (nat n) (\<lambda>i. ptr_wr b i 0) s = Ok v" "read_line t b (nat n) 0 v = Ok (k, w)"
    and s': "s' = set_read t OFF (clear_keyboard_buffer (current_terminal w) w)"
    using assms(1) by (auto simp: line_read_def Let_def bindE_eq_Ok)
  note L = loop_stores [OF v(1) assms(2)]
  then have "stores_in A v w" using read_line_stores [OF v(2)] by simp
  moreover have "stores_in A w s'"
    by (rule kview_stores) (simp_all add: s' mem_flags mem_clear_buffer)
  ultimately show ?thesis using L stores_in_trans by blast
qed

text \<open>A read that does not wait.\<close>

lemma terminal_read_stores:
  assumes "terminal_read [] b n s = Ok (r, s')" and "leads_into A s b"
  shows "stores_in A s s'"
proof (cases "b = 0 \<or> n < 0")
  case True
  then show ?thesis using assms(1) stores_in_refl by (auto simp: terminal_read_parts)
next
  case False
  then have "line_read (current_terminal s) b n (line_wait s) = Ok (r, s')"
    using assms(1) by (auto simp: terminal_read_parts split: if_splits)
  moreover have "leads_into A (line_wait s) b"
    using assms(2) leads_into_cong [of "line_wait s" s] line_wait_stores [of A s] by (simp add: stores_in_def)
  ultimately show ?thesis using line_read_stores line_wait_stores stores_in_trans by blast
qed

lemma tick_stores: "stores_in A s (sti s)" "stores_in A s (s\<lparr>int_flag := x\<rparr>)"
  by (auto simp: stores_in_def sti_def translate_def fun_eq_iff)

lemma rtc_read_stores: "rtc_read [] s = Ok (r, s') \<Longrightarrow> stores_in A s s'"
  using stores_in_trans [OF tick_stores(1) tick_stores(2)]
  by (auto simp: rtc_read_def Let_def split: if_splits)

lemma sys_read_stores:
  assumes "sys_read [] fd b n s = Ok (r, s')" and "leads_into A s b"
  shows "stores_in A s s'"
proof (cases "s' = s")
  case False
  then obtain table where "call_read [] table fd b n s = Ok (r, s')"
    using assms(1) by (auto simp: sys_read_def bindE_eq_Ok split: if_splits)
  then show ?thesis
    using terminal_read_stores [OF _ assms(2)] rtc_read_stores fs_read_stores [OF _ assms(2)]
      dir_read_stores [OF _ assms(2)]
    by (cases table) (auto simp: call_read_def)
qed (simp add: stores_in_refl)

subsection \<open>The page of the current process\<close>

definition own_page :: "nat \<Rightarrow> u32 set" where
  "own_page p = {a. \<exists>x < 0x00400000. a = user_page p + x}"

lemma own_pages_disjoint: "p < 6 \<Longrightarrow> q < 6 \<Longrightarrow> p \<noteq> q \<Longrightarrow> own_page p \<inter> own_page q = {}"
  using user_pages_disjoint by (auto simp: own_page_def)

lemma page_end:
  assumes "0x08000000 \<le> b" and "b < (0x08400000 :: u32)" and "\<not> unat b + i < 0x08400000"
  shows "\<exists>j \<le> i. b + of_nat j = 0x08400000"
proof (intro exI conjI)
  show "0x08400000 - unat b \<le> i" using assms(3) by simp
  have "unat b < 0x08400000" using assms(2) by (simp add: word_less_nat_alt)
  then have "b + of_nat (0x08400000 - unat b) = of_nat (unat b + (0x08400000 - unat b))" by simp
  also have "unat b + (0x08400000 - unat b) = 0x08400000" using \<open>unat b < 0x08400000\<close> by simp
  finally show "b + of_nat (0x08400000 - unat b) = 0x08400000" by simp
qed

lemma space_after_page:
  assumes "layout_ok L" and "p < 6" and "has_space L T p" and "0x08400000 \<le> b" and "b < (0x08800000 :: u32)"
  shows "walk T True (prog_pd L (Suc p)) b = None"
proof (rule walk_absent)
  have "prog_pd L (Suc p) AND ADDR_MASK = prog_pd L (Suc p)"
    using layout_okD(2) [OF assms(1), of "Suc p"] assms(2) by (simp add: page_aligned_def)
  moreover have "unat (drop_bit 22 b) = 33"
    using assms(4,5) by (simp add: word_le_nat_alt word_less_nat_alt unat_drop_bit_eq drop_bit_eq_div unat_div)
  ultimately show "T (prog_pd L (Suc p) AND ADDR_MASK) (unat (drop_bit 22 b)) = 0"
    using assms(3) by (simp add: has_space_def space_def)
qed

lemma space_leads:
  assumes "layout_ok L" and "p < 6" and "has_space L (tabs s) p" and "paging_on s"
    and "cr3 s = prog_pd L (Suc p)" and "0x08000000 \<le> b" and "b < 0x08400000"
  shows "leads_into (own_page p) s b"
  unfolding leads_into_def
proof (intro allI impI)
  fix i
  assume all: "\<forall>j \<le> i. translate s (b + of_nat j) \<noteq> None"
  have tr: "translate s a = walk (tabs s) True (prog_pd L (Suc p)) a" for a
    using assms(4,5) by (simp add: translate_def paging_on_def)
  have "translate s 0x08400000 = None"
    unfolding tr by (rule space_after_page [OF assms(1-3)]) simp_all
  then have in_page: "unat b + i < 0x08400000"
    using page_end [OF assms(6,7), of i] all by metis
  then have u: "unat (b + of_nat i) = unat b + i"
    by (simp add: unat_word_ariths unat_of_nat)
  then have r: "0x08000000 \<le> b + of_nat i" "b + of_nat i < 0x08400000"
    using assms(6) in_page by (simp_all add: word_le_nat_alt word_less_nat_alt)
  then have "user_walk (tabs s) (prog_pd L (Suc p)) (b + of_nat i) =
      Some (user_page p + (b + of_nat i - 0x08000000))"
    using has_space_reach [OF assms(1-3), of "b + of_nat i"] by simp
  then have "translate s (b + of_nat i) = Some (user_page p + (b + of_nat i - 0x08000000))"
    unfolding tr by (rule user_walk_walk)
  moreover have "b + of_nat i - 0x08000000 < 0x00400000"
    using r by (simp add: word_less_nat_alt word_le_nat_alt unat_sub)
  ultimately show "translate s (b + of_nat i) \<in> Some ` own_page p"
    by (auto simp: own_page_def)
qed

text \<open>From an address behind the page no byte can be reached.\<close>

lemma page_leads:
  assumes "process_table s S" and "isolated L s S" and "layout_ok L" and "S (current_terminal s) = p # ps"
    and "0x08000000 \<le> b" and "b < 0x08800000"
  shows "leads_into (own_page p) s b"
proof -
  note C = current_process [OF assms(1,4)]
  have on: "paging_on s" using assms(2) by (simp add: isolated_def)
  note own = isolated_live(1) [OF assms(1,2) C(3)] isolated_current [OF assms(2,4)]
  show ?thesis
  proof (cases "b < 0x08400000")
    case True
    then show ?thesis using own on assms(5) by (intro space_leads [OF assms(3) C(2)])
  next
    case False
    then have "translate s b = None"
      using space_after_page [OF assms(3) C(2) own(1), of b] assms(6) on own(2)
      by (simp add: translate_def paging_on_def)
    then have "translate s (b + of_nat 0) = None" by simp
    then show ?thesis unfolding leads_into_def by blast
  qed
qed

subsection \<open>Calls that store nothing, and output\<close>

lemma upd_pcb_mem: "upd_pcb a f s = Ok s' \<Longrightarrow> mem s' = mem s"
  by (auto simp: upd_pcb_def split: if_splits)

lemma upd_fd_mem: "upd_fd i f s = Ok s' \<Longrightarrow> mem s' = mem s"
  unfolding upd_fd_def by (auto simp: bindE_eq_Ok dest: upd_pcb_mem)

lemma rtc_open_mem: "mem (snd (rtc_open s)) = mem s"
  by (subst rtc_open_log) simp

lemma open_entry_mem: "open_entry i d s = Ok (Some s') \<Longrightarrow> mem s' = mem s"
  by (auto simp: open_entry_def bindE_eq_Ok rtc_open_mem split: if_splits dest!: upd_fd_mem)

lemma sys_open_mem: "sys_open g filename s = Ok (r, s') \<Longrightarrow> mem s' = mem s"
  by (auto simp: sys_open_def bindE_eq_Ok split: if_splits option.splits dest!: upd_fd_mem open_entry_mem)

lemma sys_close_mem: "sys_close fd s = Ok (r, s') \<Longrightarrow> mem s' = mem s"
  unfolding sys_close_def by (auto simp: bindE_eq_Ok split: if_splits dest: upd_fd_mem)

lemma halt_mem:
  assumes "process_table s S" and "S (current_terminal s) = p # ps"
    and "halt c s = Ok s1" and "halt_ret s1 = Ok (r, s')"
  shows "mem s' = mem s"
proof -
  have "mem s1 = mem s" using assms(3) halt_process [OF assms(1,2), of c] by auto
  moreover have "mem s' = mem s1"
    using halt_ret_state [OF assms(4)] by auto
  ultimately show ?thesis by simp
qed

text \<open>Output goes to the screen while the cursor is on it.\<close>

lemma terminal_write_screen:
  assumes "terminal_write b n s = Ok (r, s')" and "cursor_ok s"
  shows "same_outside screen_region s s'"
proof (cases "s' = s")
  case False
  let ?P = "\<lambda>u. cursor_ok u \<and> same_outside screen_region s u"
  obtain u where u: "for_loopE 0 (nat n) (\<lambda>i s. wb_put (current_terminal s) (int i) 0 s) s = Ok u"
    "for_loopE 0 (nat n) (write_char b) (set_writeindex (current_terminal u) 0 u) = Ok s'"
    using assms(1) False by (auto simp: terminal_write_def Let_def bindE_eq_Ok split: if_splits)
  have keep: "?P v" if "?P t" "screen_x v = screen_x t" "screen_y v = screen_y t" "mem v = mem t"
    "current_terminal v = current_terminal t" for t v :: "'a kbd_scheme"
    using that by (simp add: on_screen_def same_outside_def)
  have wb: "?P v" if "?P t" "wb_put k i c t = Ok v" for t v k i c
    by (rule keep [OF that(1)]) (use that(2) in \<open>auto simp: wb_put_def split: if_splits\<close>)
  have wi: "?P (set_writeindex k x t)" if "?P t" for t k x
    by (rule keep [OF that]) (simp_all add: set_writeindex_def)
  have put: "?P (term_putc c t)" if "?P t" for t c
    using that term_out.put_inv [of t c] term_out.put_frame [of t c] by (auto simp: same_outside_def)
  have "?P s" using assms(2) by (simp add: same_outside_def)
  with u(1) have "?P u" by (rule for_loopE_inv) (rule wb)
  then have "?P (set_writeindex (current_terminal u) 0 u)" by (rule wi)
  with u(2) have "?P s'"
  proof (rule for_loopE_inv)
    fix i and t v :: "'a kbd_scheme"
    assume t: "?P t" "write_char b i t = Ok v"
    then obtain c w where w: "wb_put (current_terminal t) (int i) c t = Ok w"
      "v = set_writeindex (current_terminal t) (writeindex w (current_terminal t) + 1) w \<or>
       (\<exists>d. v = term_putc d (set_writeindex (current_terminal t) (writeindex w (current_terminal t) + 1) w))"
      by (auto simp: write_char_def Let_def bindE_eq_Ok split: if_splits)
    have "?P w" by (rule wb [OF t(1) w(1)])
    then have "?P (set_writeindex (current_terminal t) (writeindex w (current_terminal t) + 1) w)" by (rule wi)
    with w(2) put show "?P v" by blast
  qed
  then show ?thesis by simp
qed (simp add: same_outside_def)

lemma printk_screen: "cursor_ok s \<Longrightarrow> same_outside screen_region s (snd (printk str s))"
  using term_out.string_frame [of s str] by (simp add: printk_def)

lemma rtc_write_screen:
  assumes "rtc_write b s = Ok (r, s')" and "cursor_ok s"
  shows "same_outside screen_region s s'"
  using assms printk_screen [OF assms(2)]
  by (auto simp: rtc_write_def Let_def split_beta bindE_eq_Ok frame_simps same_outside_def split: if_splits)

lemma sys_write_screen:
  assumes "sys_write fd b n s = Ok (r, s')" and "cursor_ok s"
  shows "same_outside screen_region s s'"
proof (cases "s' = s")
  case False
  then obtain table where "call_write table b n s = Ok (r, s')"
    using assms(1) by (auto simp: sys_write_def bindE_eq_Ok split: if_splits)
  then show ?thesis
    using False terminal_write_screen [OF _ assms(2)] rtc_write_screen [OF _ assms(2)]
    by (cases table) (auto simp: call_write_def)
qed (simp add: same_outside_def)

subsection \<open>A new program\<close>

lemma new_process_mem: "new_process g s = Ok s' \<Longrightarrow> mem s' = mem s"
  by (auto simp: new_process_def setup_pcb_def Let_def bindE_eq_Ok split: option.splits dest!: upd_pcb_mem)

lemma save_args_mem: "save_args command nl i s = Ok s' \<Longrightarrow> mem s' = mem s"
proof (induction command nl i s arbitrary: s' rule: save_args.induct)
  case (1 command nl i s)
  show ?case
  proof (cases "\<exists>c. i < BUFFASIZE \<and> command i = Ok c \<and> c \<noteq> 0")
    case True
    then obtain c t where c: "command i = Ok c" "c \<noteq> 0" "i < BUFFASIZE"
      and t: "upd_pcb (cur_loc s) (\<lambda>p. p\<lparr>args := (args p)[i - nl - 1 := c]\<rparr>) s = Ok t"
        "save_args command nl (Suc i) t = Ok s'"
      using 1(2) by (subst (asm) save_args.simps) (auto simp: bindE_eq_Ok)
    have "mem t = mem s" using t(1) by (auto simp: upd_pcb_def split: if_splits)
    then show ?thesis using 1(1) [OF c(3,2) t(2)] by simp
  next
    case False
    then have "s' = s" using 1(2) by (subst (asm) save_args.simps) (auto simp: bindE_eq_Ok split: if_splits)
    then show ?thesis by simp
  qed
qed

text \<open>The program is stored in the page of the new process.\<close>

lemma load_leads:
  assumes "layout_ok L" and "tables_clear L (tabs s)" and "paging_on s" and "p < 6"
  shows "leads_into (own_page p) (progs_init L (of_nat p) s) PROGADDR"
proof -
  let ?s = "progs_init L (of_nat p) s"
  note S = progs_init_space [OF assms(1,2,4)]
  have "has_space L (tabs ?s) p" using S(1,2) by (simp add: has_space_def)
  moreover have "paging_on ?s" using assms(3) S(4,5) by (simp add: paging_on_def)
  ultimately show ?thesis by (rule space_leads [OF assms(1,4) _ _ S(3)]) simp_all
qed

lemma execute_stores:
  assumes "process_table s S" and "isolated L s S" and "layout_ok L" and "frame_ok f"
    and "execute L f command s = Ok (Enters e, s')"
  obtains p where "p < MAX_PROCESSES" and "p \<notin> set (live S)" and "same_outside (own_page p) s s'"
proof -
  obtain p d nl s1 s2 s3 where p: "p < MAX_PROCESSES" "p \<notin> set (live S)"
    and run: "save_args (\<lambda>i. ptr_rd command i s1) nl (nl + 1) s1 = Ok s2"
      "load_program L (dentry_inode d) s2 = Ok s3" "enter_program s3 = Ok s'"
    and new: "new_process (frame_pcb f) s = Ok s1"
    and s1: "pcbs s1 (slot_loc p) = fresh_pcb (frame_pcb f) p
      (if S (current_terminal s) = [] then slot_loc p else pcb_loc s (current_terminal s)) s"
      "tabs s1 = tabs s" "cr0 s1 = cr0 s" "cr4 s1 = cr4 s"
    and same: "same_return s1 s3" "same_spaces s1 s2" and loc: "cur_loc s2 = slot_loc p" "cur_loc s3 = slot_loc p"
    by (rule execute_stages [OF assms(1,4,5)]) blast
  have nz: "slot_loc p \<noteq> 0" by (rule slot_loc_nonzero [OF p(1)])
  have "pcbs s3 = pcbs s2" using load_program_more [OF run(2)] by (rule more_pcbs)
  moreover have "pid (pcbs s3 (slot_loc p)) = pid (pcbs s1 (slot_loc p))"
    using same(1) by (simp add: same_return_def same_table_def)
  ultimately have pid: "pid (pcbs s2 (slot_loc p)) = of_nat p" by (simp add: s1(1) fresh_pcb_def)
  have m1: "mem s1 = mem s" using new_process_mem [OF new] .
  have m2: "mem s2 = mem s1" by (rule save_args_mem [OF run(1)])
  have clear: "tables_clear L (tabs s2)" "paging_on s2"
    using assms(2) same(2) s1(2-4) by (simp_all add: isolated_def same_spaces_def paging_on_def)
  define u where "u = progs_init L (of_nat p) s2"
  have mu: "mem u = mem s2" using progs_init_space(6) [OF assms(3) clear(1) p(1)] by (simp add: u_def)
  have "stores_in (own_page p) u s3"
    using run(2) nz loc(1) pid read_data_stores [OF _ load_leads [OF assms(3) clear p(1)]]
    by (auto simp: load_program_def cur_pcb_def get_pcb_def Let_def bindE_eq_Ok u_def)
  moreover have "mem s' = mem s3" using enter_program_eq [of s3] loc(2) nz run(3) by simp
  ultimately have "same_outside (own_page p) s s'"
    using m1 m2 mu by (simp add: stores_in_def same_outside_def)
  with that p show thesis by blast
qed

lemma execute_outside:
  assumes "process_table s S" and "isolated L s S" and "layout_ok L" and "p < MAX_PROCESSES"
    and "frame_ok f" and "cursor_ok s" and "execute L f command s = Ok (r, s')"
  shows "\<exists>q < MAX_PROCESSES. (q = p \<or> q \<notin> set (live S)) \<and> same_outside (own_page q \<union> screen_region) s s'"
proof (cases r)
  case (Enters e)
  then obtain q where "q < MAX_PROCESSES" "q \<notin> set (live S)" "same_outside (own_page q) s s'"
    using execute_stores [OF assms(1-3,5)] assms(7) by metis
  then show ?thesis by (auto simp: same_outside_def)
next
  case (Returns n)
  have "s' = s \<or> (\<exists>str. s' = snd (printk str s))"
    using assms(7) Returns
    by (auto simp: execute_def bindE_eq_Ok split: if_splits option.splits prod.splits)
  then have "same_outside screen_region s s'"
    using printk_screen [OF assms(6)] by (auto simp: same_outside_def)
  then show ?thesis using assms(4) by (auto simp: same_outside_def)
qed

text \<open>The pages of the processes are not on the screen.\<close>

lemma page_off_screen:
  assumes "p < 6" and "x < 0x00400000"
  shows "user_page p + x \<notin> screen_region"
proof -
  have "p = 0 \<or> p = 1 \<or> p = 2 \<or> p = 3 \<or> p = 4 \<or> p = 5" using assms(1) by auto
  then have "0x00800000 \<le> user_page p + x"
    using assms(2) by (auto simp: user_page_def word_le_nat_alt word_less_nat_alt unat_word_ariths)
  then show ?thesis
    by (simp add: screen_region_def word_le_nat_alt unat_sub)
qed

subsection \<open>Every system call\<close>

lemma outside_mono: "same_outside A s s' \<Longrightarrow> A \<subseteq> B \<Longrightarrow> same_outside B s s'"
  by (auto simp: same_outside_def)

lemma mem_outside: "mem s' = mem s \<Longrightarrow> same_outside A s s'"
  by (simp add: same_outside_def)

lemma stores_outside: "stores_in A s s' \<Longrightarrow> same_outside A s s'"
  by (simp add: stores_in_def same_outside_def)

fun is_execute :: "event \<Rightarrow> bool" where
  "is_execute (Execute f command) = True"
| "is_execute e = False"

fun is_irq :: "event \<Rightarrow> bool" where
  "is_irq (Irq i) = True"
| "is_irq e = False"

text \<open>The calls that may print: \<open>execute\<close> does when it refuses a command.\<close>

fun prints :: "event \<Rightarrow> bool" where
  "prints (Execute f command) = True"
| "prints (Write fd buf n) = True"
| "prints e = False"

lemma vidmap_page_stores:
  assumes "process_table s S" and "isolated L s S" and "layout_ok L" and "S (current_terminal s) = p # ps"
    and "vidmap b s = Ok (r, s')"
  shows "stores_in (own_page p) s s'"
proof (cases "b = 0 \<or> b < PROGADDR \<or> b > PROGADDR + MB4")
  case True
  then show ?thesis using assms(5) stores_in_refl by (auto simp: vidmap_def split: if_splits)
next
  case False
  then have "0x08000000 \<le> b" "b < 0x08800000" by (simp_all add: word_le_nat_alt word_less_nat_alt)
  then show ?thesis using page_leads [OF assms(1-4)] by (intro vidmap_stores_in [OF assms(5)])
qed

text \<open>
  What a call leaves alone: everything but the page of the caller, or of the process it starts, and the
  screen.
\<close>

lemma call_own:
  assumes "process_table s S" and "isolated L s S" and "layout_ok L" and "S (current_terminal s) = p # ps"
    and "kernel_step L e s s'" and "own_buffer e" and "prints e \<Longrightarrow> cursor_ok s"
    and "\<not> is_irq e" and "\<not> is_execute e"
  shows "same_outside (own_page p \<union> screen_region) s s'"
proof -
  have mem: ?thesis if "mem s' = mem s" by (rule mem_outside [OF that])
  have screen: ?thesis if "same_outside screen_region s s'" using that outside_mono by blast
  have stores: ?thesis if "stores_in (own_page p) s s'"
    using stores_outside [OF that] outside_mono by blast
  have leads: "leads_into (own_page p) s b" if "in_page b" for b
  proof -
    have "0x08000000 \<le> b" "b < 0x08800000"
      using that by (simp_all add: in_page_def word_le_nat_alt word_less_nat_alt)
    then show ?thesis by (rule page_leads [OF assms(1-4)])
  qed
  show ?thesis
    using assms(5)
  proof (cases rule: kernel_step.cases)
    case (step_halt c s1 r)
    then show ?thesis by (intro mem halt_mem [OF assms(1,4)])
  next
    case (step_open g filename r)
    then show ?thesis by (intro mem sys_open_mem)
  next
    case (step_close fd r)
    then show ?thesis by (intro mem sys_close_mem)
  next
    case (step_read fd buf n r)
    then show ?thesis using assms(6) leads by (intro stores sys_read_stores [OF step_read(3)]) simp
  next
    case step_line_wait
    then show ?thesis using line_wait_stores by (intro stores) simp
  next
    case (step_line_read buf n r)
    then show ?thesis using assms(6) leads by (intro stores line_read_stores [OF step_line_read(4)]) simp
  next
    case step_tick_wait
    then show ?thesis using tick_stores by (intro stores) simp
  next
    case step_tick_read
    then show ?thesis using tick_stores by (intro stores) simp
  next
    case (step_write fd buf n r)
    then show ?thesis using assms(7) by (intro screen sys_write_screen [OF step_write(3)]) simp
  next
    case (step_getargs buf n r)
    then show ?thesis using assms(6) leads by (intro stores getargs_stores [OF step_getargs(3)]) simp
  next
    case (step_vidmap buf r)
    then show ?thesis by (intro stores vidmap_page_stores [OF assms(1-4)])
  qed (use assms(8,9) in simp_all)
qed

lemma call_outside:
  assumes "process_table s S" and "isolated L s S" and "layout_ok L" and "S (current_terminal s) = p # ps"
    and "kernel_step L e s s'" and "own_buffer e" and "prints e \<Longrightarrow> cursor_ok s" and "\<not> is_irq e"
  shows "\<exists>q < MAX_PROCESSES. (q = p \<or> is_execute e \<and> q \<notin> set (live S)) \<and>
    same_outside (own_page q \<union> screen_region) s s'"
proof (cases "is_execute e")
  case True
  note C = current_process [OF assms(1,4)]
  obtain f command k where run: "frame_ok f" "execute L f command s = Ok (k, s')"
    using assms(5) True by (auto elim: kernel_step.cases)
  have "cursor_ok s" using assms(7) True by (cases e) simp_all
  from execute_outside [OF assms(1-3) C(2) run(1) this run(2)] True show ?thesis by blast
next
  case False
  then show ?thesis
    using call_own [OF assms(1-8) False] current_process(2) [OF assms(1,4)] by blast
qed

text \<open>In every state that the kernel reaches.\<close>

lemma run_call_outside:
  assumes "kernel_run L es s0 s" and "process_table s0 (\<lambda>_. [])" and "layout_ok L"
    and "tables_clear L (tabs s0)" and "paging_on s0" and "kernel_step L e s s'"
    and "own_buffer e" and "prints e \<Longrightarrow> cursor_ok s" and "\<not> is_irq e" and "running s"
    and "p < MAX_PROCESSES" and "cur_loc s = slot_loc p"
  shows "\<exists>q < MAX_PROCESSES. (q = p \<or> is_execute e \<and> memoryspace s q = 0) \<and>
    same_outside (own_page q \<union> screen_region) s s'"
proof -
  obtain S where S: "process_table s S" "isolated L s S"
    using kernel_run_isolated [OF assms(1-5)] .
  obtain r rs where r: "S (current_terminal s) = r # rs" using running_process [OF S(1) assms(10)] .
  note C = current_process [OF S(1) r]
  have "r = p" using slot_loc_inject [OF C(2) assms(11)] C(1) assms(12) by simp
  then obtain q where q: "q < MAX_PROCESSES" "q = p \<or> is_execute e \<and> q \<notin> set (live S)"
    "same_outside (own_page q \<union> screen_region) s s'"
    using call_outside [OF S assms(3) r assms(6-9)] by blast
  moreover have "q \<notin> set (live S) \<Longrightarrow> memoryspace s q = 0"
    using process_tableD(5) [OF S(1) q(1)] by (simp split: if_splits)
  ultimately show ?thesis by blast
qed

end
