(* ===== verification/Sched.thy ===== *)
theory Sched
  imports Pit Syscall
begin

text \<open>
  The round-robin scheduler (\<open>sched.c\<close>): two singly linked queues of nodes, the run queue and
  the queue of the processes that have had their turn. The nodes are on a heap of their own, indexed
  by address, with 0 as the null pointer; the locale \<open>link_store\<close> is its interface.
\<close>

subsection \<open>Lists on a heap\<close>

text \<open>\<open>path n p xs\<close>: following \<open>n\<close> from \<open>p\<close> visits \<open>xs\<close> and ends at null.\<close>

primrec path :: "(u32 \<Rightarrow> u32) \<Rightarrow> u32 \<Rightarrow> u32 list \<Rightarrow> bool" where
  "path n p [] \<longleftrightarrow> p = 0"
| "path n p (x # xs) \<longleftrightarrow> p = x \<and> x \<noteq> 0 \<and> path n (n x) xs"

lemma path_null [simp]: "path n 0 xs \<longleftrightarrow> xs = []"
  by (cases xs) auto

lemma path_unique: "path n p xs \<Longrightarrow> path n p ys \<Longrightarrow> xs = ys"
proof (induction xs arbitrary: p ys)
  case (Cons x xs)
  then show ?case by (cases ys) auto
qed simp

lemma path_cong: "(\<And>a. a \<in> set xs \<Longrightarrow> n a = m a) \<Longrightarrow> path n p xs = path m p xs"
  by (induction xs arbitrary: p) auto

lemma path_suffix: "path n p (xs @ ys) \<Longrightarrow> \<exists>q. path n q ys \<and> (ys \<noteq> [] \<longrightarrow> q = hd ys)"
proof (induction xs arbitrary: p)
  case Nil
  then show ?case by (cases ys) auto
qed auto

lemma path_distinct: "path n p xs \<Longrightarrow> distinct xs"
proof (induction xs arbitrary: p)
  case (Cons x xs)
  have "x \<notin> set xs"
  proof
    assume "x \<in> set xs"
    then obtain ys zs where xs: "xs = ys @ x # zs" using split_list by metis
    then have "path n x (x # zs)" using Cons.prems path_suffix [of n "n x" ys "x # zs"] by auto
    moreover have "path n x (x # xs)" using Cons.prems by simp
    ultimately have "x # zs = x # xs" by (rule path_unique)
    with xs show False by simp
  qed
  with Cons show ?case by auto
qed simp

lemma path_nonzero: "path n p xs \<Longrightarrow> 0 \<notin> set xs"
  by (induction xs arbitrary: p) auto

lemma path_next: "path n p xs \<Longrightarrow> x \<in> set xs \<Longrightarrow> n x \<in> set xs \<or> n x = 0 \<and> x = last xs"
proof (induction xs arbitrary: p)
  case (Cons y ys)
  then show ?case by (cases ys) auto
qed simp

subsection \<open>A store of links\<close>

locale link_store =
  fixes follow :: "'s \<Rightarrow> u32 \<Rightarrow> u32" and link :: "u32 \<Rightarrow> u32 \<Rightarrow> 's \<Rightarrow> 's"
  assumes follow_link: "follow (link a b s) x = (if x = a then b else follow s x)"
begin

lemma path_link_other: "a \<notin> set xs \<Longrightarrow> path (follow (link a b s)) p xs = path (follow s) p xs"
  by (rule path_cong) (auto simp: follow_link)

lemma path_link_end:
  "path (follow s) p (xs @ [z]) \<Longrightarrow> a \<noteq> 0 \<Longrightarrow> a \<notin> set (xs @ [z]) \<Longrightarrow> follow s a = 0 \<Longrightarrow>
   path (follow (link z a s)) p (xs @ [z, a])"
proof (induction xs arbitrary: p)
  case (Cons x xs)
  then have "x \<noteq> z" using path_distinct [of "follow s" p "(x # xs) @ [z]"] by auto
  with Cons show ?case by (auto simp: follow_link)
qed (auto simp: follow_link)

text \<open>Cutting off the first node.\<close>

lemma path_cut:
  assumes "path (follow s) p (p # xs)"
  shows "path (follow (link p 0 s)) (follow s p) xs" and "path (follow (link p 0 s)) p [p]"
  using assms path_distinct [OF assms] by (auto simp: path_link_other follow_link)

end

subsection \<open>State\<close>

text \<open>\<open>process_t\<close>: \<open>curr\<close> points to a PCB, \<open>next\<close> to a node.\<close>

record process =
  curr :: u32
  finished :: int
  next_ptr :: u32

record sched = kbd +
  run_queue :: u32
  expired_queue :: u32
  sched_esp :: u32
  nodes :: "u32 \<Rightarrow> process"

definition get_node :: "u32 \<Rightarrow> 'a sched_scheme \<Rightarrow> process res" where
  "get_node a s = (if a = 0 then Err PageFault else Ok (nodes s a))"

definition upd_node :: "u32 \<Rightarrow> (process \<Rightarrow> process) \<Rightarrow> 'a sched_scheme \<Rightarrow> 'a sched_scheme res" where
  "upd_node a f s = (if a = 0 then Err PageFault else Ok (s\<lparr>nodes := (nodes s)(a := f (nodes s a))\<rparr>))"

subsection \<open>Operations\<close>

text \<open>
  \<open>while (temp->next != NULL) temp = temp->next\<close>: \<open>None\<close> when the loop does not end.
\<close>

partial_function (option) last_node :: "(u32 \<Rightarrow> u32) \<Rightarrow> u32 \<Rightarrow> u32 option" where
  "last_node n temp = (if n temp \<noteq> 0 then last_node n (n temp) else Some temp)"

definition append_node :: "u32 \<Rightarrow> u32 \<Rightarrow> 'a sched_scheme \<Rightarrow> 'a sched_scheme res" where
  "append_node head a s =
     (case last_node (\<lambda>x. next_ptr (nodes s x)) head of
        None \<Rightarrow> Err Diverges
      | Some temp \<Rightarrow> upd_node temp (\<lambda>n. n\<lparr>next_ptr := a\<rparr>) s)"

text \<open>The first node of the run queue goes to the end of the other queue, unless it is finished.\<close>

definition expire :: "u32 \<Rightarrow> 'a sched_scheme \<Rightarrow> 'a sched_scheme res" where
  "expire cur_process s =
     bindE (get_node cur_process s) (\<lambda>n.
     if finished n = 0 then
       if expired_queue s = 0 then Ok (s\<lparr>expired_queue := cur_process\<rparr>)
       else append_node (expired_queue s) cur_process s
     else Ok s)"

text \<open>The end of \<open>scheduler\<close>: the registers of the first process of the run queue.\<close>

definition dispatch :: "'a sched_scheme \<Rightarrow> 'a sched_scheme res" where
  "dispatch s =
     (let s = s\<lparr>tss_ss0 := KERNEL_DS\<rparr> in
      bindE (get_node (run_queue s) s) (\<lambda>n.
      bindE (get_pcb (curr n) s) (\<lambda>p.
      Ok (s\<lparr>tss_esp0 := 0x800000 - (pid p + 1) * MAX_STACK, ebp := curr_ebp p, esp := curr_esp p,
        cr3 := curr_pd p\<rparr>))))"

definition scheduler :: "'a sched_scheme \<Rightarrow> 'a sched_scheme res" where
  "scheduler s =
     (let s = cli s;
          s = s\<lparr>sched_esp := esp s\<rparr>;
          s = disable_irq PIT s;
          s = send_eoi PIT s;
          cur_process = run_queue s in
      if cur_process \<noteq> 0 then
        let s = s\<lparr>run_queue := next_ptr (nodes s (run_queue s))\<rparr> in
        bindE (upd_node cur_process (\<lambda>n. n\<lparr>next_ptr := 0\<rparr>) s) (\<lambda>s.
        bindE (expire cur_process s) (\<lambda>s.
        if run_queue s = 0 \<and> expired_queue s = 0 then Ok (enable_irq PIT (sti s))
        else if run_queue s = 0 \<and> expired_queue s = 0
        then dispatch (s\<lparr>run_queue := expired_queue s, expired_queue := run_queue s\<rparr>)
        else dispatch s))
      else dispatch s)"

text \<open>
  The pointer \<open>new_process\<close> is not initialised: the first argument is the address it happens
  to hold, where the new node is written.
\<close>

definition add_prog_to_queue :: "u32 \<Rightarrow> u32 \<Rightarrow> 'a sched_scheme \<Rightarrow> 'a sched_scheme res" where
  "add_prog_to_queue garbage loc s =
     (let temp = run_queue s in
      bindE (upd_node garbage (\<lambda>n. n\<lparr>curr := loc, finished := 0, next_ptr := 0\<rparr>) s) (\<lambda>s.
      if run_queue s = 0 then Ok (s\<lparr>run_queue := garbage\<rparr>)
      else append_node temp garbage s))"

definition remove_prog_from_queue :: "'a sched_scheme \<Rightarrow> 'a sched_scheme res" where
  "remove_prog_from_queue s = upd_node (run_queue s) (\<lambda>n. n\<lparr>finished := 1\<rparr>) s"

subsection \<open>The links of the kernel's heap\<close>

definition next_of :: "'a sched_scheme \<Rightarrow> u32 \<Rightarrow> u32" where
  "next_of s a = next_ptr (nodes s a)"

definition set_next :: "u32 \<Rightarrow> u32 \<Rightarrow> 'a sched_scheme \<Rightarrow> 'a sched_scheme" where
  "set_next a b s = s\<lparr>nodes := (nodes s)(a := (nodes s a)\<lparr>next_ptr := b\<rparr>)\<rparr>"

interpretation heap: link_store next_of set_next
  by unfold_locales (simp add: next_of_def set_next_def)

lemma upd_next: "a \<noteq> 0 \<Longrightarrow> upd_node a (\<lambda>n. n\<lparr>next_ptr := b\<rparr>) s = Ok (set_next a b s)"
  by (simp add: upd_node_def set_next_def)

lemma set_next_fields [simp]:
  "run_queue (set_next a b s) = run_queue s" "expired_queue (set_next a b s) = expired_queue s"
  "finished (nodes (set_next a b s) x) = finished (nodes s x)"
  "curr (nodes (set_next a b s) x) = curr (nodes s x)"
  "pcbs (set_next a b s) = pcbs s" "nodes (set_next a b s) x = (if x = a then (nodes s a)\<lparr>next_ptr := b\<rparr> else nodes s x)"
  by (simp_all add: set_next_def)

text \<open>The walk to the end of a list ends, at its last node; the walk around a cycle does not.\<close>

lemma last_node_path: "path n p (xs @ [z]) \<Longrightarrow> last_node n p = Some z"
proof (induction xs arbitrary: p)
  case Nil
  then show ?case by (subst last_node.simps) simp
next
  case (Cons x xs)
  then have "n x \<noteq> 0" by (cases xs) auto
  with Cons show ?case by (subst last_node.simps) simp
qed

lemma last_node_list:
  assumes "last_node n p = Some z"
  shows "p \<noteq> 0 \<longrightarrow> (\<exists>xs. path n p (xs @ [z]))"
proof (rule last_node.raw_induct [OF _ assms])
  fix f n p z
  assume IH: "\<And>n p z. f n p = Some z \<Longrightarrow> p \<noteq> 0 \<longrightarrow> (\<exists>xs. path n p (xs @ [z]))"
    and step: "(if n p \<noteq> 0 then f n (n p) else Some p) = Some z"
  show "p \<noteq> 0 \<longrightarrow> (\<exists>xs. path n p (xs @ [z]))"
  proof (cases "n p = 0")
    case True
    then show ?thesis using step by (auto intro!: exI [of _ "[]"])
  next
    case False
    then obtain xs where "path n (n p) (xs @ [z])" using IH [of n "n p" z] step by auto
    then show ?thesis by (auto intro!: exI [of _ "p # xs"])
  qed
qed

lemma last_node_some:
  assumes "last_node n x = Some z"
  shows "0 \<notin> A \<longrightarrow> (\<forall>y \<in> A. n y \<in> A) \<longrightarrow> x \<notin> A"
proof (rule last_node.raw_induct [OF _ assms])
  fix f n x z
  assume IH: "\<And>n x z. f n x = Some z \<Longrightarrow> 0 \<notin> A \<longrightarrow> (\<forall>y \<in> A. n y \<in> A) \<longrightarrow> x \<notin> A"
    and step: "(if n x \<noteq> 0 then f n (n x) else Some x) = Some z"
  show "0 \<notin> A \<longrightarrow> (\<forall>y \<in> A. n y \<in> A) \<longrightarrow> x \<notin> A"
  proof (cases "n x = 0")
    case False
    then show ?thesis using IH [of n "n x" z] step by auto
  qed metis
qed

lemma last_node_cycle:
  assumes "a \<in> A" and "\<forall>x \<in> A. n x \<in> A" and "0 \<notin> A"
  shows "last_node n a = None"
  using last_node_some [of n a _ A] assms by (cases "last_node n a") auto

lemma append_node_path:
  assumes "path (next_of s) p (xs @ [z])"
  shows "append_node p a s = Ok (set_next z a s)"
proof -
  have "z \<noteq> 0" using path_nonzero [OF assms] by auto
  moreover have "last_node (\<lambda>x. next_ptr (nodes s x)) p = Some z"
    using last_node_path [OF assms] by (simp add: next_of_def [abs_def])
  ultimately show ?thesis by (simp add: append_node_def upd_next)
qed

text \<open>The walk ends exactly when the links are a list.\<close>

lemma append_node_ends:
  assumes "p \<noteq> 0"
  shows "(\<exists>xs z. path (next_of s) p (xs @ [z]) \<and> append_node p a s = Ok (set_next z a s)) \<or>
    (\<nexists>xs. path (next_of s) p xs) \<and> append_node p a s = Err Diverges"
proof (cases "\<exists>xs. path (next_of s) p xs")
  case True
  then obtain xs where xs: "path (next_of s) p xs" by blast
  with assms obtain ys z where "xs = ys @ [z]" by (cases xs rule: rev_cases) auto
  with xs show ?thesis using append_node_path by blast
next
  case False
  then have "last_node (next_of s) p = None"
    using last_node_list [of "next_of s" p] assms by (cases "last_node (next_of s) p") auto
  with False show ?thesis by (simp add: append_node_def next_of_def [abs_def])
qed

subsection \<open>The abstract queues\<close>

text \<open>
  The kernel holds two queues of nodes; a node is at most once in one of them.
\<close>

definition queues :: "'a sched_scheme \<Rightarrow> u32 list \<Rightarrow> u32 list \<Rightarrow> bool" where
  "queues s rs es \<longleftrightarrow> path (next_of s) (run_queue s) rs \<and> path (next_of s) (expired_queue s) es \<and>
     distinct (rs @ es)"

lemma queuesD:
  assumes "queues s rs es"
  shows "path (next_of s) (run_queue s) rs" and "path (next_of s) (expired_queue s) es"
    and "distinct (rs @ es)" and "0 \<notin> set rs" and "0 \<notin> set es"
  using assms path_nonzero unfolding queues_def by blast+

lemma queues_cong:
  assumes "nodes s' = nodes s" and "run_queue s' = run_queue s" and "expired_queue s' = expired_queue s"
  shows "queues s' rs es = queues s rs es"
proof -
  have "next_of s' = next_of s" using assms(1) by (simp add: next_of_def fun_eq_iff)
  then show ?thesis by (simp add: queues_def assms(2,3))
qed

text \<open>The queues after the first node had its turn.\<close>

definition rotated :: "'a sched_scheme \<Rightarrow> u32 \<Rightarrow> u32 list \<Rightarrow> u32 list" where
  "rotated s p es = (if finished (nodes s p) = 0 then es @ [p] else es)"

lemma cut_queues:
  assumes "queues s (p # rs) es"
  shows "queues (set_next p 0 (s\<lparr>run_queue := next_of s p\<rparr>)) rs es"
    and "next_of (set_next p 0 (s\<lparr>run_queue := next_of s p\<rparr>)) p = 0"
proof -
  note Q = queuesD [OF assms]
  have n: "next_of (set_next p 0 (s\<lparr>run_queue := next_of s p\<rparr>)) = next_of (set_next p 0 s)"
    by (simp add: next_of_def fun_eq_iff set_next_def)
  have "path (next_of (set_next p 0 s)) (next_of s p) rs"
    using heap.path_cut(1) [of s p rs] Q(1) by simp
  moreover have "path (next_of (set_next p 0 s)) (expired_queue s) es"
    using Q(2,3) heap.path_link_other [of p es 0 s] by auto
  ultimately show "queues (set_next p 0 (s\<lparr>run_queue := next_of s p\<rparr>)) rs es"
    using Q(3) by (simp add: queues_def n)
  show "next_of (set_next p 0 (s\<lparr>run_queue := next_of s p\<rparr>)) p = 0"
    by (simp add: next_of_def)
qed

definition expired :: "u32 \<Rightarrow> u32 list \<Rightarrow> 'a sched_scheme \<Rightarrow> 'a sched_scheme" where
  "expired p es s =
     (if finished (nodes s p) \<noteq> 0 then s
      else if es = [] then s\<lparr>expired_queue := p\<rparr> else set_next (last es) p s)"

lemma expired_fields [simp]:
  "run_queue (expired p es s) = run_queue s" "pcbs (expired p es s) = pcbs s"
  "finished (nodes (expired p es s) x) = finished (nodes s x)"
  "curr (nodes (expired p es s) x) = curr (nodes s x)" "eflags (expired p es s) = eflags s"
  by (simp_all add: expired_def set_next_def)

lemma expire_eq:
  assumes "queues s rs es" and "p \<noteq> 0"
  shows "expire p s = Ok (expired p es s)"
proof (cases "es = []")
  case True
  then show ?thesis
    using assms(2) queuesD(2) [OF assms(1)] by (simp add: expire_def get_node_def expired_def)
next
  case False
  then obtain xs z where es: "es = xs @ [z]" by (metis rev_exhaust)
  note P = queuesD(2) [OF assms(1), unfolded es]
  then have "expired_queue s \<noteq> 0" by auto
  then show ?thesis
    using append_node_path [OF P, of p] assms(2) es
    by (simp add: expire_def get_node_def expired_def)
qed

lemma expired_queues:
  assumes "queues s rs es" and "p \<noteq> 0" and "p \<notin> set (rs @ es)" and "next_of s p = 0"
  shows "queues (expired p es s) rs (rotated s p es)"
proof -
  note Q = queuesD [OF assms(1)]
  consider "finished (nodes s p) \<noteq> 0" | "finished (nodes s p) = 0" "es = []"
    | xs z where "finished (nodes s p) = 0" "es = xs @ [z]"
    by (metis rev_exhaust)
  then show ?thesis
  proof cases
    case 1
    then show ?thesis using assms(1) by (simp add: expired_def rotated_def)
  next
    case 2
    have "next_of (s\<lparr>expired_queue := p\<rparr>) = next_of s" by (simp add: next_of_def fun_eq_iff)
    then show ?thesis
      using 2 Q(1,3) assms(2-4) by (simp add: expired_def rotated_def queues_def)
  next
    case 3
    have "path (next_of (set_next z p s)) (expired_queue s) (xs @ [z, p])"
      using Q(2) 3(2) assms(2-4) by (intro heap.path_link_end) simp_all
    moreover have "path (next_of (set_next z p s)) (run_queue s) rs"
      using Q(1,3) 3(2) heap.path_link_other [of z rs p s] by auto
    ultimately show ?thesis
      using 3 Q(3) assms(3) by (auto simp: expired_def rotated_def queues_def)
  qed
qed

subsection \<open>Rotation\<close>

text \<open>What \<open>scheduler\<close> does before it looks at the queues.\<close>

definition acknowledged :: "'a sched_scheme \<Rightarrow> 'a sched_scheme" where
  "acknowledged s = send_eoi PIT (disable_irq PIT ((cli s)\<lparr>sched_esp := esp (cli s)\<rparr>))"

lemma acknowledged_fields [simp]:
  "nodes (acknowledged s) = nodes s" "run_queue (acknowledged s) = run_queue s"
  "expired_queue (acknowledged s) = expired_queue s" "pcbs (acknowledged s) = pcbs s"
  "eflags (acknowledged s) = eflags s AND NOT IF_MASK"
  by (simp_all add: acknowledged_def send_eoi_def disable_irq_def outb_def inb_def port_out_def port_in_def
      cli_def Let_def)

lemma scheduler_null:
  assumes "run_queue s = 0"
  shows "scheduler s = Err PageFault"
  using assms acknowledged_fields(2) [of s]
  by (simp add: scheduler_def Let_def dispatch_def get_node_def acknowledged_def cli_def)

lemma scheduler_step:
  assumes "queues s (p # rs) es"
  defines "s1 \<equiv> expired p es (set_next p 0 ((acknowledged s)\<lparr>run_queue := next_of s p\<rparr>))"
  shows "scheduler s = (if rs = [] \<and> rotated s p es = [] then Ok (enable_irq PIT (sti s1)) else dispatch s1)"
    and "queues s1 rs (rotated s p es)" and "pcbs s1 = pcbs s" and "curr (nodes s1 x) = curr (nodes s x)"
    and "eflags s1 = eflags s AND NOT IF_MASK"
proof -
  let ?a = "acknowledged s"
  have q: "queues ?a (p # rs) es" using assms(1) by (subst queues_cong) simp_all
  note Q = queuesD [OF q]
  have p: "p \<noteq> 0" "run_queue s = p" using Q(1) by auto
  have nx: "next_of ?a p = next_of s p" by (simp add: next_of_def)
  define c where "c = set_next p 0 (?a\<lparr>run_queue := next_of s p\<rparr>)"
  have c: "queues c rs es" "next_of c p = 0"
    using cut_queues [OF q] by (simp_all add: c_def nx)
  have rot: "rotated c p es = rotated s p es" by (simp add: rotated_def c_def set_next_def)
  show s1: "queues s1 rs (rotated s p es)"
    using expired_queues [OF c(1) p(1) _ c(2)] Q(3) by (simp add: rot s1_def flip: c_def)
  have ends: "run_queue s1 = 0 \<and> expired_queue s1 = 0 \<longleftrightarrow> rs = [] \<and> rotated s p es = []"
    using queuesD(1,2) [OF s1] by (cases rs; cases "rotated s p es"; auto)
  have u: "upd_node p (\<lambda>n. n\<lparr>next_ptr := 0\<rparr>) (?a\<lparr>run_queue := next_of s p\<rparr>) = Ok c"
    unfolding c_def using p(1) by (rule upd_next)
  have e: "expire p c = Ok s1"
    using expire_eq [OF c(1) p(1)] by (simp add: s1_def c_def)
  have "scheduler s = bindE (upd_node p (\<lambda>n. n\<lparr>next_ptr := 0\<rparr>) (?a\<lparr>run_queue := next_of s p\<rparr>)) (\<lambda>s.
        bindE (expire p s) (\<lambda>s.
        if run_queue s = 0 \<and> expired_queue s = 0 then Ok (enable_irq PIT (sti s)) else dispatch s))"
    using p by (simp add: scheduler_def Let_def next_of_def acknowledged_def [symmetric] cong: if_cong)
  then show "scheduler s = (if rs = [] \<and> rotated s p es = [] then Ok (enable_irq PIT (sti s1)) else dispatch s1)"
    by (simp add: u e ends)
  show "pcbs s1 = pcbs s" "curr (nodes s1 x) = curr (nodes s x)" "eflags s1 = eflags s AND NOT IF_MASK"
    by (simp_all add: s1_def set_next_def)
qed

text \<open>With a second process in the run queue, it is the next, and the first goes to the end.\<close>

lemma scheduler_rotates:
  assumes "queues s (p # q # rs) es" and "curr (nodes s q) \<noteq> 0"
  defines "P \<equiv> pcbs s (curr (nodes s q))"
  shows "\<exists>s'. scheduler s = Ok s' \<and> queues s' (q # rs) (rotated s p es) \<and>
    ebp s' = curr_ebp P \<and> esp s' = curr_esp P \<and> cr3 s' = curr_pd P \<and>
    tss_esp0 s' = 0x800000 - (pid P + 1) * MAX_STACK \<and> \<not> bit (eflags s') 9"
proof -
  define s1 where "s1 = expired p es (set_next p 0 ((acknowledged s)\<lparr>run_queue := next_of s p\<rparr>))"
  note S = scheduler_step [OF assms(1), folded s1_def]
  have q: "run_queue s1 = q" "q \<noteq> 0" using queuesD(1) [OF S(2)] by auto
  define s' where "s' = s1\<lparr>tss_ss0 := KERNEL_DS, tss_esp0 := 0x800000 - (pid P + 1) * MAX_STACK,
    ebp := curr_ebp P, esp := curr_esp P, cr3 := curr_pd P\<rparr>"
  have "scheduler s = dispatch s1" using S(1) by simp
  also have "\<dots> = Ok s'"
    using q assms(2) by (simp add: dispatch_def Let_def get_node_def get_pcb_def S(3,4) s'_def P_def)
  finally have run: "scheduler s = Ok s'" .
  have "queues s' (q # rs) (rotated s p es)"
    using S(2) by (subst queues_cong [of s' s1]) (simp_all add: s'_def)
  moreover have "\<not> bit (eflags s') 9" by (simp add: s'_def S(5) IF_MASK_def bit_simps)
  ultimately show ?thesis using run by (auto simp: s'_def)
qed

text \<open>
  With one process in the run queue, the test that should swap the queues repeats the test that
  returns: the other queue is never taken, and the null run queue is dereferenced.
\<close>

lemma scheduler_never_swaps:
  assumes "queues s [p] es" and "finished (nodes s p) = 0 \<or> es \<noteq> []"
  shows "scheduler s = Err PageFault"
proof -
  note S = scheduler_step [OF assms(1)]
  have "rotated s p es \<noteq> []" using assms(2) by (auto simp: rotated_def)
  moreover have "dispatch t = Err PageFault" if "queues t [] X" for t :: "'a sched_scheme" and X
    using queuesD(1) [OF that] by (simp add: dispatch_def Let_def get_node_def)
  ultimately show ?thesis using S(1,2) by simp
qed

subsection \<open>Adding and removing\<close>

definition fresh_node :: "u32 \<Rightarrow> process" where
  "fresh_node loc = \<lparr>curr = loc, finished = 0, next_ptr = 0\<rparr>"

lemma fresh_node_eq: "n\<lparr>curr := loc, finished := 0, next_ptr := 0\<rparr> = fresh_node loc"
  by (cases n) (simp add: fresh_node_def)

lemma add_prog_fresh:
  assumes "queues s rs es" and "g \<noteq> 0" and "g \<notin> set (rs @ es)"
  shows "\<exists>s'. add_prog_to_queue g loc s = Ok s' \<and> queues s' (rs @ [g]) es \<and>
    curr (nodes s' g) = loc \<and> finished (nodes s' g) = 0"
proof -
  note Q = queuesD [OF assms(1)]
  define t where "t = s\<lparr>nodes := (nodes s)(g := fresh_node loc)\<rparr>"
  have u: "upd_node g (\<lambda>n. n\<lparr>curr := loc, finished := 0, next_ptr := 0\<rparr>) s = Ok t"
    using assms(2) by (simp add: upd_node_def t_def fresh_node_eq)
  have n: "next_of t x = (if x = g then 0 else next_of s x)" for x
    by (simp add: t_def next_of_def fresh_node_def)
  have paths: "path (next_of t) (run_queue s) rs" "path (next_of t) (expired_queue s) es"
  proof -
    have "path (next_of t) q xs = path (next_of s) q xs" if "g \<notin> set xs" for q xs
      using that by (intro path_cong) (auto simp: n)
    then show "path (next_of t) (run_queue s) rs" "path (next_of t) (expired_queue s) es"
      using Q(1,2) assms(3) by simp_all
  qed
  show ?thesis
  proof (cases "rs = []")
    case True
    have "next_of (t\<lparr>run_queue := g\<rparr>) = next_of t" by (simp add: next_of_def fun_eq_iff)
    then have "queues (t\<lparr>run_queue := g\<rparr>) [g] es"
      using paths(2) Q(3) assms(2,3) True n [of g] by (simp add: queues_def) (simp add: t_def)
    then show ?thesis
      using True Q(1) u by (simp add: add_prog_to_queue_def Let_def t_def fresh_node_def)
  next
    case False
    then obtain xs z where rs: "rs = xs @ [z]" by (metis rev_exhaust)
    have "path (next_of t) (run_queue t) (xs @ [z])" using paths(1) rs by (simp add: t_def)
    note app = append_node_path [OF this, of g]
    have "path (next_of (set_next z g t)) (run_queue s) (xs @ [z, g])"
      using paths(1) rs assms(2,3) by (intro heap.path_link_end) (simp_all add: n)
    moreover have "path (next_of (set_next z g t)) (expired_queue s) es"
      using paths(2) Q(3) rs heap.path_link_other [of z es g t] by auto
    ultimately have "queues (set_next z g t) (rs @ [g]) es"
      using Q(3) rs assms(3) by (simp add: queues_def t_def) auto
    moreover have "run_queue s \<noteq> 0" using Q(1) rs by auto
    moreover have "z \<noteq> g" using rs assms(3) by auto
    ultimately show ?thesis
      using u app by (simp add: add_prog_to_queue_def Let_def t_def fresh_node_def)
  qed
qed

text \<open>
  When the uninitialised pointer still holds the last node of the queue, that node becomes its own
  successor, and a call with a node that is not in the queue never ends.
\<close>

lemma add_prog_stale:
  assumes "queues s (xs @ [g]) es"
  shows "\<exists>s'. add_prog_to_queue g loc s = Ok s' \<and> next_of s' g = g \<and>
    (\<forall>h loc'. h \<noteq> 0 \<and> h \<notin> set (xs @ [g]) \<longrightarrow> add_prog_to_queue h loc' s' = Err Diverges)"
proof -
  note Q = queuesD [OF assms]
  have g: "g \<noteq> 0" using Q(4) by auto
  define t where "t = s\<lparr>nodes := (nodes s)(g := fresh_node loc)\<rparr>"
  have u: "upd_node g (\<lambda>n. n\<lparr>curr := loc, finished := 0, next_ptr := 0\<rparr>) s = Ok t"
    using g by (simp add: upd_node_def t_def fresh_node_eq)
  have n: "next_of t x = next_of s x" for x
  proof (cases "x = g")
    case True
    obtain q where "path (next_of s) q [g]" using path_suffix [OF Q(1)] by blast
    then have "next_of s g = 0" by simp
    with True show ?thesis by (simp add: t_def next_of_def fresh_node_def)
  qed (simp add: t_def next_of_def)
  have p: "path (next_of t) (run_queue t) (xs @ [g])"
  proof -
    have "next_of t = next_of s" using n by blast
    then show ?thesis using Q(1) by (simp add: t_def)
  qed
  have rq: "run_queue t = run_queue s" "run_queue s \<noteq> 0" using Q(1) by (auto simp: t_def)
  have add: "add_prog_to_queue g loc s = Ok (set_next g g t)"
    using u append_node_path [OF p] rq by (simp add: add_prog_to_queue_def Let_def)
  have "add_prog_to_queue h loc' (set_next g g t) = Err Diverges"
    if h: "h \<noteq> 0" "h \<notin> set (xs @ [g])" for h loc'
  proof -
    let ?u = "(set_next g g t)\<lparr>nodes := (nodes (set_next g g t))(h := fresh_node loc')\<rparr>"
    have "next_of ?u x = next_of (set_next g g t) x" if "x \<noteq> h" for x
      using that by (simp add: next_of_def)
    moreover have "x \<noteq> h" if "x \<in> set (xs @ [g])" for x using h that by auto
    ultimately have nx: "next_of ?u x = (if x = g then g else next_of t x)" if "x \<in> set (xs @ [g])" for x
      using that by (simp add: heap.follow_link)
    have "\<forall>x \<in> set (xs @ [g]). next_of ?u x \<in> set (xs @ [g])"
      using path_next [OF p] nx by (auto split: if_splits)
    moreover have "run_queue s \<in> set (xs @ [g])" using Q(1) by (cases xs) auto
    ultimately have "last_node (next_of ?u) (run_queue s) = None"
      using last_node_cycle [of "run_queue s" "set (xs @ [g])" "next_of ?u", OF _ _ Q(4)] by blast
    then show ?thesis
      using h(1) rq by (simp add: add_prog_to_queue_def Let_def upd_node_def append_node_def fresh_node_eq
          next_of_def [abs_def])
  qed
  moreover have "next_of (set_next g g t) g = g" by (simp add: heap.follow_link)
  ultimately show ?thesis using add by blast
qed

lemma remove_prog_marks:
  assumes "queues s (p # rs) es"
  shows "\<exists>s'. remove_prog_from_queue s = Ok s' \<and> queues s' (p # rs) es \<and> rotated s' p es = es"
proof -
  note Q = queuesD [OF assms]
  define s' where "s' = s\<lparr>nodes := (nodes s)(p := (nodes s p)\<lparr>finished := 1\<rparr>)\<rparr>"
  have "next_of s' = next_of s" by (simp add: s'_def next_of_def fun_eq_iff)
  then have "queues s' (p # rs) es" using assms by (simp add: queues_def s'_def)
  moreover have "remove_prog_from_queue s = Ok s'"
    using Q(1) by (auto simp: remove_prog_from_queue_def upd_node_def s'_def)
  ultimately show ?thesis by (simp add: rotated_def s'_def)
qed

end
