(* ===== verification/Sample_Sched.thy ===== *)
theory Sample_Sched
  imports Sched Sample_State
begin

text \<open>Two processes in the run queue, and one: the states on which the scheduler is evaluated.\<close>

definition sample_nodes :: "u32 \<Rightarrow> process" where
  "sample_nodes a =
     (if a = 0x100 then \<lparr>curr = PCB0_LOC, finished = 0, next_ptr = 0x200\<rparr>
      else if a = 0x200 then \<lparr>curr = PCB0_LOC - EIGHT_KB, finished = 0, next_ptr = 0\<rparr>
      else \<lparr>curr = 0, finished = 0, next_ptr = 0\<rparr>)"

definition sched_kernel :: "u32 \<Rightarrow> sched" where
  "sched_kernel head = kbd.extend plain_kernel (sched.fields head 0 0 sample_nodes)"

lemma sched_fields [simp]:
  "run_queue (sched_kernel p) = p" "expired_queue (sched_kernel p) = 0" "nodes (sched_kernel p) = sample_nodes"
  "pcbs (sched_kernel p) = (\<lambda>_. sample_pcb)"
  by (simp_all add: sched_kernel_def sched.fields_def kbd.extend_def sample_kernel_def)

lemma sched_queues: "queues (sched_kernel 0x100) [0x100, 0x200] []" "queues (sched_kernel 0x200) [0x200] []"
  by (simp_all add: queues_def next_of_def sample_nodes_def)

end
