(* ===== verification/Terminal_Write.thy ===== *)
theory Terminal_Write
  imports Line_Discipline
begin

text \<open>
  Writing to a terminal: \<open>terminal_write\<close> prints the bytes of the caller's buffer like the abstract
  terminal of \<open>Console\<close>, except that a newline at the beginning of a row is dropped.
\<close>

definition tty_write :: "u8 \<Rightarrow> tty \<Rightarrow> tty" where
  "tty_write c T = (if c = CH_NEWLINE \<and> tty_pos T mod 80 = 0 then T else tty_put c T)"

text \<open>The bytes at \<open>buf\<close>, in memory that is not video memory.\<close>

definition text_at :: "u32 \<Rightarrow> u8 list \<Rightarrow> 'a machine_scheme \<Rightarrow> bool" where
  "text_at buf bs s \<longleftrightarrow> (\<forall>i < length bs. \<exists>p. translate s (buf + of_nat i) = Some p \<and>
     p \<notin> screen_region \<and> mem s p = bs ! i)"

lemma text_at_rd: "text_at buf bs s \<Longrightarrow> i < length bs \<Longrightarrow> ptr_rd buf i s = Ok (bs ! i)"
  by (auto simp: text_at_def ptr_rd_def ld_def)

lemma text_at_outside:
  assumes "text_at buf bs s" and "translate t = translate s" and "same_outside screen_region s t"
  shows "text_at buf bs t"
  unfolding text_at_def
proof (intro allI impI)
  fix i
  assume "i < length bs"
  with assms(1) obtain p where "translate s (buf + of_nat i) = Some p" "p \<notin> screen_region" "mem s p = bs ! i"
    by (auto simp: text_at_def)
  then show "\<exists>p. translate t (buf + of_nat i) = Some p \<and> p \<notin> screen_region \<and> mem t p = bs ! i"
    using assms(2,3) by (auto simp: same_outside_def)
qed

lemma shows_tty_fields:
  assumes "mem t = mem s" and "screen_x t = screen_x s" and "screen_y t = screen_y s"
    and "current_terminal t = current_terminal s"
  shows "shows_tty t T = shows_tty s T"
  using assms by (simp add: shows_tty_def on_screen_def cursor_def screen_cell_def)

lemma tty_column:
  assumes "shows_tty s T"
  shows "screen_x s (current_terminal s) = int (tty_pos T mod 80)"
proof -
  have "int (tty_pos T) = 80 * screen_y s (current_terminal s) + screen_x s (current_terminal s)"
    and "0 \<le> screen_x s (current_terminal s)" "screen_x s (current_terminal s) < 80"
    using assms by (simp_all add: shows_tty_def cursor_def on_screen_def)
  then show ?thesis by (simp add: zmod_int)
qed

lemma quiet_kbd:
  fixes s s' :: "'a kbd_scheme"
  assumes "quiet s' = quiet s"
  shows "writebuffer s' = writebuffer s" and "translate s' = translate s" and "current_terminal s' = current_terminal s"
proof -
  note Q = quiet_eqD [OF assms]
  show "writebuffer s' = writebuffer s" using Q(13) by (cases s; cases s'; simp)
  show "translate s' = translate s" by (rule ext) (simp add: translate_def Q)
  show "current_terminal s' = current_terminal s" by (rule Q(12))
qed

text \<open>What holds after a number of characters.\<close>

definition written :: "u32 \<Rightarrow> u8 list \<Rightarrow> tty \<Rightarrow> 'a kbd_scheme \<Rightarrow> bool" where
  "written buf bs T s \<longleftrightarrow> shows_tty s T \<and> text_at buf bs s \<and>
     length (writebuffer s (current_terminal s)) = BUFFERSIZE"

lemma write_char_written:
  assumes "written buf bs T s" and "i < length bs" and "length bs \<le> BUFFERSIZE"
  shows "\<exists>s'. write_char buf i s = Ok s' \<and> written buf bs (tty_write (bs ! i) T) s'"
proof -
  let ?t = "current_terminal s"
  note W = assms(1) [unfolded written_def]
  define u where "u = set_writeindex ?t (writeindex s ?t + 1)
      (s\<lparr>writebuffer := (writebuffer s)(?t := (writebuffer s ?t)[i := bs ! i])\<rparr>)"
  have u: "mem u = mem s" "screen_x u = screen_x s" "screen_y u = screen_y s" "current_terminal u = ?t"
    "translate u = translate s" "length (writebuffer u ?t) = BUFFERSIZE"
    using W by (simp_all add: u_def set_writeindex_def)
  have tty: "shows_tty u T" using W by (simp add: shows_tty_fields [OF u(1-4)])
  have buf: "text_at buf bs u" using W by (simp add: text_at_def u(1,5))
  note rd = text_at_rd [OF conjunct1 [OF conjunct2 [OF W]] assms(2)] text_at_rd [OF buf assms(2)]
  have "wb_put ?t (int i) (bs ! i) s = Ok (s\<lparr>writebuffer := (writebuffer s)(?t := (writebuffer s ?t)[i := bs ! i])\<rparr>)"
    using W assms(2,3) by (simp add: wb_put_def)
  then have run: "write_char buf i s =
      (if bs ! i \<noteq> CH_NEWLINE \<or> screen_x u ?t \<noteq> 0 then Ok (term_putc (bs ! i) u) else Ok u)"
    using rd by (simp add: write_char_def Let_def getxcoord_def u_def set_writeindex_def)
  show ?thesis
  proof (cases "bs ! i = CH_NEWLINE \<and> tty_pos T mod 80 = 0")
    case True
    then have "screen_x u ?t = 0" using tty_column [OF tty] u(4) by simp
    then show ?thesis
      using True run tty buf u by (simp add: written_def tty_write_def)
  next
    case False
    then have "write_char buf i s = Ok (term_putc (bs ! i) u)"
      using run tty_column [OF tty] u(4) by auto
    moreover have "cursor_ok u" using tty by (simp add: shows_tty_def)
    then have "same_outside screen_region u (term_putc (bs ! i) u)" by (rule term_out.put_frame) simp
    then have "text_at buf bs (term_putc (bs ! i) u)"
      using text_at_outside [OF buf] quiet_kbd(2) [OF quiet_term_putc] by blast
    moreover have "shows_tty (term_putc (bs ! i) u) (tty_put (bs ! i) T)" by (rule term_putc_tty [OF tty])
    moreover have "writebuffer (term_putc (bs ! i) u) = writebuffer u"
      "current_terminal (term_putc (bs ! i) u) = current_terminal u"
      using quiet_kbd(1,3) [OF quiet_term_putc] by blast+
    ultimately show ?thesis using False u by (auto simp: written_def tty_write_def)
  qed
qed

lemma foldE_step: "foldE f (x # xs) s = bindE (f x s) (foldE f xs)"
  by simp

lemma write_loop:
  assumes "written buf bs T s" and "length bs \<le> BUFFERSIZE" and "k \<le> length bs"
  shows "\<exists>s'. for_loopE k (length bs) (write_char buf) s = Ok s' \<and>
    written buf bs (fold tty_write (drop k bs) T) s'"
  using assms(3,1)
proof (induction k arbitrary: s T rule: inc_induct)
  case base
  then show ?case by (simp add: for_loopE_def)
next
  case (step k)
  obtain u where u: "write_char buf k s = Ok u" "written buf bs (tty_write (bs ! k) T) u"
    using write_char_written [OF step.prems step.hyps(2) assms(2)] by blast
  from step.IH [OF u(2)] show ?case
    using u(1) step.hyps by (simp add: for_loopE_unroll Cons_nth_drop_Suc [symmetric])
qed

text \<open>Clearing the write buffer.\<close>

lemma clear_loop:
  assumes "length (writebuffer s (current_terminal s)) = BUFFERSIZE" and "n \<le> BUFFERSIZE" and "k \<le> n"
  shows "\<exists>b. for_loopE k n (\<lambda>i s. wb_put (current_terminal s) (int i) 0 s) s =
      Ok (s\<lparr>writebuffer := b\<rparr>) \<and> length (b (current_terminal s)) = BUFFERSIZE"
  using assms(3,1)
proof (induction k arbitrary: s rule: inc_induct)
  case base
  then show ?case by (auto simp: for_loopE_def intro!: exI [of _ "writebuffer s"])
next
  case (step k)
  let ?t = "current_terminal s"
  let ?s = "s\<lparr>writebuffer := (writebuffer s)(?t := (writebuffer s ?t)[k := 0])\<rparr>"
  have "wb_put ?t (int k) 0 s = Ok ?s" using step assms(2) by (simp add: wb_put_def)
  moreover obtain b where "for_loopE (Suc k) n (\<lambda>i s. wb_put (current_terminal s) (int i) 0 s) ?s =
      Ok (?s\<lparr>writebuffer := b\<rparr>)" "length (b (current_terminal ?s)) = BUFFERSIZE"
    using step.IH [of ?s] step.prems by auto
  ultimately show ?case using step.hyps by (auto simp: for_loopE_unroll)
qed

lemma terminal_write_tty:
  assumes "shows_tty s T" and "length (writebuffer s (current_terminal s)) = BUFFERSIZE"
    and "text_at buf bs s" and "buf \<noteq> 0" and "length bs \<le> BUFFERSIZE"
  shows "\<exists>s'. terminal_write buf (int (length bs)) s = Ok (int (length bs) + 1, s') \<and>
    shows_tty s' (fold tty_write bs T) \<and> text_at buf bs s'"
proof -
  let ?t = "current_terminal s"
  obtain b where b: "for_loopE 0 (length bs) (\<lambda>i s. wb_put (current_terminal s) (int i) 0 s) s = Ok (s\<lparr>writebuffer := b\<rparr>)"
    "length (b ?t) = BUFFERSIZE"
    using clear_loop [OF assms(2,5), of 0] by auto
  define u where "u = set_writeindex ?t 0 (s\<lparr>writebuffer := b\<rparr>)"
  have "written buf bs T u"
    using assms(1,3) b(2) shows_tty_fields [of u s T]
    by (simp add: written_def u_def set_writeindex_def text_at_def)
  then obtain s' where "for_loopE 0 (length bs) (write_char buf) u = Ok s'" "written buf bs (fold tty_write bs T) s'"
    using write_loop [OF _ assms(5), of buf T u 0] by auto
  then show ?thesis
    using b(1) assms(4) by (auto simp: terminal_write_def Let_def u_def written_def)
qed

text \<open>More bytes than the write buffer holds are stored behind it.\<close>

lemma terminal_write_overrun:
  assumes "length (writebuffer s (current_terminal s)) = BUFFERSIZE" and "buf \<noteq> 0" and "int BUFFERSIZE < n"
  shows "terminal_write buf n s = Err OutOfBounds"
proof -
  have "for_loopE k (nat n) (\<lambda>i s. wb_put (current_terminal s) (int i) 0 s) s = Err OutOfBounds"
    if "k \<le> BUFFERSIZE" for k
    using that assms(1)
  proof (induction k arbitrary: s rule: inc_induct)
    case base
    then show ?case using assms(3) by (simp add: for_loopE_unroll wb_put_def)
  next
    case (step k)
    let ?t = "current_terminal s"
    have "wb_put ?t (int k) 0 s = Ok (s\<lparr>writebuffer := (writebuffer s)(?t := (writebuffer s ?t)[k := 0])\<rparr>)"
      using step by (simp add: wb_put_def)
    moreover have "for_loopE (Suc k) (nat n) (\<lambda>i s. wb_put (current_terminal s) (int i) 0 s)
        (s\<lparr>writebuffer := (writebuffer s)(?t := (writebuffer s ?t)[k := 0])\<rparr>) = Err OutOfBounds"
      using step.prems by (intro step.IH) simp
    moreover have "k < nat n" using step.hyps assms(3) by simp
    ultimately show ?case by (subst for_loopE_unroll) simp_all
  qed
  from this [of 0] show ?thesis using assms(2,3) by (simp add: terminal_write_def)
qed

end
