(* ===== verification/Tss.thy ===== *)
theory Tss
  imports Descriptors User_Calls
begin

text \<open>
  The task state segment (\<open>tss_t\<close> of \<open>x86_desc.h\<close>): the packed structure with all its fields, the bytes it
  occupies, and what the processor reads from them when an interrupt arrives in user mode.
\<close>

record tss_t =
  ts_prev_task_link :: u16
  ts_prev_task_link_pad :: u16
  ts_esp0 :: u32
  ts_ss0 :: u16
  ts_ss0_pad :: u16
  ts_esp1 :: u32
  ts_ss1 :: u16
  ts_ss1_pad :: u16
  ts_esp2 :: u32
  ts_ss2 :: u16
  ts_ss2_pad :: u16
  ts_cr3 :: u32
  ts_eip :: u32
  ts_eflags :: u32
  ts_eax :: u32
  ts_ecx :: u32
  ts_edx :: u32
  ts_ebx :: u32
  ts_esp :: u32
  ts_ebp :: u32
  ts_esi :: u32
  ts_edi :: u32
  ts_es :: u16
  ts_es_pad :: u16
  ts_cs :: u16
  ts_cs_pad :: u16
  ts_ss :: u16
  ts_ss_pad :: u16
  ts_ds :: u16
  ts_ds_pad :: u16
  ts_fs :: u16
  ts_fs_pad :: u16
  ts_gs :: u16
  ts_gs_pad :: u16
  ts_ldt_segment_selector :: u16
  ts_ldt_pad :: u16
  ts_debug_trap :: "1 word"
  ts_io_pad :: "15 word"
  ts_io_base_addr :: u16

text \<open>The packed structure: every field in its bytes, lowest first; the two bit fields share 16 bits.\<close>

definition le2 :: "u16 \<Rightarrow> u8 list" where
  "le2 w = [ucast w, ucast (drop_bit 8 w)]"

definition le4 :: "u32 \<Rightarrow> u8 list" where
  "le4 w = [byte_at w 0, byte_at w 1, byte_at w 2, byte_at w 3]"

definition tss_bytes :: "tss_t \<Rightarrow> u8 list" where
  "tss_bytes t =
     le2 (ts_prev_task_link t) @ le2 (ts_prev_task_link_pad t) @ le4 (ts_esp0 t) @ le2 (ts_ss0 t) @
     le2 (ts_ss0_pad t) @ le4 (ts_esp1 t) @ le2 (ts_ss1 t) @ le2 (ts_ss1_pad t) @ le4 (ts_esp2 t) @
     le2 (ts_ss2 t) @ le2 (ts_ss2_pad t) @ le4 (ts_cr3 t) @ le4 (ts_eip t) @ le4 (ts_eflags t) @
     le4 (ts_eax t) @ le4 (ts_ecx t) @ le4 (ts_edx t) @ le4 (ts_ebx t) @ le4 (ts_esp t) @ le4 (ts_ebp t) @
     le4 (ts_esi t) @ le4 (ts_edi t) @ le2 (ts_es t) @ le2 (ts_es_pad t) @ le2 (ts_cs t) @
     le2 (ts_cs_pad t) @ le2 (ts_ss t) @ le2 (ts_ss_pad t) @ le2 (ts_ds t) @ le2 (ts_ds_pad t) @
     le2 (ts_fs t) @ le2 (ts_fs_pad t) @ le2 (ts_gs t) @ le2 (ts_gs_pad t) @
     le2 (ts_ldt_segment_selector t) @ le2 (ts_ldt_pad t) @
     le2 (ucast (ts_debug_trap t) OR push_bit 1 (ucast (ts_io_pad t))) @ le2 (ts_io_base_addr t)"

text \<open>The processor finds the stack of the kernel at offsets 4 and 8, the LDT at offset 96.\<close>

definition rd2 :: "u8 list \<Rightarrow> nat \<Rightarrow> u16" where
  "rd2 bs i = ucast (bs ! i) OR push_bit 8 (ucast (bs ! (i + 1)))"

definition rd4 :: "u8 list \<Rightarrow> nat \<Rightarrow> u32" where
  "rd4 bs i = ucast (bs ! i) OR push_bit 8 (ucast (bs ! (i + 1))) OR push_bit 16 (ucast (bs ! (i + 2))) OR
     push_bit 24 (ucast (bs ! (i + 3)))"

definition cpu_kernel_stack :: "u8 list \<Rightarrow> u16 \<times> u32" where
  "cpu_kernel_stack bs = (rd2 bs 8, rd4 bs 4)"

definition cpu_ldt :: "u8 list \<Rightarrow> u16" where
  "cpu_ldt bs = rd2 bs 96"

lemma le_length: "length (le2 w) = 2" "length (le4 v) = 4"
  by (simp_all add: le2_def le4_def)

lemma tss_length: "length (tss_bytes t) = unat TSS_SIZE"
  by (simp add: tss_bytes_def le_length)

lemma join2: "ucast (ucast w :: u8) OR push_bit 8 (ucast (ucast (drop_bit 8 w) :: u8)) = (w :: u16)"
  by (rule bit_word_eqI) (auto simp: bit_simps)

lemma rd_le: "rd2 (le2 w @ bs) 0 = w" "rd4 (le4 v @ bs) 0 = v"
  by (simp_all add: rd2_def rd4_def le2_def le4_def join2 join_bytes [simplified])

lemma rd_skip: "length xs \<le> i \<Longrightarrow> rd2 (xs @ bs) i = rd2 bs (i - length xs)"
  "length xs \<le> i \<Longrightarrow> rd4 (xs @ bs) i = rd4 bs (i - length xs)"
  by (simp_all add: rd2_def rd4_def nth_append Suc_diff_le)

lemma tss_read:
  "cpu_kernel_stack (tss_bytes t) = (ts_ss0 t, ts_esp0 t)" "cpu_ldt (tss_bytes t) = ts_ldt_segment_selector t"
  by (simp_all add: cpu_kernel_stack_def cpu_ldt_def tss_bytes_def rd_skip rd_le le_length)

text \<open>
  The segment of the kernel: the fields it sets, over whatever the others hold. An interrupt that
  arrives while process \<open>p\<close> runs in user mode starts on the kernel stack of \<open>p\<close>.
\<close>

definition kernel_tss :: "tss_t \<Rightarrow> 'a proc_scheme \<Rightarrow> tss_t" where
  "kernel_tss g s = g\<lparr>ts_esp0 := tss_esp0 s, ts_ss0 := ucast (tss_ss0 s)\<rparr>"

lemma enter_program_stack:
  assumes "enter_program s = Ok s'" and "pid (pcbs s (cur_loc s)) = of_nat p"
  shows "cpu_kernel_stack (tss_bytes (kernel_tss g s')) = (0x18, 0x00800000 - (of_nat p + 1) * MAX_STACK)"
  using assms
  by (auto simp: enter_program_def Let_def bindE_eq_Ok upd_pcb_def cur_pcb_def get_pcb_def cur_loc_def cli_def
      kernel_tss_def tss_read split: if_splits)

end
