(* ===== verification/Spec2Isabelle.thy ===== *)
theory Spec2Isabelle
  imports Entry_Frame Own_Page Sample_Sched Terminal_Write Tss
begin

text \<open>
  A model of a small x86 operating system kernel (\<open>src/*.c\<close>, \<open>src/*.h\<close> and
  \<open>src/*.S\<close>): drivers for the interrupt controllers, the clock, the timer and the keyboard,
  a text console, a read-only file system, paging, processes, three terminals, ten system calls, and the
  start of the kernel. This theory states the properties; the others hold the model.

  \<^bold>\<open>The state\<close> is one extensible record that grows along the theories, as the globals of the kernel do
  along its files: \<open>machine\<close> (memory, page tables, control and stack registers, flags, the device and
  the log of port accesses), \<open>pic\<close> (the two masks), \<open>console\<close> (cursors, current terminal), \<open>rtc\<close>,
  \<open>fs\<close>, \<open>proc\<close> (PCBs by address, the current and previous PCB of each terminal, used slots,
  counters, the kernel stack of the TSS), \<open>kbd\<close> (flags and line buffers of the terminals), then
  \<open>sched\<close> (the scheduler's queues) and \<open>kernel\<close> (descriptors). An operation takes the state and returns
  it; an operation that can fail returns \<open>'a res\<close>: \<open>Ok\<close>, or an error, which is a page fault, an access
  outside an array, a call through a null pointer, a loop that does not end, or a wait for an
  interrupt that does not come.

  \<^bold>\<open>Theories, in the order of the imports.\<close>
  \<^item> \<open>Kernel_Prelude\<close>: integer types, the result type, \<open>for\<close> loops with their rules, facts on words; the
    collection \<open>frame_simps\<close> says which fields an operation leaves alone.
  \<^item> \<open>Machine\<close> (\<open>lib.h\<close>): ports, the interrupt flag. \<open>Mmu\<close>: the page walk of the processor, access to
    memory through it, and waiting for an interrupt: the interrupts that arrive are a list.
  \<^item> \<open>Lib_Mem\<close>, \<open>Lib_Str\<close>, \<open>Console\<close>, \<open>Printf\<close> (\<open>lib.c\<close>): the assembly block routines, which equal
    loops over bytes, the string routines, the screen, and formatted output.
  \<^item> \<open>I8259\<close>, \<open>Rtc\<close>, \<open>Pit\<close>: the drivers, with the documented behaviour of their devices as hypothesis.
  \<^item> \<open>Filesys\<close>, \<open>File_Ops\<close> (\<open>filesys.c\<close>): the image and the operations behind descriptors. \<open>Pcb\<close>
    (\<open>pcb.c\<close>): process control blocks. \<open>Paging\<close> (\<open>paging.c\<close>): the page tables.
  \<^item> \<open>Scancodes\<close>, \<open>Keyboard\<close> (\<open>keyboard.c\<close>): the handler and the terminal calls. \<open>Line_Discipline\<close>: the
    line editor it implements. \<open>Terminal_Write\<close>: what writing prints.
  \<^item> \<open>Syscall\<close> (\<open>syscall.c\<close>): the system calls. \<open>Fd_Table\<close>: the descriptor table. \<open>Process_Table\<close>: the
    abstract table of processes. \<open>Program_Start\<close>, \<open>User_Calls\<close>: what \<open>execute\<close>, \<open>getargs\<close>, \<open>vidmap\<close> do.
  \<^item> \<open>Call_Frame\<close> says what each call leaves alone (\<open>kview\<close>: the processes, the page tables and the
    control registers; \<open>steady\<close> keeps it, and \<open>switched\<close> changes only the loaded directory).
    \<open>Isolation\<close>: the invariant that the loaded page tables are those of the process that runs.
    \<open>Kernel_Run\<close>: the kernel as a step relation labelled with events, the system calls with their
    arguments and the interrupts, and the runs over lists of events, which keep the tables of processes
    and the isolation. A read that waits is two events, \<open>Line_wait\<close> and \<open>Line_read\<close> or \<open>Tick_wait\<close> and
    \<open>Tick_read\<close>, so that interrupts and other processes run in between. \<open>own_buffer\<close> is the condition on
    the events of a run, that \<open>read\<close> and \<open>getargs\<close> store into the program's own page. \<open>Own_Page\<close>: the
    addresses to which a system call stores.
  \<^item> \<open>Sys_Entry\<close> (\<open>wrapper.S\<close>): the entry of the system calls, and the events each call stands for.
    \<open>Descriptors\<close> (\<open>x86_desc.h\<close>), \<open>Idt\<close> (\<open>idt.c\<close>): gates and exception handlers.
  \<^item> \<open>Tss\<close> (\<open>x86_desc.h\<close>): the task state segment in bytes, from which the processor takes the kernel
    stack that \<open>execute\<close> has set. \<open>Sched\<close> (\<open>sched.c\<close>): the scheduler, which the kernel does not call. \<open>Boot\<close>, \<open>Boot_Report\<close>,
    \<open>Boot_Shell\<close> (\<open>kernel.c\<close>): the entry point, its report on a well-formed Multiboot structure, up to the shell. \<open>Start\<close> (\<open>boot.S\<close>, \<open>x86_desc.S\<close>): the first instructions,
    the descriptor tables they load, and what the selectors select in them. \<open>Entry_Frame\<close>
    (\<open>wrapper.S\<close>, \<open>handlers.S\<close>): the registers of the interrupted program in the assembly wrappers.
  \<^item> \<open>Sample_State\<close>, \<open>Sample_Program\<close>, \<open>Sample_Sched\<close>: concrete states, devices and file system images on
    which the properties are applied.

  \<^bold>\<open>Interfaces.\<close> \<open>byte_buffer\<close> (\<open>Lib_Str\<close>) is a buffer that is written by index, interpreted on kernel
  arrays and on user memory behind the page tables; \<open>fs_reader\<close> extends it with an image and proves
  \<open>read_data\<close> once for both. \<open>char_output\<close> (\<open>Console\<close>) is a character sink that stays on the screen,
  interpreted on \<open>term_putc\<close> and \<open>putc\<close>. \<open>irq_controller\<close> (\<open>I8259\<close>) is a set of unmasked lines,
  \<open>fd_store\<close> (\<open>Fd_Table\<close>) a table of descriptors, \<open>link_store\<close> (\<open>Sched\<close>) a heap of links.

  \<^bold>\<open>Abstract specifications.\<close> The screen is a teletype \<open>tty\<close> (\<open>shows_tty\<close>); the line buffer with the
  modifier keys is an \<open>editor\<close> (\<open>ed_step\<close>); the processes are a stack of numbers per terminal
  (\<open>process_table\<close>, \<open>table_step\<close>); the scheduler's heap is two lists (\<open>queues\<close>); a file is a function
  from positions to bytes (\<open>file_byte\<close>); an address space is \<open>space\<close>. Each comes with a simulation.

  \<^bold>\<open>Bounds and fuel.\<close> Words have the width of the source and wrap around. The two
  loops over the Multiboot information get \<open>2 ^ 32\<close> rounds of fuel, more than their 32-bit
  counters and pointers can make without repeating (\<open>report_ends\<close>: they end on a
  well-formed structure); \<open>shell_loop\<close> takes fuel as an argument, and one round is enough
  when the shell exists. The walk along a queue is a partial function that is \<open>None\<close> on a
  cycle. The rate loop of the clock returns the error for a loop that does not end where its argument
  would make it run for ever. Local variables that the source does not initialise are arguments
  (\<open>frame\<close>, \<open>garbage\<close>, \<open>junk\<close>).

  \<^bold>\<open>Not modelled.\<close> The variables of the kernel are not bytes of one memory: the
  PCBs, the descriptor tables and the state of the drivers are fields of the record, so a store of a
  program to the kernel's memory through a pointer it passes to a call does not reach them; the
  properties of runs ask for buffers of \<open>read\<close> and \<open>getargs\<close> in the program's own page
  (\<open>own_buffer\<close>), with which no call stores there (\<open>system_calls_keep_other_pages\<close>). A longer
  \<open>getargs\<close> than the argument array is the error for an access outside an array. The addresses of
  symbols are the records \<open>symbols\<close>, \<open>boot_labels\<close> and
  \<open>layout\<close>. The registers of the program are in \<open>Entry_Frame\<close> only; what
  programs compute is not modelled. The stack switch at the end of \<open>terminal_switch\<close>,
  \<open>execute\<close> and \<open>halt\<close> ends the model of the call: the result says where
  the processor goes on. The state keeps the fields of the task state segment that the kernel sets.
  The rest of \<open>src/\<close> that no definition covers is prototypes, includes, comments and
  code that is commented out; \<open>debug.h\<close> holds macros that the kernel does not use.
\<close>

text \<open>C1. 
  From the state in which it is loaded (no process, cleared memory where the PCBs will be), every run of
  the kernel is a run of the abstract process table, in which starting a process pushes the lowest free
  number on a terminal's stack and ending it pops that stack. A run is any sequence of system calls of
  the running programs, with any arguments, and of keyboard, clock and timer interrupts; terminals are
  switched at any point, also while a read waits, which is two events with interrupts between them. A
  run goes on as long as no step faults. The one condition is that the buffers given to
  \<open>read\<close> and \<open>getargs\<close>, which store there without a check, begin in the
  program's own page: a program that lets the kernel overwrite its own tables is not covered. In every
  state of such a run the counters, the slots in use, the current PCB of each terminal and the parent
  pointers agree with the table, and at most six processes live.
\<close>

theorem kernel_run_refines_process_table:
  assumes "booted s" and "kernel_run L es s s'" and "\<forall>e \<in> set es. own_buffer e"
  shows "\<exists>S. table_step\<^sup>*\<^sup>* (\<lambda>_. []) S \<and> process_table s' S \<and> total_count s' \<le> int MAX_PROCESSES"
proof -
  obtain S where S: "table_step\<^sup>*\<^sup>* (\<lambda>_. []) S" "process_table s' S"
    using kernel_run_simulates [OF assms(2) booted_table [OF assms(1)]] by blast
  have "length (live S) \<le> MAX_PROCESSES" by (rule live_bound [OF process_tableD(1) [OF S(2)]])
  then show ?thesis using S process_tableD(4) [OF S(2)] by auto
qed

lemma kernel_run_refines_process_table_witness:
  "\<exists>s' S. kernel_run sample_layout [Execute prog_frame 0x610000] prog_kernel s' \<and>
    table_step\<^sup>*\<^sup>* (\<lambda>_. []) S \<and> process_table s' S \<and> total_count s' = 1"
proof -
  obtain p s' e where s': "execute sample_layout prog_frame 0x610000 prog_kernel = Ok (Enters e, s')"
    "process_table s' (push 0 p (\<lambda>_. []))"
    using execute_starts [OF prog_booted _ prog_frame_ok prog_can_start] by (auto simp: live_def)
  have run: "kernel_run sample_layout [Execute prog_frame 0x610000] prog_kernel s'"
    by (rule run_one [OF step_execute [OF prog_frame_ok s'(1)]])
  moreover have "\<exists>S. table_step\<^sup>*\<^sup>* (\<lambda>_. []) S \<and> process_table s' S \<and> total_count s' \<le> int MAX_PROCESSES"
    by (rule kernel_run_refines_process_table [OF prog_is_booted run]) simp
  moreover have "total_count s' = 1"
    using process_tableD(4) [OF s'(2)] by (simp add: live_def push_def)
  ultimately show ?thesis by blast
qed

text \<open>C2. 
  In every state that a run of the kernel reaches, by any sequence of system calls, interrupts and
  terminal switches in which the buffers of \<open>read\<close> and \<open>getargs\<close> begin in the
  program's own page, each process slot in use holds a well-formed PCB: its own number, 128 bytes of
  arguments, and a descriptor table of eight entries, standard input and output in the first two, each
  of the others either free or marked as used with a jump table that is not null. (A buffer elsewhere
  could lie over a PCB: the calls do not check it.)
\<close>

theorem kernel_run_keeps_slots_typed:
  assumes "booted s" and "kernel_run L es s s'" and "\<forall>e \<in> set es. own_buffer e"
    and "p < MAX_PROCESSES" and "memoryspace s' p \<noteq> 0"
  shows "table_ok (file_desc (pcbs s' (slot_loc p))) \<and> pid (pcbs s' (slot_loc p)) = of_nat p \<and>
    length (args (pcbs s' (slot_loc p))) = ARG_SIZE"
proof -
  obtain S where "process_table s' S"
    using kernel_run_simulates [OF assms(2) booted_table [OF assms(1)]] by blast
  from slot_contents [OF this assms(4,5)] show ?thesis by blast
qed

lemma kernel_run_keeps_slots_typed_witness:
  "\<exists>p s'. kernel_run sample_layout [Execute prog_frame 0x610000] prog_kernel s' \<and>
    p < MAX_PROCESSES \<and> memoryspace s' p \<noteq> 0 \<and> table_ok (file_desc (pcbs s' (slot_loc p)))"
proof -
  obtain p s' e where s': "execute sample_layout prog_frame 0x610000 prog_kernel = Ok (Enters e, s')"
    "process_table s' (push 0 p (\<lambda>_. []))" "p < MAX_PROCESSES"
    using execute_starts [OF prog_booted _ prog_frame_ok prog_can_start] by (auto simp: live_def)
  have run: "kernel_run sample_layout [Execute prog_frame 0x610000] prog_kernel s'"
    by (rule run_one [OF step_execute [OF prog_frame_ok s'(1)]])
  have "p \<in> set (live (push 0 p (\<lambda>_. [])))" by (simp add: live_def push_def)
  then have used: "memoryspace s' p \<noteq> 0" using process_tableD(5) [OF s'(2,3)] by simp
  then have "table_ok (file_desc (pcbs s' (slot_loc p)))"
    using kernel_run_keeps_slots_typed [OF prog_is_booted run _ s'(3)] by simp
  with run used s'(3) show ?thesis by blast
qed

text \<open>C3. 
  From the state the boot loader leaves (paging off, no process, cleared page tables, cursors and memory
  where the PCBs will be, two interrupt controllers that behave as documented, the Multiboot values in
  \<open>eax\<close> and \<open>ebx\<close>; a Multiboot structure that announces its modules and any of
  memory sizes, boot device, command line of one line, section table or symbol table, and memory map,
  each well-formed; the file system, with the program that the command for the shell names, as first
  module; and all of this between 4KB and 8MB, outside the text window and the last bytes below 8MB,
  where the stack begins), the kernel goes from its first instruction to the loop at the end of its
  entry point, in a state that is ready, and the first round of that loop enters the shell: it is
  process 0 on the terminal's stack, its file is in memory at \<open>PROGADDR\<close>, and user mode is
  entered at the address in its header.
\<close>

theorem boot_starts_shell:
  assumes "loaded L A M s" and "layout_ok L" and "boot_info A M mbi" and "\<forall>i. 64 \<le> length (junk i)"
    and "program_in A M (module_start M mbi) (shell_name y) c n m k" and "frame_ok f"
    and "\<forall>a \<in> A. a < 0x7FFFF4"
    and "bt = module_start M mbi" and "ino = dentry_inode (entry M bt k)"
  shows "\<exists>s' s''. start L y b junk d1 d2 MULTIBOOT_BOOTLOADER_MAGIC mbi s = Ok (True, s') \<and>
    kernel_ready L y s' \<and>
    shell_loop 1 L f (shell_name y) s' = Ok (entry_point M bt (data_start M bt) ino, s'') \<and>
    process_table s'' ((\<lambda>_. [])(current_terminal s' := [0])) \<and>
    started L M 0 ino (\<lambda>j. c (n + 1 + j)) (m - n - 1) s' s''"
  using start_boots [OF assms(1-7)] unfolding assms(8,9) by blast

lemma boot_starts_shell_witness:
  "\<exists>s' s''. start sample_layout boot_symbols sample_labels (\<lambda>_. replicate 64 0) zero_seg zero_seg
      MULTIBOOT_BOOTLOADER_MAGIC 0x611100 boot_cpu = Ok (True, s') \<and>
    shell_loop 1 sample_layout prog_frame 0x610000 s' = Ok (0x08048054, s'')"
proof -
  have "program_in prog_area prog_memory (module_start prog_memory 0x611100) (shell_name boot_symbols) prog_command 1 4 0"
    using boot_program by (simp add: boot_module boot_symbols_def)
  moreover have "shell_name boot_symbols = 0x610000" by (simp add: boot_symbols_def)
  moreover have "dentry_inode (entry prog_memory 0x600000 0) = 0" unfolding prog_entry by code_simp
  ultimately show ?thesis
    using boot_starts_shell [OF boot_cpu_loaded sample_layout_ok boot_info boot_junk _ prog_frame_ok
        boot_area_below refl refl, of boot_symbols prog_command 1 4 0 sample_labels zero_seg zero_seg]
      prog_entry_point boot_module
    by auto
qed

text \<open>C4. 
  With a process slot free, a command that names a program of the file system starts it: the lowest free
  process number is pushed on the terminal's stack, the whole file is in memory at
  \<open>PROGADDR\<close> in the new address space, the rest of the command is in the PCB, interrupts
  are on, the kernel stack of the process is set, and user mode is entered at the address in the file's
  header.
\<close>

theorem execute_starts_program:
  assumes "process_table s S" and "length (live S) < MAX_PROCESSES" and "frame_ok f"
    and "can_start L A M command c n m k s"
    and "ino = dentry_inode (entry M (boot s) k)"
  shows "\<exists>p s'. execute L f command s = Ok (Enters (entry_point M (boot s) (data s) ino), s') \<and>
    p < MAX_PROCESSES \<and> p \<notin> set (live S) \<and> (\<forall>j < p. j \<in> set (live S)) \<and>
    process_table s' (push (current_terminal s) p S) \<and> started L M p ino (\<lambda>j. c (n + 1 + j)) (m - n - 1) s s'"
  using execute_starts [OF assms(1-4)] assms(5) by blast

lemma execute_starts_program_witness:
  "\<exists>p s'. execute sample_layout prog_frame 0x610000 prog_kernel = Ok (Enters 0x08048054, s') \<and>
    p < MAX_PROCESSES \<and> process_table s' (push 0 p (\<lambda>_. [])) \<and>
    started sample_layout prog_memory p 0 (\<lambda>j. prog_command (1 + 1 + j)) (4 - 1 - 1) prog_kernel s'"
proof -
  have "dentry_inode (entry prog_memory (boot prog_kernel) 0) = 0"
    unfolding prog_fields prog_entry by code_simp
  then show ?thesis
    using execute_starts_program [OF prog_booted _ prog_frame_ok prog_can_start] prog_entry_point
    by (auto simp: live_def)
qed

text \<open>C5. 
  When the process that \<open>execute\<close> started halts, with whatever it did in between that left
  the saved registers and the process table alone, the table is the one before the call, the stack and
  frame pointer and the page directory are the caller's, and the caller gets the status, except that a
  positive status is returned as 0.
\<close>

theorem halt_returns_to_caller:
  assumes "process_table s S" and "frame_ok f" and "execute L f command s = Ok (Enters e, s')"
    and "same_return s' u"
  shows "\<exists>u1 u2. halt c u = Ok u1 \<and> halt_ret u1 = Ok (if sint c > 0 then 0 else sint c, u2) \<and>
    process_table u2 S \<and> current_terminal u2 = current_terminal s \<and>
    ebp u2 = ebp s \<and> esp u2 = esp s \<and> cr3 u2 = cr3 s"
  by (rule execute_halt [OF assms])

lemma halt_returns_to_caller_witness:
  "\<exists>s' u1 u2. execute sample_layout prog_frame 0x610000 prog_kernel = Ok (Enters 0x08048054, s') \<and>
    halt 0xFF s' = Ok u1 \<and> halt_ret u1 = Ok (-1, u2) \<and> process_table u2 (\<lambda>_. []) \<and> cr3 u2 = 0x7000"
proof -
  have "dentry_inode (entry prog_memory (boot prog_kernel) 0) = 0"
    unfolding prog_fields prog_entry by code_simp
  then obtain s' where s': "execute sample_layout prog_frame 0x610000 prog_kernel = Ok (Enters 0x08048054, s')"
    using execute_starts [OF prog_booted _ prog_frame_ok prog_can_start] prog_entry_point by (auto simp: live_def)
  have "cr3 prog_kernel = 0x7000" by (simp add: prog_kernel_def)
  then show ?thesis
    using halt_returns_to_caller [OF prog_booted prog_frame_ok s' same_return_refl, where c = "0xFF"] s' by auto
qed

text \<open>C6. 
  The keyboard handler implements the line editor: in every state the driver can be in, handling a key
  that does not switch terminals and does not run over a full line succeeds, keeps the driver's
  invariant, leaves the other terminals alone and takes the abstract editor one step; ENTER while no
  read waits on the terminal clears the line instead.
\<close>

theorem keyboard_handler_refines_editor:
  assumes "kbd_ok s" and "ed_enabled (scancode_of s) (editor_of s)"
  shows "\<exists>s'. keyboard_handler s = Ok (SameTerminal, s') \<and> kbd_ok s' \<and> same_line s s' \<and>
    editor_of s' = (if scancode_of s = KEY_ENTER \<and> read_flag s (current_terminal s) = OFF
      then (editor_of s)\<lparr>ed_line := []\<rparr> else ed_step (scancode_of s) (editor_of s))"
  using assms by (rule editor_step_any)

lemma keyboard_handler_refines_editor_witness:
  "\<exists>s'. keyboard_handler (sample_kernel (\<lambda>_. 0) (sample_keys [KEY_A])) = Ok (SameTerminal, s') \<and>
    kbd_ok s' \<and> same_line (sample_kernel (\<lambda>_. 0) (sample_keys [KEY_A])) s' \<and>
    ed_line (editor_of s') = [0x61]"
proof -
  let ?s = "sample_kernel (\<lambda>_. 0) (sample_keys [KEY_A])"
  let ?e = "\<lparr>ed_alt = False, ed_shift = False, ed_ctrl = False, ed_caps = False, ed_line = []\<rparr>"
  have e: "editor_of ?s = ?e"
    by (simp add: editor_of_def line_def)
  have k: "scancode_of ?s = KEY_A"
    using scancode_device [of "[KEY_A]" ?s] sample_keys_device by (simp add: kb_reads_def)
  have run: "ed_enabled KEY_A ?e" "ed_line (ed_step KEY_A ?e) = [0x61]" by code_simp+
  show ?thesis
    using keyboard_handler_refines_editor [of ?s, unfolded k e, OF _ run(1)] run(2) by auto
qed

text \<open>C7. 
  Reading a line. A program reads into a mapped, non-null buffer on a terminal whose line, so far, has
  no newline in it; then keyboard interrupts arrive, one for each key up to and including the first
  ENTER, and no key among them switches the terminal or runs over the line of 128 characters. Then
  \<open>terminal_read\<close> returns once ENTER is handled. If the buffer is at least as long as the
  edited line with its newline, it holds that line, padded with zeros, the result is the length of the
  line, and the line buffer is empty again.
\<close>

theorem terminal_read_delivers_line:
  assumes "kbd_ok s" and "keyboard_device ks (dev s)"
    and "drop (kb_reads s) ks = us @ KEY_ENTER # vs" and "KEY_ENTER \<notin> set us"
    and "all_enabled (us @ [KEY_ENTER]) (editor_of s)"
    and "CH_NEWLINE \<notin> set (ed_line (editor_of s))"
    and "buf \<noteq> 0" and "mapped buf n s"
    and "L = ed_line (fold ed_step us (editor_of s)) @ [CH_NEWLINE]" and "length L \<le> n"
  shows "\<exists>s'. terminal_read (replicate (Suc (length us)) key_irq) buf (int n) s = Ok (int (length L), s') \<and>
    (\<forall>i < n. ld (buf + of_nat i) s' = Ok (if i < length L then L ! i else 0)) \<and>
    line (current_terminal s) s' = [] \<and> current_terminal s' = current_terminal s"
  using terminal_read_line [OF assms(1-8)] assms(9,10) by blast

lemma terminal_read_delivers_line_witness:
  "\<exists>s'. terminal_read (replicate 5 key_irq) 0x100000 8
      (sample_kernel (\<lambda>_. 0) (sample_keys [KEY_H, KEY_J, KEY_BACKSPACE, KEY_I, KEY_ENTER])) = Ok (3, s') \<and>
    (\<forall>i < 8. ld (0x100000 + of_nat i) s' = Ok (if i < 3 then [0x68, 0x69, 0x0A] ! i else 0)) \<and>
    line 0 s' = [] \<and> current_terminal s' = 0"
proof -
  let ?us = "[KEY_H, KEY_J, KEY_BACKSPACE, KEY_I]"
  let ?s = "sample_kernel (\<lambda>_. 0) (sample_keys (?us @ [KEY_ENTER]))"
  let ?e = "\<lparr>ed_alt = False, ed_shift = False, ed_ctrl = False, ed_caps = False, ed_line = []\<rparr>"
  have e: "editor_of ?s = ?e" by (simp add: editor_of_def line_def)
  have run: "ed_line (fold ed_step ?us ?e) = [0x68, 0x69]" "all_enabled (?us @ [KEY_ENTER]) ?e"
    by code_simp+
  have "\<exists>s'. terminal_read (replicate (Suc (length ?us)) key_irq) 0x100000 (int 8) ?s =
      Ok (int (length [0x68, 0x69, CH_NEWLINE]), s') \<and>
    (\<forall>i < 8. ld (0x100000 + of_nat i) s' =
      Ok (if i < length [0x68, 0x69, CH_NEWLINE] then [0x68, 0x69, CH_NEWLINE] ! i else 0)) \<and>
    line (current_terminal ?s) s' = [] \<and> current_terminal s' = current_terminal ?s"
    by (rule terminal_read_delivers_line [where us = ?us and vs = "[]" and ks = "?us @ [KEY_ENTER]"])
      (use e run in \<open>simp_all add: sample_keys_device kb_reads_def del: fold_simps all_enabled.simps\<close>)
  then show ?thesis by (simp add: eval_nat_numeral)
qed

text \<open>C8. 
  Isolation of programs, from the entry point on. After any sequence of system calls, interrupts and
  terminal switches that follows the initialisation, new and ended processes included, in which the
  buffers of \<open>read\<close> and \<open>getargs\<close> begin in the program's own page (those calls
  check no pointer, and a buffer over the page tables would break the isolation): through the page
  directory that its PCB resumes it with, every live process reaches in user mode exactly its own 4MB of
  physical memory, at 128MB, and the text screen, at 136MB; and the directory that is loaded while it is
  the current process is that one.
\<close>

theorem kernel_run_isolates_processes:
  assumes "kernel_entry L y junk d1 d2 magic mbi s0 = Ok (True, s)" and "layout_ok L"
    and "tables_clear L (tabs s0)" and "booted s0" and "pic_device (dev s0)"
    and "kernel_run L es s s'" and "\<forall>e \<in> set es. own_buffer e"
    and "p < MAX_PROCESSES" and "memoryspace s' p \<noteq> 0"
  shows "user_walk (tabs s') (curr_pd (pcbs s' (slot_loc p))) a =
      (if 0x08000000 \<le> a \<and> a < 0x08400000 then Some (user_page p + (a - 0x08000000))
       else if 0x08800000 \<le> a \<and> a < 0x08801000 then Some (VIDMEM + (a - 0x08800000))
       else None) \<and>
    (0 < prog_count s' (current_terminal s') \<and> cur_loc s' = slot_loc p \<longrightarrow>
      cr3 s' = curr_pd (pcbs s' (slot_loc p)))"
proof -
  have ready: "process_table s (\<lambda>_. [])" "tables_clear L (tabs s)" "paging_on s"
    using kernel_entry_ready(1) [OF assms(1-5)] by (simp_all add: kernel_ready_def)
  obtain S where S: "process_table s' S" "isolated L s' S"
    using kernel_run_isolated [OF assms(6) ready(1) assms(2) ready(2,3)] .
  show ?thesis
    using live_process_reach [OF S assms(2,8,9)] by simp
qed

lemma kernel_run_isolates_processes_witness:
  "\<exists>s s'. kernel_entry sample_layout boot_symbols (\<lambda>_. replicate 64 0) zero_seg zero_seg
      MULTIBOOT_BOOTLOADER_MAGIC 0x611100 boot_kernel = Ok (True, s) \<and>
    kernel_run sample_layout [Execute prog_frame (shell_name boot_symbols)] s s' \<and>
    user_walk (tabs s') (curr_pd (pcbs s' (slot_loc 0))) 0x08048000 = Some 0x00848000"
proof -
  have P: "program_in prog_area prog_memory (module_start prog_memory 0x611100) (shell_name boot_symbols) prog_command 1 4 0"
    using boot_program by (simp add: boot_module boot_symbols_def)
  obtain s s' where s: "kernel_entry sample_layout boot_symbols (\<lambda>_. replicate 64 0) zero_seg zero_seg
      MULTIBOOT_BOOTLOADER_MAGIC 0x611100 boot_kernel = Ok (True, s)"
    and step: "kernel_step sample_layout (Execute prog_frame (shell_name boot_symbols)) s s'"
    and table: "process_table s' ((\<lambda>_. [])(current_terminal s := [0]))"
    using boot_steps [OF boot_loaded sample_layout_ok boot_info boot_junk P prog_frame_ok] by metis
  note run = run_one [OF step]
  have "current_terminal s < 3" using process_tableD(1) [OF table] unfolding stacks_ok_def
    by (metis fun_upd_same list.distinct(1) not_le)
  then have "memoryspace s' 0 \<noteq> 0"
    using process_tableD(5) [OF table, of 0] less_3_cases [of "current_terminal s"] by (auto simp: live_def)
  then have "user_walk (tabs s') (curr_pd (pcbs s' (slot_loc 0))) 0x08048000 = Some (user_page 0 + 0x48000)"
    using kernel_run_isolates_processes [OF s sample_layout_ok _ _ _ run, of 0 "0x08048000"]
      boot_loaded unfolding loaded_def by simp
  then show ?thesis using s run by (auto simp: user_page_def)
qed



text \<open>C10. 
  Whenever the kernel gets from its first instruction to the loop at the end of its entry point,
  whatever the Multiboot structure holds: paging is on in the kernel's page directory, the first 8MB are
  mapped to themselves except page 0, no process exists, exactly the lines of the keyboard, the slave
  controller and the clock are unmasked, interrupts are enabled, the descriptor table is the one of
  \<open>setup_exceptions\<close>, and the selectors of the kernel and of the programs select what they
  should in the table the processor uses: flat code and data segments of both privilege levels, the task
  state segment and the local table.
\<close>

theorem boot_leaves_kernel_ready:
  assumes "start L y b junk d1 d2 magic mbi s = Ok (True, s')" and "\<not> bit (cr0 s) 31"
    and "layout_ok L" and "tables_clear L (tabs s)" and "booted s" and "pic_device (dev s)" and "linked y"
  shows "paging_on s' \<and> cr3 s' = page_directory L \<and>
    (\<forall>a < 0x00800000. translate s' a = (if a < 0x1000 then None else Some a)) \<and>
    process_table s' (\<lambda>_. []) \<and> segments_ok y s' \<and> unmasked s' = {1, 2, 8} \<and> bit (eflags s') 9 \<and>
    idt s' = setup_exceptions (wrapper_addr y) (idt s) \<and> gdtr s' = gdt_desc b \<and>
    idtr s' = idt_desc_reg b \<and> selectors_ok y s'"
  using start_ready(1-4) [OF assms(1-6)] start_ready(6) [OF assms] by (simp add: kernel_ready_def)

lemma boot_leaves_kernel_ready_witness:
  "\<exists>s'. start sample_layout boot_symbols sample_labels (\<lambda>_. replicate 64 0) zero_seg zero_seg
      MULTIBOOT_BOOTLOADER_MAGIC 0x611100 boot_cpu = Ok (True, s') \<and>
    unmasked s' = {1, 2, 8} \<and> selectors_ok boot_symbols s'"
proof -
  have off: "\<not> bit (cr0 boot_cpu) 31" using boot_cpu_loaded by (simp add: loaded_def)
  obtain s' where "start sample_layout boot_symbols sample_labels (\<lambda>_. replicate 64 0) zero_seg zero_seg
      MULTIBOOT_BOOTLOADER_MAGIC 0x611100 boot_cpu = Ok (True, s')"
    using kernel_entry_succeeds [OF entered_loaded [OF boot_cpu_loaded boot_area_below] sample_layout_ok
        boot_info boot_junk] start_enters [OF off] by metis
  then show ?thesis
    using boot_leaves_kernel_ready [OF _ off sample_layout_ok _ _ _ boot_linked] boot_cpu_loaded
    unfolding loaded_def by blast
qed

text \<open>C11. 
  Opening a file by name and reading from the descriptor it returns delivers the beginning of that file:
  the name lookup, the descriptor table, the dispatch through the jump table and the walk over the data
  blocks compose.
\<close>

theorem read_of_opened_file:
  assumes "fds_ok s" and "opens filename s (Some d)" and "dentry_type d = 2" and "first_free (fds s) 2 k"
    and "has_image A M s" and "apart A buf n s" and "mapped buf n s" and "buf \<noteq> 0"
    and "file_in A M (boot s) (data s) (dentry_inode d)"
    and "0 < n" and "n < 2 ^ 31" and "n \<le> unat (file_length M (boot s) (dentry_inode d))"
  shows "\<exists>s'. bindE (sys_open g filename s) (\<lambda>(fd, s). sys_read irqs fd buf (int n) s) = Ok (int n, s') \<and>
    (\<forall>i < n. ld (buf + of_nat i) s' = Ok (file_byte M (boot s) (data s) (dentry_inode d) i))"
  by (rule open_read [OF assms])

lemma read_of_opened_file_witness:
  "\<exists>s'. bindE (sys_open 99 0x40 file_kernel) (\<lambda>(fd, s). sys_read [] fd 0x100000 (int 3) s) = Ok (3, s') \<and>
    ld 0x100000 s' = Ok 0x61"
proof -
  have A: "apart sample_area 0x100000 3 file_kernel"
    by (auto simp: apart_def sample_area_def word_less_nat_alt unat_word_ariths unat_of_nat_u32)
  have B: "file_byte sample_image 0 0x2000 0 0 = 0x61" by code_simp
  have "\<exists>s'. bindE (sys_open 99 0x40 file_kernel) (\<lambda>(fd, s). sys_read [] fd 0x100000 (int 3) s) = Ok (int 3, s') \<and>
    (\<forall>i < 3. ld (0x100000 + of_nat i) s' = Ok (file_byte sample_image 0 0x2000 0 i))"
    using read_of_opened_file [OF sample_fds(3) sample_opens sample_dentry_fields(1) _ sample_holds A, of 2 99 "[]"]
      sample_first_free sample_file by (simp add: sample_fds sample_dentry_fields)
  then obtain s' where "bindE (sys_open 99 0x40 file_kernel) (\<lambda>(fd, s). sys_read [] fd 0x100000 (int 3) s) = Ok (int 3, s')"
    "\<forall>i < 3. ld (0x100000 + of_nat i) s' = Ok (file_byte sample_image 0 0x2000 0 i)" by blast
  then show ?thesis using spec [of "\<lambda>i. i < 3 \<longrightarrow> ld (0x100000 + of_nat i) s' = Ok (file_byte sample_image 0 0x2000 0 i)" 0] B
    by (intro exI [of _ s']) simp
qed



text \<open>C13. 
  The entry of the system calls. Whatever the number and the other registers of the running program are,
  a system call that returns to some program is the run of the kernel that its number stands for, with
  the arguments from \<open>ebx\<close>, \<open>ecx\<close> and \<open>edx\<close>: one event (1
  \<open>halt\<close>, 2 \<open>execute\<close>, 3 \<open>read\<close>, 4 \<open>write\<close>, 5
  \<open>open\<close>, 6 \<open>close\<close>, 7 \<open>getargs\<close>, 8 \<open>vidmap\<close>), none
  (9 and 10), or, when a read waits, the two parts of the read around interrupts that arrived; a number
  outside 1 to 10 is refused with \<open>-1\<close> and changes nothing. The interrupts during a wait
  are those that do not switch terminals: a switch does not come back to the call, but goes on with
  another process.
\<close>

theorem system_calls_step_kernel:
  assumes "running s" and "frame_ok f" and "sys_call L f g (map staying_irq is) R s = Ok (e, s')"
  shows "(\<exists>es. call_events f g is R es \<and> kernel_run L es s s') \<and>
    (unat (reg_eax R) \<in> {1..10} \<or> e = Back (-1) \<and> s' = s)"
proof -
  have "unat (reg_eax R) \<in> {1..10} \<or> reg_eax R = 0 \<or> reg_eax R > 10"
  proof (cases "reg_eax R = 0 \<or> reg_eax R > 10")
    case False
    then have "unat (reg_eax R) \<noteq> 0" "unat (reg_eax R) \<le> 10"
      by (simp_all add: word_less_nat_alt unat_eq_0)
    then show ?thesis by simp
  qed blast
  moreover have "e = Back (-1) \<and> s' = s" if "reg_eax R = 0 \<or> reg_eax R > 10"
    using assms(3) that by (auto simp: sys_call_def)
  ultimately show ?thesis
    using sys_call_run [OF assms(3,1,2)] by blast
qed

lemma system_calls_step_kernel_witness:
  "\<exists>p s1 s2. execute sample_layout prog_frame 0x610000 prog_kernel = Ok (Enters p, s1) \<and>
    sys_call sample_layout prog_frame 0 [] \<lparr>reg_eax = 7, reg_ebx = PROGADDR, reg_ecx = 0, reg_edx = 0\<rparr> s1 = Ok (Back (-1), s2) \<and>
    kernel_run sample_layout [Getargs PROGADDR 0] s1 s2"
proof -
  obtain p e s1 where s1: "execute sample_layout prog_frame 0x610000 prog_kernel = Ok (Enters e, s1)"
    "process_table s1 (push 0 p (\<lambda>_. []))"
    using execute_starts [OF prog_booted _ prog_frame_ok prog_can_start] by (auto simp: live_def)
  define R where "R = \<lparr>reg_eax = 7, reg_ebx = PROGADDR, reg_ecx = 0, reg_edx = (0 :: u32)\<rparr>"
  have "current_terminal s1 = 0"
    using execute_pushes [OF prog_booted prog_frame_ok s1(1)] by (metis prog_fields(4))
  then have on: "running s1"
    using process_tableD(3) [OF s1(2), of 0] by (simp add: push_def)
  have call: "sys_call sample_layout prog_frame 0 (map staying_irq []) R s1 = Ok (Back (-1), s1)"
    by (simp add: sys_call_def sys_call_table_def R_def goes_back_def getargs_def)
  obtain es where es: "call_events prog_frame 0 [] R es" "kernel_run sample_layout es s1 s1"
    using system_calls_step_kernel [OF on prog_frame_ok call] by blast
  then have "es = [Getargs PROGADDR 0]" by (simp add: call_events_def call_event_def R_def)
  then show ?thesis using s1(1) call es(2) unfolding R_def by auto
qed

text \<open>C14. 
  The assembly wrapper of the system calls equals the system call itself with the registers
  \<open>eax\<close>, \<open>ebx\<close>, \<open>ecx\<close> and \<open>edx\<close> of the program as
  number and arguments, and when the call goes back to the program, its registers, segments and stack
  are what they were, except for the result in \<open>eax\<close>, whatever the C function left in the
  registers and the stack slots that it may use. A wrapper of an exception or a device changes no
  register at all.
\<close>

theorem wrappers_keep_registers:
  "sys_call_wrapper L f g irqs v r s =
     bindE (sys_call L f g irqs (passed r) s) (\<lambda>(e, s').
     Ok (case e of Back n \<Rightarrow> Iret (r\<lparr>general := (general r)(EAX := of_int n)\<rparr>) | _ \<Rightarrow> Leaves e, s')) \<and>
   irq_wrapper v n r = r"
  unfolding wrapper_is_sys_call irq_wrapper_keeps set_reg_def by (intro conjI refl)

text \<open>C15. 
  In every state that a booted kernel reaches by a run in which the buffers of \<open>read\<close> and
  \<open>getargs\<close> begin in the program's page, while a process runs: its \<open>read\<close> of
  descriptor 0 is the terminal's read and its \<open>write\<close> to descriptor 1 the terminal's write;
  reading 1, writing 0 and any descriptor outside 0 to 7 give \<open>-1\<close>; any other descriptor is
  either free, and both give \<open>-1\<close>, or it is in use, and both go to the functions of the
  device that its jump table is for: a file, a directory, the clock or a terminal. No call goes through
  the null pointer.
\<close>

theorem descriptor_calls_dispatch:
  assumes "booted s0" and "kernel_run L es s0 s" and "\<forall>e \<in> set es. own_buffer e" and "running s"
    and "e = fds s ! nat i"
  shows "sys_read irqs 0 buf n s = terminal_read irqs buf n s \<and> sys_write 1 buf n s = terminal_write buf n s \<and>
    sys_read irqs 1 buf n s = Ok (-1, s) \<and> sys_write 0 buf n s = Ok (-1, s) \<and>
    (if i < 0 \<or> 7 < i then sys_read irqs i buf n s = Ok (-1, s) \<and> sys_write i buf n s = Ok (-1, s)
     else i < 2 \<or> flags e = 0 \<and> sys_read irqs i buf n s = Ok (-1, s) \<and> sys_write i buf n s = Ok (-1, s) \<or>
       flags e = 1 \<and>
       (case fops_ptr e of
          FsTable \<Rightarrow> sys_read irqs i buf n s = fs_read i buf n s \<and> sys_write i buf n s = Ok (fs_write, s)
        | DirTable \<Rightarrow> sys_read irqs i buf n s = dir_read i buf n s \<and> sys_write i buf n s = Ok (dir_write, s)
        | RtcTable \<Rightarrow> sys_read irqs i buf n s = rtc_read irqs s \<and> sys_write i buf n s = rtc_write buf s
        | StdinTable \<Rightarrow> sys_read irqs i buf n s = terminal_read irqs buf n s \<and>
            sys_write i buf n s = terminal_write buf n s
        | StdoutTable \<Rightarrow> sys_read irqs i buf n s = terminal_read irqs buf n s \<and>
            sys_write i buf n s = terminal_write buf n s
        | NoTable \<Rightarrow> False))"
proof -
  have ok: "fds_ok s" by (rule run_fds_ok [OF assms(1,2,4)])
  have stdio: "fops_ptr (fds s ! 0) = StdinTable" "fops_ptr (fds s ! Suc 0) = StdoutTable"
    using fds_okD(3) [OF ok] by (simp_all add: table_ok_def)
  then have used: "fds s ! 0 \<noteq> free_fd" "fds s ! Suc 0 \<noteq> free_fd" by (auto simp: free_fd_def)
  have entry: "fd_ok e" if "0 \<le> i" "i \<le> 7"
    using table_ok_nth [OF fds_okD(3) [OF ok], of "nat i"] that assms(5) by simp
  note D = sys_read_dispatch [OF ok] sys_write_dispatch [OF ok]
  have "sys_read irqs 0 buf n s = terminal_read irqs buf n s \<and> sys_write 1 buf n s = terminal_write buf n s \<and>
      sys_read irqs 1 buf n s = Ok (-1, s) \<and> sys_write 0 buf n s = Ok (-1, s)"
    using stdio used by (simp add: D call_read_def call_write_def)
  moreover have "sys_read irqs i buf n s = Ok (-1, s) \<and> sys_write i buf n s = Ok (-1, s)" if "i < 0 \<or> 7 < i"
    using that by (elim disjE) (simp_all add: D)
  moreover have "flags e = 0 \<and> sys_read irqs i buf n s = Ok (-1, s) \<and> sys_write i buf n s = Ok (-1, s)"
    if "e = free_fd" "\<not> i < 2" "\<not> 7 < i"
    using that assms(5) by (simp add: D) (simp add: free_fd_def)
  moreover have "flags e = 1 \<and> fops_ptr e \<noteq> NoTable \<and> sys_read irqs i buf n s = call_read irqs (fops_ptr e) i buf n s \<and>
      sys_write i buf n s = call_write (fops_ptr e) buf n s"
    if "e \<noteq> free_fd" "\<not> i < 2" "\<not> 7 < i"
    using that assms(5) entry by (simp add: D fd_ok_def)
  ultimately show ?thesis
    by (cases "i < 0 \<or> 7 < i"; cases "i < 2"; cases "e = free_fd"; cases "fops_ptr e")
      (simp_all add: call_read_def call_write_def)
qed

lemma descriptor_calls_dispatch_witness:
  "\<exists>s. kernel_run sample_layout [Execute prog_frame 0x610000] prog_kernel s \<and>
    sys_read [] 1 PROGADDR 3 s = Ok (-1, s) \<and> sys_write 1 PROGADDR 3 s = terminal_write PROGADDR 3 s"
proof -
  obtain p e s where s: "execute sample_layout prog_frame 0x610000 prog_kernel = Ok (Enters e, s)"
    "process_table s (push 0 p (\<lambda>_. []))"
    using execute_starts [OF prog_booted _ prog_frame_ok prog_can_start] by (auto simp: live_def)
  have "current_terminal s = 0"
    using execute_pushes [OF prog_booted prog_frame_ok s(1)] by (metis prog_fields(4))
  then have on: "running s"
    using process_tableD(3) [OF s(2), of 0] by (simp add: push_def)
  have run: "kernel_run sample_layout [Execute prog_frame 0x610000] prog_kernel s"
    by (rule run_one [OF step_execute [OF prog_frame_ok s(1)]])
  show ?thesis
    using descriptor_calls_dispatch [OF prog_is_booted run _ on refl, of "[]" PROGADDR 3 0] run by auto
qed

text \<open>C16. 
  Opening an existing file, directory or clock takes the lowest free descriptor from 2 on, sets its jump
  table, inode and position by the type of the entry, changes nothing else except the clock when it is
  the clock, and keeps the descriptor table valid. The clock, when it behaves as documented, then has
  its periodic interrupt on (register B) and its rate bits (the low four of register A) at the slowest
  rate, 2 Hz, with the other bits of both registers kept.
\<close>

theorem open_takes_lowest_descriptor:
  assumes "fds_ok s" and "opens filename s (Some d)" and "dentry_type d \<le> 2" and "first_free (fds s) 2 k"
  shows "sys_open g filename s = Ok (int k, put_fd k (opened d) (device_opened d s)) \<and>
    fds_ok (put_fd k (opened d) (device_opened d s)) \<and>
    (dentry_type d = 0 \<and> rtc_device r0 (dev s) \<longrightarrow>
      rtc_reg r0 STATUS_B (device_opened d s) = take_bit 8 (rtc_reg r0 STATUS_B s) OR INT_ON \<and>
      take_bit 7 (rtc_reg r0 STATUS_A (device_opened d s)) = (take_bit 7 (rtc_reg r0 STATUS_A s) AND 0x70) OR TWO_HZ) \<and>
    (dentry_type d \<noteq> 0 \<longrightarrow> device_opened d s = s)"
  using sys_open_file [OF assms] fds_ok_put [OF device_opened_ok [OF assms(1)] opened_ok, of k d] assms(4)
    rtc_open_regs [of r0 s]
  by (simp add: first_free_def device_opened_def Let_def)

lemma open_takes_lowest_descriptor_witness:
  "\<exists>s'. sys_open 99 0x40 clock_kernel = Ok (2, put_fd 2 (opened clock_dentry) s') \<and>
    rtc_reg (\<lambda>_. 0) STATUS_B s' = INT_ON \<and> take_bit 7 (rtc_reg (\<lambda>_. 0) STATUS_A s') = TWO_HZ"
  using open_takes_lowest_descriptor [OF clock_fds(2) clock_opens, of 2 99 "\<lambda>_. 0"] sample_first_free sample_rtc_device
  by (intro exI [of _ "device_opened clock_dentry clock_kernel"]) (simp add: clock_fds clock_dentry_fields rtc_reg_def rtc_regs_def)

text \<open>C17. 
  Closing the descriptor that opening a file or a directory returned succeeds and restores the whole
  state.
\<close>

theorem open_close_restores:
  assumes "fds_ok s" and "opens filename s (Some d)" and "dentry_type d \<in> {1, 2}"
    and "first_free (fds s) 2 k"
  shows "bindE (sys_open g filename s) (\<lambda>(fd, s). sys_close fd s) = Ok (0, s)"
  by (rule open_close [OF assms])

lemma open_close_restores_witness:
  "bindE (sys_open 99 0x40 file_kernel) (\<lambda>(fd, s). sys_close fd s) = Ok (0, file_kernel)"
  using open_close_restores [OF sample_fds(3) sample_opens, of 2 99] sample_first_free
  by (simp add: sample_fds sample_dentry_fields)

text \<open>C18. 
  Printing a string on the current terminal is printing it on a teletype: 25 visible rows of 80 cells
  and one position, where a newline moves to the next row and the end of the last row scrolls. The
  relation is kept by every string.
\<close>

theorem printk_refines_teletype:
  assumes "shows_tty s T"
  shows "shows_tty (snd (printk str s)) (fold tty_put str T)"
  by (rule printk_tty [OF assms])

lemma printk_refines_teletype_witness:
  "shows_tty (snd (printk [0x61, 0x0A] plain_kernel))
    (fold tty_put [0x61, 0x0A] \<lparr>tty_text = screen_cell plain_kernel, tty_pos = 0\<rparr>)"
  by (rule printk_refines_teletype) (simp add: shows_tty_def on_screen_def cursor_def)

text \<open>C19. 
  Writing up to 128 bytes to a terminal prints them like the abstract terminal, scrolling included, with
  one exception: a newline at the beginning of a row is dropped. The result is one more than the number
  of bytes, and the caller's buffer is as before.
\<close>

theorem terminal_write_prints:
  assumes "shows_tty s T" and "length (writebuffer s (current_terminal s)) = BUFFERSIZE"
    and "text_at buf bs s" and "buf \<noteq> 0" and "length bs \<le> BUFFERSIZE"
  shows "\<exists>s'. terminal_write buf (int (length bs)) s = Ok (int (length bs) + 1, s') \<and>
    shows_tty s' (fold tty_write bs T) \<and> text_at buf bs s'"
  using assms by (rule terminal_write_tty)

lemma terminal_write_prints_witness:
  "\<exists>s'. terminal_write 0x2000 2 (sample_kernel sample_image no_device) = Ok (3, s') \<and>
    shows_tty s' (fold tty_write [0x61, 0x62]
      \<lparr>tty_text = screen_cell (sample_kernel sample_image no_device), tty_pos = 0\<rparr>)"
proof -
  let ?s = "sample_kernel sample_image no_device"
  have "shows_tty ?s \<lparr>tty_text = screen_cell ?s, tty_pos = 0\<rparr>"
    by (simp add: shows_tty_def on_screen_def cursor_def)
  moreover have "text_at 0x2000 [0x61, 0x62] ?s"
    by (auto simp: text_at_def less_Suc_eq screen_region_def sample_image_def)
  moreover have "length (writebuffer ?s (current_terminal ?s)) = BUFFERSIZE" by simp
  ultimately show ?thesis
    using terminal_write_prints [of ?s _ "0x2000" "[0x61, 0x62]"] by auto
qed

text \<open>C20. 
  Turning paging on is invisible to the kernel: below 8MB every address means what it meant before,
  except that the first page, which a null pointer would hit, is not mapped.
\<close>

theorem paging_keeps_kernel_addresses:
  assumes "layout_ok L" and "tables_clear L (tabs s)" and "a < 0x00800000"
  shows "translate (paging_init L s) a = (if a < 0x1000 then None else Some a)"
  by (rule paging_init_identity [OF assms])

lemma paging_keeps_kernel_addresses_witness:
  "translate (paging_init sample_layout plain_kernel) 0xB8000 = Some 0xB8000 \<and>
   translate (paging_init sample_layout plain_kernel) 0 = None"
  using paging_keeps_kernel_addresses [of sample_layout plain_kernel "0xB8000"]
    paging_keeps_kernel_addresses [of sample_layout plain_kernel 0]
  by (simp add: sample_layout_ok sample_tables_clear)

text \<open>C21. 
  Reading a file through its descriptor. A read inside the file stores the next \<open>n\<close> bytes
  of the file at the caller's buffer, returns \<open>n\<close>, advances the position by
  \<open>n\<close>, and leaves the file system image and the address space as they were.
\<close>

theorem fs_read_delivers_next_bytes:
  assumes "has_image A M s" and "apart A buf n s" and "mapped buf n s" and "buf \<noteq> 0"
    and "file_in A M (boot s) (data s) (inode_ptr e)"
    and "get_fd fd s = Ok e" and "0 < n" and "n < 2 ^ 31"
    and "unat (file_pos e) + n \<le> unat (file_length M (boot s) (inode_ptr e))"
  shows "\<exists>s'. fs_read fd buf (int n) s = Ok (int n, s') \<and>
    (\<forall>i < n. ld (buf + of_nat i) s' =
      Ok (file_byte M (boot s) (data s) (inode_ptr e) (unat (file_pos e) + i))) \<and>
    get_fd fd s' = Ok (e\<lparr>file_pos := file_pos e + of_nat n\<rparr>) \<and>
    has_image A M s' \<and> translate s' = translate s \<and> boot s' = boot s \<and> data s' = data s"
  by (rule fs_read_bytes [OF assms])

lemma fs_read_delivers_next_bytes_witness:
  "\<exists>s'. fs_read 2 0x100000 2 (sample_kernel sample_image no_device) = Ok (2, s') \<and>
    (\<forall>i < 2. ld (0x100000 + of_nat i) s' = Ok ([0x61, 0x62] ! i)) \<and>
    get_fd 2 s' = Ok (free_fd\<lparr>file_pos := 2\<rparr>)"
proof -
  let ?s = "sample_kernel sample_image no_device"
  have fd: "get_fd 2 ?s = Ok free_fd"
    by (simp add: get_fd_def cur_pcb_def get_pcb_def cur_loc_def sample_pcb_def stdio_fds_def)
  have ap: "apart sample_area 0x100000 2 ?s"
    by (auto simp: apart_def sample_area_def less_2_cases_iff)
  have bytes: "file_byte sample_image 0 0x2000 0 0 = 0x61" "file_byte sample_image 0 0x2000 0 1 = 0x62"
    by (simp_all add: file_byte_def file_addr_def sample_block data_at_def sample_image_def)
  show ?thesis
    using fs_read_delivers_next_bytes [of sample_area sample_image ?s "0x100000" 2 free_fd 2]
      sample_holds sample_file ap fd bytes
    by (auto simp: free_fd_def less_2_cases_iff)
qed

text \<open>C22. 
  A read from the beginning that asks for more bytes than the file has delivers the file, byte by byte
  through its block table, and returns its length.
\<close>

theorem read_data_reads_whole_file:
  fixes l :: loader
  assumes "\<forall>a \<in> A. l a = Ok (M a)" and "header_in A bt ino" and "ino \<le> MAX_DATA_NUM"
    and "file_length M bt ino < len"
    and "\<forall>q < unat (file_length M bt ino). stored M A bt dt ino q"
    and "length b = unat (file_length M bt ino)"
  shows "read_data (\<lambda>_. l) arr_wr False bt dt ino 0 len b =
    Ok (sint (file_length M bt ino), map (file_byte M bt dt ino) [0..<unat (file_length M bt ino)])"
proof -
  have "arr_fs.holds l b A M" using assms(1) by (simp add: arr_fs.holds_def)
  from arr_fs.read_data_whole [OF this assms(2-5)] assms(6) show ?thesis
    by (auto simp: arr_writes_list)
qed

lemma read_data_reads_whole_file_witness:
  "read_data (\<lambda>_ a. Ok (sample_image a)) arr_wr False 0 0x2000 0 0 10 [0, 0, 0] = Ok (3, [0x61, 0x62, 0x63])"
proof -
  have "header_in sample_area 0 0" using sample_file by (simp add: file_in_def)
  moreover have "map (file_byte sample_image 0 0x2000 0) [0..<3] = [0x61, 0x62, 0x63]"
    by (simp add: file_byte_def file_addr_def sample_block data_at_def sample_image_def upt_conv_Cons)
  ultimately show ?thesis
    using read_data_reads_whole_file [of sample_area "\<lambda>a. Ok (sample_image a)" sample_image 0 0 10 "0x2000" "[0, 0, 0]"]
      sample_stored
    by simp
qed

text \<open>C23. 
  Looking up a name that the directory contains succeeds, and the dentry of the caller becomes an exact
  copy of the first entry with that name. Names are compared up to 31 characters.
\<close>

theorem lookup_finds_first_entry:
  assumes "\<forall>i < MAX_FILES. entry_ok l M bt i" and "reads_name fname (NAME_SIZE - 1) f"
    and "k < MAX_FILES" and "entry_name M bt k = cstr f (NAME_SIZE - 1)"
    and "\<forall>j < k. entry_name M bt j \<noteq> cstr f (NAME_SIZE - 1)"
  shows "read_dentry_by_name l bt fname = Ok (0, Some (entry M bt k))"
  by (rule read_dentry_by_name_found [OF assms])

lemma lookup_finds_first_entry_witness:
  "read_dentry_by_name (\<lambda>a. Ok (sample_image a)) 0 (\<lambda>i. Ok (if i = 0 then 0x61 else 0)) =
    Ok (0, Some ((0x61 # replicate 63 0)[32 := 2]))"
proof -
  have "cstr (\<lambda>i. if i = 0 then 0x61 else 0 :: u8) 31 = [0x61]" by code_simp
  then show ?thesis
    using lookup_finds_first_entry [of "\<lambda>a. Ok (sample_image a)" sample_image 0 "\<lambda>i. Ok (if i = 0 then 0x61 else 0)"
        "\<lambda>i. if i = 0 then 0x61 else 0" 0] sample_entry_ok sample_names
    by (simp add: reads_name_def sample_entry)
qed

text \<open>C24. 
  After \<open>setup_exceptions\<close>, the processor finds for each of the twenty exceptions, the
  three devices and the system call a present gate to its wrapper in the kernel's code segment. Only the
  system call can be raised from user mode. The gates of the devices are trap gates, so interrupts stay
  enabled in their handlers; the others are interrupt gates.
\<close>

theorem idt_routes_vectors:
  assumes "vector_wrapper v = Some w"
  shows "routes (setup_exceptions h old v) (h w)
    (if v \<in> {PIT_IDT, KEYBOARD_IDT, RTC_IDT} then TRAP_GATE else INTERRUPT_GATE)
    (if v = SYSCALLS then 3 else 0)"
  using assms by (rule setup_routes)

lemma idt_routes_vectors_witness:
  "routes (setup_exceptions (\<lambda>w. if w = keyboard1 then 0x403000 else 0) (\<lambda>_. zero_gate) KEYBOARD_IDT)
    0x403000 TRAP_GATE 0"
proof -
  have "vector_wrapper KEYBOARD_IDT = Some keyboard1" by (simp add: vector_wrapper_def)
  from idt_routes_vectors [OF this, of "\<lambda>w. if w = keyboard1 then 0x403000 else 0" "\<lambda>_. zero_gate"]
  show ?thesis by simp
qed

text \<open>C25. 
  Each of the twenty exceptions ends the run of the kernel: its handler disables interrupts, prints its
  message, with the faulting address in hexadecimal for a page fault, and loops for ever.
\<close>

theorem exceptions_stop_kernel:
  assumes "v < 20" and "vector_wrapper v = Some w" and "\<forall>i. 64 \<le> length (junk i)"
  shows "call_wrapper L f g irqs R junk cr2 w s = Ok (Stops (exception_screen cr2 w s)) \<and>
    \<not> bit (eflags (exception_screen cr2 w s)) 9"
  using exception_stops [OF assms] exception_screen_masked by blast

lemma exceptions_stop_kernel_witness:
  "call_wrapper sample_layout prog_frame 0 [] \<lparr>reg_eax = 0, reg_ebx = 0, reg_ecx = 0, reg_edx = 0\<rparr>
      (\<lambda>_. replicate 64 0) 0xB1 page_fault1 plain_kernel =
    Ok (Stops (fold putc (bytes_of ''Page-Fault at address: 0xB1'' @ [CH_NEWLINE]) (cli plain_kernel)))"
proof -
  have w: "vector_wrapper 14 = Some page_fault1"
    by (simp add: vector_wrapper_def exception_wrappers_def)
  have "exception_text 0xB1 page_fault1 = bytes_of ''Page-Fault at address: 0xB1'' @ [CH_NEWLINE]" by code_simp
  then have "exception_screen 0xB1 page_fault1 plain_kernel =
      fold putc (bytes_of ''Page-Fault at address: 0xB1'' @ [CH_NEWLINE]) (cli plain_kernel)"
    by (simp only: exception_screen_def if_True refl)
  then show ?thesis
    using exceptions_stop_kernel [OF _ w boot_junk, of sample_layout prog_frame 0 "[]"
      "\<lparr>reg_eax = 0, reg_ebx = 0, reg_ecx = 0, reg_edx = 0\<rparr>" "0xB1" plain_kernel] by simp
qed

text \<open>C26. 
  On a format that consists of ordinary characters and the conversions \<open>%%\<close>,
  \<open>%x\<close>, \<open>%#x\<close>, \<open>%u\<close>, \<open>%d\<close> and \<open>%c\<close>,
  \<open>printf\<close> prints the characters of the format with each conversion replaced by the text of
  its argument: numbers in hexadecimal, or in eight hexadecimal digits for the alternate form, unsigned
  and signed decimal numbers, and characters. It returns the length of the format.
\<close>

theorem printf_prints_directives:
  assumes "list_all directive_ok ds" and "\<forall>i. 64 \<le> length (junk i)"
  shows "printf junk (concat (map spell ds)) arg s =
    Ok (length (concat (map spell ds)), fold putc (texts arg 0 ds) s)"
  using assms by (rule printf_texts)

lemma printf_prints_directives_witness:
  "printf (\<lambda>_. replicate 64 0) (bytes_of ''x=%#x, %d'') (\<lambda>i. if i = 0 then 0x2A else - 7) plain_kernel =
    Ok (9, fold putc (bytes_of ''x=0000002A, -7'') plain_kernel)"
proof -
  let ?ds = "[Char 0x78, Char 0x3D, PaddedHex, Char 0x2C, Char 0x20, Signed]"
  have ok: "list_all directive_ok ?ds" by code_simp
  have f: "concat (map spell ?ds) = bytes_of ''x=%#x, %d''" by code_simp
  have t: "texts (\<lambda>i. if i = 0 then 0x2A else - 7) 0 ?ds = bytes_of ''x=0000002A, -7''" by code_simp
  have l: "length (bytes_of ''x=%#x, %d'') = 9" by code_simp
  show ?thesis
    using printf_prints_directives [OF ok boot_junk, of "\<lambda>i. if i = 0 then 0x2A else - 7" plain_kernel]
    unfolding f t l .
qed

text \<open>C27. 
  With at least two processes in the run queue, \<open>scheduler\<close> takes the first one off,
  appends it to the queue of expired processes unless it is finished, and loads the stack, frame and
  page directory registers and the kernel stack of the second one, with interrupts disabled.
\<close>

theorem scheduler_rotates_queues:
  assumes "queues s (p # q # rs) es" and "curr (nodes s q) \<noteq> 0" and "P = pcbs s (curr (nodes s q))"
  shows "\<exists>s'. scheduler s = Ok s' \<and> queues s' (q # rs) (rotated s p es) \<and>
    ebp s' = curr_ebp P \<and> esp s' = curr_esp P \<and> cr3 s' = curr_pd P \<and>
    tss_esp0 s' = 0x800000 - (pid P + 1) * MAX_STACK \<and> \<not> bit (eflags s') 9"
  unfolding assms(3) using assms(1,2) by (rule scheduler_rotates)

lemma scheduler_rotates_queues_witness:
  "\<exists>s'. scheduler (sched_kernel 0x100) = Ok s' \<and> queues s' [0x200] [0x100]"
proof -
  have "curr (nodes (sched_kernel 0x100) 0x200) \<noteq> 0"
    by (simp add: sample_nodes_def)
  moreover have "rotated (sched_kernel 0x100) 0x100 [] = [0x100]" by (simp add: rotated_def sample_nodes_def)
  ultimately show ?thesis
    using scheduler_rotates_queues [OF sched_queues(1) _ refl] by auto
qed

text \<open>C28. 
  With one process in the run queue, the turn never ends well: the test in front of the swap of the
  queues repeats the test that returns when both are empty, so the swap is unreachable, and
  \<open>scheduler\<close> dereferences the null run queue although processes are waiting.
\<close>

theorem scheduler_never_swaps_queues:
  assumes "queues s [p] es" and "finished (nodes s p) = 0 \<or> es \<noteq> []"
  shows "scheduler s = Err PageFault"
  using assms by (rule scheduler_never_swaps)

lemma scheduler_never_swaps_queues_witness:
  "scheduler (sched_kernel 0x200) = Err PageFault"
  using scheduler_never_swaps_queues [OF sched_queues(2)] by (simp add: sample_nodes_def)

text \<open>C29. 
  The walk to the end of a queue, which adding a process and expiring one share, ends exactly when the
  links of the queue are a list: then the new node is linked to its last node; otherwise the loop does
  not end.
\<close>

theorem queue_walk_terminates:
  assumes "p \<noteq> 0"
  shows "(\<exists>xs z. path (next_of s) p (xs @ [z]) \<and> append_node p a s = Ok (set_next z a s)) \<or>
    (\<nexists>xs. path (next_of s) p xs) \<and> append_node p a s = Err Diverges"
  using assms by (rule append_node_ends)

lemma queue_walk_terminates_witness:
  "\<exists>xs z. path (next_of (sched_kernel 0x100)) 0x100 (xs @ [z]) \<and>
    append_node 0x100 0x300 (sched_kernel 0x100) = Ok (set_next z 0x300 (sched_kernel 0x100))"
proof -
  have "\<exists>xs. path (next_of (sched_kernel 0x100)) 0x100 xs"
    using queuesD(1) [OF sched_queues(1)] unfolding sched_fields by blast
  moreover have "(0x100 :: u32) \<noteq> 0" by simp
  ultimately show ?thesis
    using queue_walk_terminates [of "0x100" "sched_kernel 0x100" "0x300"] by blast
qed

text \<open>C30. 
  \<open>add_prog_to_queue\<close> writes through a pointer it never sets. When that pointer still holds
  the last node of the run queue, the node becomes its own successor; from then on the walk to the end
  of the queue does not end, so a further call never returns when the pointer then holds any node that
  is not in the queue.
\<close>

theorem add_prog_may_close_cycle:
  assumes "queues s (xs @ [g]) es"
  shows "\<exists>s'. add_prog_to_queue g loc s = Ok s' \<and> next_of s' g = g \<and>
    (\<forall>h loc'. h \<noteq> 0 \<and> h \<notin> set (xs @ [g]) \<longrightarrow> add_prog_to_queue h loc' s' = Err Diverges)"
  using assms by (rule add_prog_stale)

lemma add_prog_may_close_cycle_witness:
  "\<exists>s'. add_prog_to_queue 0x200 PCB0_LOC (sched_kernel 0x200) = Ok s' \<and> next_of s' 0x200 = 0x200 \<and>
    add_prog_to_queue 0x300 PCB0_LOC s' = Err Diverges"
proof -
  have q: "queues (sched_kernel 0x200) ([] @ [0x200]) []" using sched_queues(2) by simp
  have "(0x300 :: u32) \<noteq> 0 \<and> 0x300 \<notin> set ([] @ [0x200 :: u32])" by simp
  then show ?thesis using add_prog_may_close_cycle [OF q, of PCB0_LOC] by blast
qed

text \<open>C31. 
  \<open>rtc_write\<close> accepts 2, 4, \<dots>, 64 Hz: it programs the rate \<open>r\<close> with
  frequency times \<open>2^(r-1)\<close> equal to 32768 into the low bits of register A, keeps the
  divider bits, and touches no other register.
\<close>

theorem rtc_write_programs_rate:
  assumes "ld buf s = Ok b" and "sint b \<in> {2, 4, 8, 16, 32, 64}" and "rtc_device r0 (dev s)"
  shows "\<exists>s' rate. rtc_write buf s = Ok (0, s') \<and> 1 \<le> rate \<and> rate \<le> 15 \<and>
    sint b * 2 ^ (rate - 1) = THEORY_MAX \<and>
    take_bit 7 (rtc_reg r0 STATUS_A s') = (take_bit 7 (rtc_reg r0 STATUS_A s) AND 0x70) OR of_nat rate \<and>
    (\<forall>k. k \<noteq> STATUS_A \<longrightarrow> rtc_reg r0 k s' = rtc_reg r0 k s) \<and> mem s' = mem s"
  by (rule rtc_write_accepts [OF assms])

lemma rtc_write_programs_rate_witness:
  "\<exists>s' rate. rtc_write 0x100000 (sample_kernel (\<lambda>_. 32) sample_rtc) = Ok (0, s') \<and>
    32 * 2 ^ (rate - 1) = THEORY_MAX"
  using rtc_write_programs_rate [of "0x100000" "sample_kernel (\<lambda>_. 32) sample_rtc" 32 "\<lambda>_. 0"]
    sample_rtc_device by auto

text \<open>C32. 
  \<open>rtc_read\<close> returns at the latest when the clock interrupt has been delivered, and leaves
  the flag down for the next tick: other interrupts may arrive before it, as long as their handlers
  return, one after the other, from the state where the call enables interrupts; what arrives later does
  not matter.
\<close>

theorem rtc_read_returns_after_tick:
  assumes "foldE (\<lambda>h. h) before (sti s) = Ok t"
  shows "\<exists>s'. rtc_read (before @ (\<lambda>s. Ok (rtc_handler s)) # after) s = Ok (0, s') \<and> int_flag s' = LOW"
  using assms by (rule rtc_read_returns)

lemma rtc_read_returns_after_tick_witness:
  "\<exists>s'. rtc_read [key_irq, \<lambda>s. Ok (rtc_handler s)] (sample_kernel (\<lambda>_. 0) (sample_keys [KEY_A])) = Ok (0, s') \<and>
    int_flag s' = LOW"
proof -
  define s where "s = sti (sample_kernel (\<lambda>_. 0) (sample_keys [KEY_A]))"
  have f: "kbd_ok s" "dev s = sample_keys [KEY_A]" "io_log s = []"
    "editor_of s = \<lparr>ed_alt = False, ed_shift = False, ed_ctrl = False, ed_caps = False, ed_line = []\<rparr>"
    by (simp_all add: s_def sti_def kbd_ok_def columns_ok_def editor_of_def line_def)
  have "scancode_of s = KEY_A"
    using scancode_device [of "[KEY_A]" s] sample_keys_device f(2,3) by (simp add: kb_reads_def)
  moreover have "ed_enabled KEY_A \<lparr>ed_alt = False, ed_shift = False, ed_ctrl = False, ed_caps = False, ed_line = []\<rparr>"
    by code_simp
  ultimately obtain t where "keyboard_handler s = Ok (SameTerminal, t)"
    using editor_step_any [OF f(1)] f(4) by auto
  then have "foldE (\<lambda>h. h) [key_irq] s = Ok t" by (simp add: key_irq_def)
  then show ?thesis unfolding s_def using rtc_read_returns_after_tick [of "[key_irq]" _ t "[]"] by simp
qed

text \<open>C33. 
  The block routines, written in assembly with doubleword string instructions, alignment loops and two
  directions, do what a loop over single bytes does: \<open>memset\<close> for every range,
  \<open>memcpy\<close> whenever the destination does not begin inside the source, and
  \<open>memmove\<close>, for ranges that do not pass the end of the address space, what a copy through
  a temporary buffer does, however they overlap. \<open>memmove\<close> leaves the direction flag set
  when it copies backwards.
\<close>

theorem memory_routines_equal_byte_loops:
  shows "memset d c n m = byte_set (ucast c) d (unat n) m \<and>
    (unat n \<le> unat (d - s) \<longrightarrow> memcpy d s n m = byte_copy d s (unat n) m) \<and>
    (unat s + unat n \<le> 2 ^ 32 \<and> unat d + unat n \<le> 2 ^ 32 \<longrightarrow>
      memmove d s n m = (buffered_copy d s (unat n) m, s < d))"
proof -
  have "unat n \<le> 2 ^ 32" using unat_u32_less [of n] by simp
  then show ?thesis
    using memset_fill [of d c n m] byte_set_fill memcpy_copied [of n d s m] byte_copy_copied [of "unat n" d s]
      memmove_copied [of s n d m] buffered_copied by simp
qed

lemma memory_routines_equal_byte_loops_witness:
  "memcpy 0x2001 0x1002 7 (\<lambda>a. ucast a) = byte_copy 0x2001 0x1002 7 (\<lambda>a. ucast a) \<and>
    memmove 0x1001 0x1000 4 (\<lambda>a. ucast a) = (buffered_copy 0x1001 0x1000 4 (\<lambda>a. ucast a), True)"
  using memory_routines_equal_byte_loops [of "0x2001" 0 7 "\<lambda>a. ucast a" "0x1002"]
    memory_routines_equal_byte_loops [of "0x1001" 0 4 "\<lambda>a. ucast a" "0x1000"] by simp

text \<open>C34. 
  \<open>itoa\<close> writes a number whose digits, read back in the same base, give the number again,
  and terminates it, for every base from 2 to 36 and every buffer with room for it.
\<close>

theorem itoa_round_trip:
  assumes "2 \<le> unat radix" and "unat radix \<le> 36"
    and "length (number_text (unat radix) (unat v)) < length buf"
  shows "\<exists>cs r. itoa v buf radix = Ok (cs @ 0 # r) \<and> 0 \<notin> set cs \<and> read_number (unat radix) cs = unat v"
  using itoa_text [OF assms] read_number_text [OF assms(1,2)] number_text_nonzero [OF assms(1,2)] by blast

lemma itoa_round_trip_witness:
  "\<exists>cs r. itoa 0x2A [0, 0, 0, 0] 10 = Ok (cs @ 0 # r) \<and> 0 \<notin> set cs \<and> read_number 10 cs = 42"
proof -
  have "length (number_text 10 42) < 4" by code_simp
  then show ?thesis using itoa_round_trip [of 10 "0x2A" "[0, 0, 0, 0]"] by simp
qed

text \<open>C35. 
  With every descriptor in use, \<open>open\<close> compares the loop variable with a local variable
  that was never assigned: it returns \<open>-1\<close> unless that variable happens to hold 8, and
  writes behind the descriptor table if it does.
\<close>

theorem open_with_full_table:
  assumes "fds_ok s" and "opens filename s (Some d)" and "dentry_type d \<le> 2"
    and "\<forall>j. 2 \<le> j \<and> j < FOPS_NUM \<longrightarrow> fds s ! j \<noteq> free_fd"
  shows "sys_open g filename s = (if g = 8 then Err OutOfBounds else Ok (-1, s))"
  using sys_open_full [OF assms(1,2,4)] assms(3) by simp

lemma open_with_full_table_witness:
  "sys_open 8 0x40 full_kernel = Err OutOfBounds"
  using open_with_full_table [OF full_ok full_opens _ full_table, of 8] by (simp add: sample_dentry_fields)

text \<open>C36. 
  \<open>getargs\<close> does not compare the length the program asks for with the size of the saved
  arguments: a request for more than 128 bytes reads beyond the array in the PCB.
\<close>

theorem getargs_overruns_arguments:
  assumes "cur_loc s \<noteq> 0" and "length (args (pcbs s (cur_loc s))) = ARG_SIZE"
    and "args (pcbs s (cur_loc s)) ! 0 \<noteq> 0" and "args (pcbs s (cur_loc s)) ! 0 \<noteq> 0x25"
    and "int ARG_SIZE < n" and "n < 2 ^ 32"
  shows "getargs buf n s = Err OutOfBounds"
  by (rule getargs_overrun [OF assms])

lemma getargs_overruns_arguments_witness:
  "getargs 0x08100000 129 (file_kernel\<lparr>pcbs := (\<lambda>_. sample_pcb\<lparr>args := replicate ARG_SIZE 0x61\<rparr>)\<rparr>) =
    Err OutOfBounds"
  by (rule getargs_overruns_arguments) (simp_all add: cur_loc_def)

text \<open>C37. 
  \<open>vidmap\<close> stores the address of the text screen at a mapped pointer in the 4MB from
  \<open>PROGADDR\<close> on; a null pointer and pointers outside are refused without a store.
\<close>

theorem vidmap_hands_out_screen:
  shows "(PROGADDR \<le> p \<and> p \<le> PROGADDR + MB4 \<and> mapped p 4 s \<longrightarrow>
      (\<exists>s'. vidmap p s = Ok (0, s') \<and> load32 (\<lambda>x. ld x s') p = Ok TEXTSCREENVIDMEM)) \<and>
    (p < PROGADDR \<or> PROGADDR + MB4 < p \<longrightarrow> vidmap p s = Ok (-1, s))"
  using vidmap_stores vidmap_refuses by blast

lemma vidmap_hands_out_screen_witness:
  "(\<exists>s'. vidmap 0x08100000 file_kernel = Ok (0, s') \<and> load32 (\<lambda>x. ld x s') 0x08100000 = Ok TEXTSCREENVIDMEM) \<and>
    vidmap 0 file_kernel = Ok (-1, file_kernel)"
  using vidmap_hands_out_screen [of "0x08100000" file_kernel] vidmap_hands_out_screen [of 0 file_kernel] by simp

text \<open>C38. 
  A read that starts inside the file behind its first byte and asks for more than is left returns one
  byte too many: the byte behind the end of the file is copied and counted as well.
\<close>

theorem read_data_overruns_end_of_file:
  fixes l :: loader
  assumes "\<forall>a \<in> A. l a = Ok (M a)" and "header_in A bt ino" and "ino \<le> MAX_DATA_NUM"
    and "0 < offset" and "offset \<le> file_length M bt ino"
    and "unat (file_length M bt ino) < unat offset + unat len" and "unat offset + unat len < 2 ^ 32"
    and "\<forall>q \<le> unat (file_length M bt ino). stored M A bt dt ino q"
    and "indexed A bt ino (Suc (unat (file_length M bt ino)))"
    and "unat (file_length M bt ino) + 1 < 2 ^ 32"
    and "length b = unat (file_length M bt ino) + 1 - unat offset"
  shows "read_data (\<lambda>_. l) arr_wr False bt dt ino offset len b =
    Ok (sint (file_length M bt ino + 1 - offset),
      map (\<lambda>i. file_byte M bt dt ino (unat offset + i)) [0..<length b])"
proof -
  have "arr_fs.holds l b A M" using assms(1) by (simp add: arr_fs.holds_def)
  from arr_fs.read_data_tail [OF this assms(2-9) _ assms(10)] assms(11) show ?thesis
    by (auto simp: arr_writes_list)
qed

lemma read_data_overruns_end_of_file_witness:
  "read_data (\<lambda>_ a. Ok (sample_image a)) arr_wr False 0 0x2000 0 1 10 [0, 0, 0] = Ok (3, [0x62, 0x63, 0x64])"
proof -
  have bytes: "map (\<lambda>i. file_byte sample_image 0 0x2000 0 (unat (1 :: u32) + i)) [0..<length [0, 0, 0 :: u8]] =
      [0x62, 0x63, 0x64]"
    by (simp add: file_byte_def file_addr_def sample_block data_at_def sample_image_def upt_conv_Cons)
  have "read_data (\<lambda>_ a. Ok (sample_image a)) arr_wr False 0 0x2000 0 1 10 [0, 0, 0] =
    Ok (sint (file_length sample_image 0 0 + 1 - 1),
      map (\<lambda>i. file_byte sample_image 0 0x2000 0 (unat (1 :: u32) + i)) [0..<length [0, 0, 0 :: u8]])"
    by (rule read_data_overruns_end_of_file [where A = sample_area])
      (use sample_stored [of 4] sample_file sample_stored in
        \<open>simp_all add: stored_def file_in_def word_le_nat_alt\<close>)
  then show ?thesis unfolding bytes by simp
qed

text \<open>C39. 
  A line of 128 characters leaves no room for its newline: ENTER then writes behind the end of the line
  buffer, in whatever terminal is current.
\<close>

theorem enter_overruns_full_line:
  assumes "kbd_ok s" and "bufferindex s (current_terminal s) = int BUFFERSIZE"
  shows "handle_enter s = Err OutOfBounds"
  by (rule enter_overflow [OF assms])

lemma enter_overruns_full_line_witness:
  "handle_enter (set_bufferindex 0 128 plain_kernel) = Err OutOfBounds"
  by (rule enter_overruns_full_line)
    (simp_all add: set_bufferindex_def kbd_ok_def columns_ok_def)

text \<open>C40. 
  Writing more than 128 bytes to a terminal stores beyond the write buffer of the terminal before
  anything is printed: the loop that clears it is bounded by the caller's length only.
\<close>

theorem terminal_write_overruns:
  assumes "length (writebuffer s (current_terminal s)) = BUFFERSIZE" and "buf \<noteq> 0" and "int BUFFERSIZE < n"
  shows "terminal_write buf n s = Err OutOfBounds"
  using assms by (rule terminal_write_overrun)

lemma terminal_write_overruns_witness:
  "terminal_write 0x2000 129 plain_kernel = Err OutOfBounds"
  by (rule terminal_write_overruns) simp_all

subsection \<open>Further properties\<close>

text \<open>
  Isolation of user programs. In the address space that \<open>execute\<close> sets up for a process,
  user mode reaches exactly the 4MB of memory of that process, at 128MB, and the text screen, at 136MB.
\<close>

theorem process_reaches_only_its_page:
  assumes "layout_ok L" and "tables_clear L (tabs s)" and "p < 6"
  shows "user_walk (tabs (progs_init L (of_nat p) s)) (cr3 (progs_init L (of_nat p) s)) a =
    (if 0x08000000 \<le> a \<and> a < 0x08400000 then Some (user_page p + (a - 0x08000000))
     else if 0x08800000 \<le> a \<and> a < 0x08801000 then Some (VIDMEM + (a - 0x08800000))
     else None)"
  by (rule process_reach [OF assms])

lemma process_reaches_only_its_page_witness:
  "user_walk (tabs (progs_init sample_layout 1 plain_kernel)) (cr3 (progs_init sample_layout 1 plain_kernel))
    0x08048000 = Some (0x00C48000)"
  using process_reaches_only_its_page [of sample_layout plain_kernel 1 "0x08048000"]
  by (simp add: sample_layout_ok sample_tables_clear user_page_def)

text \<open>
  Two processes never reach the same byte of memory except the text screen: whatever user mode of one
  and user mode of the other translate to, the physical addresses differ.
\<close>

theorem processes_share_no_memory:
  assumes "layout_ok L" and "tables_clear L (tabs s)" and "tables_clear L (tabs t)"
    and "p < 6" and "q < 6" and "p \<noteq> q"
    and "user_walk (tabs (progs_init L (of_nat p) s)) (cr3 (progs_init L (of_nat p) s)) a = Some x"
    and "user_walk (tabs (progs_init L (of_nat q) t)) (cr3 (progs_init L (of_nat q) t)) b = Some y"
    and "a < 0x08400000" and "b < 0x08400000"
  shows "x \<noteq> y"
proof -
  have sub: "w - 0x08000000 < 0x00400000" if "0x08000000 \<le> w" "w < 0x08400000" for w :: u32
    using that by (simp add: word_less_nat_alt word_le_nat_alt unat_sub)
  have low: "\<not> 0x08800000 \<le> w" if "w < 0x08400000" for w :: u32
    using that by (simp add: word_less_nat_alt word_le_nat_alt)
  have a: "a - 0x08000000 < 0x00400000" "x = user_page p + (a - 0x08000000)"
    using assms(7,9) process_reach [OF assms(1,2,4), of a] sub [of a] low [OF assms(9)] by (auto split: if_splits)
  have b: "b - 0x08000000 < 0x00400000" "y = user_page q + (b - 0x08000000)"
    using assms(8,10) process_reach [OF assms(1,3,5), of b] sub [of b] low [OF assms(10)] by (auto split: if_splits)
  show ?thesis unfolding a(2) b(2) by (rule user_pages_disjoint [OF assms(4-6) a(1) b(1)])
qed

lemma processes_share_no_memory_witness:
  "user_walk (tabs (progs_init sample_layout 0 plain_kernel)) (cr3 (progs_init sample_layout 0 plain_kernel))
      0x08048000 \<noteq>
    user_walk (tabs (progs_init sample_layout 1 plain_kernel)) (cr3 (progs_init sample_layout 1 plain_kernel))
      0x08048000"
  using processes_share_no_memory [of sample_layout plain_kernel plain_kernel 0 1 "0x08048000" "0x00848000"
      "0x08048000" "0x00C48000"]
    process_reach [of sample_layout plain_kernel 0 "0x08048000"]
    process_reach [of sample_layout plain_kernel 1 "0x08048000"]
  by (simp add: sample_layout_ok sample_tables_clear user_page_def)

text \<open>
  Looking up a name that no entry has returns \<open>-1\<close> and does not write the caller's dentry.
\<close>

theorem lookup_reports_missing_name:
  assumes "\<forall>i < MAX_FILES. entry_ok l M bt i" and "reads_name fname (NAME_SIZE - 1) f"
    and "\<forall>j < MAX_FILES. entry_name M bt j \<noteq> cstr f (NAME_SIZE - 1)"
  shows "read_dentry_by_name l bt fname = Ok (-1, None)"
  by (rule read_dentry_by_name_missing [OF assms])

lemma lookup_reports_missing_name_witness:
  "read_dentry_by_name (\<lambda>a. Ok (sample_image a)) 0 (\<lambda>i. Ok (if i = 0 then 0x62 else 0)) = Ok (-1, None)"
proof -
  have c: "cstr (\<lambda>i. if i = 0 then 0x62 else 0 :: u8) 31 = [0x62]" by code_simp
  have "entry_name sample_image 0 j \<noteq> [0x62]" if "j < 63" for j
    using that sample_names sample_unnamed by (cases "j = 0") (auto simp: list_all_iff)
  then show ?thesis
    using lookup_reports_missing_name [of "\<lambda>a. Ok (sample_image a)" sample_image 0 "\<lambda>i. Ok (if i = 0 then 0x62 else 0)"
        "\<lambda>i. if i = 0 then 0x62 else 0"] sample_entry_ok c
    by (simp add: reads_name_def)
qed

text \<open>
  Reading a directory delivers the name of the entry at the position, cut to the caller's buffer and to
  32 bytes, returns the number of bytes delivered, and moves to the next entry.
\<close>

theorem dir_read_delivers_names:
  assumes "has_image A M s" and "entry_in A M (boot s) (unat (file_pos e))"
    and "get_fd fd s = Ok e" and "buf \<noteq> 0" and "n < 2 ^ 31"
    and "name_length M (boot s) (unat (file_pos e)) \<noteq> 0"
    and "k = min (min (name_length M (boot s) (unat (file_pos e))) n) NAME_SIZE"
    and "mapped buf k s"
  shows "\<exists>s'. dir_read fd buf (int n) s = Ok (int k, s') \<and>
    (\<forall>i < k. ld (buf + of_nat i) s' = Ok (entry M (boot s) (unat (file_pos e)) ! i)) \<and>
    get_fd fd s' = Ok (e\<lparr>file_pos := file_pos e + 1\<rparr>)"
  using dir_read_name [OF assms(1-6)] assms(7,8) by blast

lemma dir_read_delivers_names_witness:
  "\<exists>s'. dir_read 2 0x100000 32 (sample_kernel sample_image no_device) = Ok (1, s') \<and>
    ld 0x100000 s' = Ok 0x61 \<and> get_fd 2 s' = Ok (free_fd\<lparr>file_pos := 1\<rparr>)"
proof -
  let ?s = "sample_kernel sample_image no_device"
  have fd: "get_fd 2 ?s = Ok free_fd"
    by (simp add: get_fd_def cur_pcb_def get_pcb_def cur_loc_def sample_pcb_def stdio_fds_def)
  show ?thesis
    using dir_read_delivers_names [of sample_area sample_image ?s free_fd 2 "0x100000" 32 1]
      sample_holds sample_entry_in fd
    by (simp add: free_fd_def sample_names sample_entry)
qed

text \<open>
  Every other value of the byte is refused with \<open>-1\<close> and the clock is not accessed. As only
  a signed byte of the buffer is looked at, this includes 128 to 1024 Hz, which the driver documents as
  valid.
\<close>

theorem rtc_write_refuses_other_rates:
  assumes "ld buf s = Ok b" and "sint b \<notin> {2, 4, 8, 16, 32, 64}"
  shows "\<exists>s'. rtc_write buf s = Ok (-1, s') \<and> io_log s' = io_log s"
  by (rule rtc_write_rejects [OF assms])

lemma rtc_write_refuses_other_rates_witness:
  "\<exists>s'. rtc_write 0x100000 (sample_kernel (\<lambda>a. if a = 0x100001 then 4 else 0) sample_rtc) = Ok (-1, s') \<and>
    io_log s' = []"
  using rtc_write_refuses_other_rates [of "0x100000" "sample_kernel (\<lambda>a. if a = 0x100001 then 4 else 0) sample_rtc" 0]
  by auto

text \<open>
  A tick that arrived before the call is not discarded: \<open>rtc_read\<close> then returns without
  waiting for an interrupt at all.
\<close>

theorem rtc_read_returns_on_old_tick:
  assumes "int_flag s = HIGH"
  shows "\<exists>s'. rtc_read [] s = Ok (0, s') \<and> int_flag s' = LOW"
  by (rule rtc_read_stale_tick [OF assms])

lemma rtc_read_returns_on_old_tick_witness:
  "\<exists>s'. rtc_read [] (rtc_handler plain_kernel) = Ok (0, s') \<and> int_flag s' = LOW"
  by (rule rtc_read_returns_on_old_tick) (rule rtc_handler_flag)

text \<open>
  Printing keeps the cursor inside the 80 by 25 cells and writes no memory but the rows of the screen
  and the row below them, which a scroll reads.
\<close>

theorem printk_stays_on_screen:
  assumes "on_screen (current_terminal s) s"
  shows "on_screen (current_terminal s) (snd (printk str s)) \<and>
    (\<forall>a. a \<notin> screen_region \<longrightarrow> mem (snd (printk str s)) a = mem s a) \<and>
    quiet (snd (printk str s)) = quiet s"
proof -
  have c: "current_terminal (snd (printk str s)) = current_terminal s" by (simp add: printk_frame)
  show ?thesis
    using term_out.string_inv [of s str, OF assms] term_out.string_frame [of s str, OF assms] c
      quiet_printk [of str s]
    by (simp add: printk_def same_outside_def)
qed

lemma printk_stays_on_screen_witness:
  "on_screen 0 (snd (printk (replicate 3000 0x61) plain_kernel))"
  using printk_stays_on_screen [of plain_kernel "replicate 3000 0x61"] by (simp add: on_screen_def)

text \<open>
  The three-phase \<open>memset\<close> (single bytes up to alignment, doublewords, single bytes) stores
  the low byte of its argument at the \<open>n\<close> addresses from \<open>s\<close> on, which may
  wrap around the address space, and nothing else.
\<close>

theorem memset_fills_range:
  shows "memset s c n m a = (if unat (a - s) < unat n then ucast c else m a)"
  by (simp add: memset_fill fill_def)

text \<open>
  \<open>memcpy\<close>, by bytes up to alignment and by doublewords in between, copies the range
  exactly whenever the destination does not begin inside the source, in particular for ranges that do
  not overlap.
\<close>

theorem memcpy_copies_range:
  assumes "unat n \<le> unat (dest - src)"
  shows "memcpy dest src n m a = (if unat (a - dest) < unat n then m (src + (a - dest)) else m a)"
  by (simp add: memcpy_copied [OF assms] copied_def)

lemma memcpy_copies_range_witness:
  "memcpy 0x2001 0x1002 7 (\<lambda>a. if a = 0x1008 then 5 else 0) 0x2007 = 5"
  using memcpy_copies_range [of 7 "0x2001" "0x1002" "\<lambda>a. if a = 0x1008 then 5 else 0" "0x2007"] by simp

text \<open>
  \<open>memmove\<close> copies the range exactly for every overlap of source and destination. When it
  copies backwards it leaves the direction flag set, which the calling convention requires clear.
\<close>

theorem memmove_copies_overlapping:
  assumes "unat src + unat n \<le> 2 ^ 32" and "unat dest + unat n \<le> 2 ^ 32"
  shows "memmove dest src n m =
    (\<lambda>a. if unat (a - dest) < unat n then m (src + (a - dest)) else m a, src < dest)"
  by (simp add: memmove_copied [OF assms] copied_def)

lemma memmove_copies_overlapping_witness:
  "fst (memmove 0x1001 0x1000 4 (\<lambda>a. if a = 0x1003 then 5 else 0)) 0x1004 = 5 \<and>
    snd (memmove 0x1001 0x1000 4 (\<lambda>a. 0))"
  using memmove_copies_overlapping [of "0x1000" 4 "0x1001"] by simp

text \<open>
  \<open>strrev\<close>, which swaps the ends of the string towards its middle, reverses the string in
  place and leaves the bytes behind its terminator alone.
\<close>

theorem strrev_reverses:
  assumes "0 \<notin> set s" and "length s < 2 ^ 32"
  shows "strrev (s @ 0 # r) = Ok (rev s @ 0 # r)"
  by (rule strrev_rev [OF assms])

lemma strrev_reverses_witness:
  "strrev [1, 2, 3, 0, 9] = Ok [3, 2, 1, 0, 9]"
  using strrev_reverses [of "[1, 2, 3]" "[9]"] by simp

text \<open>
  Enabling interrupt lines, in any order and over both controllers, unmasks exactly those lines in
  addition to the ones that were unmasked.
\<close>

theorem enable_irqs_unmasks_lines:
  assumes "pic_ready s" and "\<forall>n \<in> set ns. n < 16"
  shows "unmasked (fold (\<lambda>n. enable_irq (of_nat n)) ns s) = set ns \<union> unmasked s"
  by (rule pic.lines_fold [OF assms])

lemma enable_irqs_unmasks_lines_witness:
  "unmasked (fold (\<lambda>n. enable_irq (of_nat n)) [1, 2, 8] (sample_kernel (\<lambda>_. 0) sample_pics)) =
    {1, 2, 8} \<union> unmasked (sample_kernel (\<lambda>_. 0) sample_pics)"
  using enable_irqs_unmasks_lines [of "sample_kernel (\<lambda>_. 0) sample_pics" "[1, 2, 8]"] sample_pics_ready
  by simp

text \<open>
  Disabling a line that was masked before it was enabled restores the set of unmasked lines.
\<close>

theorem disable_undoes_enable:
  assumes "pic_ready s" and "n < 16" and "n \<notin> unmasked s"
  shows "unmasked (disable_irq (of_nat n) (enable_irq (of_nat n) s)) = unmasked s"
  by (rule pic.disable_enable [OF assms])

lemma disable_undoes_enable_witness:
  "unmasked (disable_irq (of_nat 9) (enable_irq (of_nat 9) (i8259_init (sample_kernel (\<lambda>_. 0) sample_pics)))) = {}"
proof -
  let ?s = "i8259_init (sample_kernel (\<lambda>_. 0) sample_pics)"
  have r: "pic_ready ?s"
    using sample_pics_ready by (simp add: pic_ready_def i8259_init_state frame_simps)
  have u: "unmasked ?s = {}" by (auto simp: i8259_init_masks)
  show ?thesis using disable_undoes_enable [OF r, of 9] u by simp
qed

text \<open>
  Setting the timer to a rate its 16-bit divisor can express programs the divisor of that rate.
\<close>

theorem set_pit_rate_programs_divisor:
  assumes "19 \<le> hz" and "hz \<le> OSCILLATOR"
  shows "\<exists>s'. set_pit_rate hz s = Ok s' \<and> pit_reload s' = nat (OSCILLATOR div hz)"
  by (rule set_pit_rate_reload [OF assms])

lemma set_pit_rate_programs_divisor_witness:
  "\<exists>s'. set_pit_rate 100 plain_kernel = Ok s' \<and> pit_reload s' = nat (OSCILLATOR div 100)"
  by (rule set_pit_rate_programs_divisor) simp_all

text \<open>
  The four keyboard tables agree: caps lock exchanges the case of letters and nothing else, shift does
  so as well and selects the upper symbol of other keys, and both together undo the exchange on letters
  only.
\<close>

theorem keyboard_tables_agree:
  shows "list_all (\<lambda>k. if is_letter (arr_at firstarray k)
     then arr_at secondarray k = arr_at firstarray k - 0x20 \<and>
       arr_at thirdarray k = arr_at secondarray k \<and> arr_at fourtharray k = arr_at firstarray k
     else arr_at thirdarray k = arr_at firstarray k \<and> arr_at fourtharray k = arr_at secondarray k)
   (map fst firstarray)"
  by (rule arrays_case)

text \<open>
  The upper bound of \<open>vidmap\<close> counts 4MB from the load address, not from the start of the
  program's page: a pointer between the end of the page at \<open>0x08400000\<close> and the bound
  passes the test, and the kernel's own store faults.
\<close>

theorem vidmap_faults_above_program:
  assumes "layout_ok L" and "tables_clear L (tabs s)" and "paging_on s" and "p < 6"
    and "0x08400000 \<le> a" and "a \<le> PROGADDR + MB4"
  shows "vidmap a (progs_init L (of_nat p) s) = Err PageFault"
  by (rule vidmap_faults [OF assms])

lemma vidmap_faults_above_program_witness:
  "vidmap 0x08400000 (progs_init sample_layout 0 prog_kernel) = Err PageFault"
  using vidmap_faults_above_program [OF sample_layout_ok, of prog_kernel 0 "0x08400000"] prog_can_start
  by (simp add: can_start_def)

text \<open>
  A format that ends in a percent sign makes \<open>printf\<close> step over the terminator and read
  beyond the string.
\<close>

theorem printf_reads_past_percent:
  assumes "list_all directive_ok ds" and "\<forall>i. 64 \<le> length (junk i)"
  shows "printf junk (concat (map spell ds) @ [0x25]) arg s = Err OutOfBounds"
  using assms by (rule printf_overrun)

lemma printf_reads_past_percent_witness:
  "printf (\<lambda>_. replicate 64 0) (bytes_of ''100%'') (\<lambda>_. 0) plain_kernel = Err OutOfBounds"
proof -
  let ?ds = "[Char 0x31, Char 0x30, Char 0x30]"
  have ok: "list_all directive_ok ?ds" by code_simp
  have f: "concat (map spell ?ds) @ [0x25] = bytes_of ''100%''" by code_simp
  show ?thesis using printf_reads_past_percent [OF ok boot_junk] unfolding f .
qed

end
